(* ===== verification/Rtest_Prelude.thy ===== *)
theory Rtest_Prelude
  imports Main "HOL-Library.List_Lexorder" "HOL-Library.Char_ord" "HOL-Library.Option_ord"
    "HOL-Library.Word"
begin

text \<open>
  Shared vocabulary of the development: the exceptions the C++ code throws (and the undefined
  behaviour it can run into) as values, the result of an operation that changes a state and may
  throw, the collections of facts the component theories feed, and generic lemmas on lists,
  options and 64-bit integers.

  An operation of the code is a HOL function from a state to \<open>(exn + 'a) \<times> 's\<close>: as in C++, the
  changes made before a throw stay in the state.
\<close>

section \<open>Collections of facts\<close>

named_theorems mem_simps \<open>equations of the object store and of smart pointers\<close>
named_theorems reg_simps \<open>field equations of the registry operations\<close>
named_theorems find_laws \<open>what a lookup returns after an update\<close>
named_theorems inv_intros \<open>preservation of the world invariant, one rule per operation\<close>

section \<open>Exceptions and undefined behaviour\<close>

text \<open>The kinds of undefined behaviour the modelled code can reach.\<close>

datatype ub =
    Null_dereference
  | Dangling_pointer
  | Bad_static_cast
  | Signed_overflow
  | No_shared_state
  | Mutex_relocked

text \<open>
  \<open>User_exception\<close> is an exception of user code that derives from \<open>std::exception\<close>;
  \<open>Foreign_exception\<close> one that does not, so that a handler for \<open>std::exception\<close> misses it.
\<close>

datatype exn =
    Invalid_argument string
  | Runtime_error string
  | Bad_weak_ptr
  | Future_error string
  | Length_error
  | Unimplemented_error string
  | User_exception string
  | Foreign_exception string
  | Undefined ub

text \<open>What \<open>catch (const std::exception &)\<close> catches.\<close>

fun is_std_exception :: "exn \<Rightarrow> bool" where
  "is_std_exception (Foreign_exception _) = False"
| "is_std_exception (Undefined _) = False"
| "is_std_exception _ = True"

text \<open>What \<open>catch (...)\<close> catches: every exception, but undefined behaviour is none.\<close>

fun is_exception :: "exn \<Rightarrow> bool" where
  "is_exception (Undefined _) = False"
| "is_exception _ = True"

lemma std_exception_is_exception: "is_std_exception e \<Longrightarrow> is_exception e"
  by (cases e) auto

type_synonym ('s, 'a) res = "(exn + 'a) \<times> 's"

text \<open>Sequencing: the rest of the body runs only when nothing was thrown.\<close>

definition andthen :: "('s, 'a) res \<Rightarrow> ('a \<Rightarrow> 's \<Rightarrow> ('s, 'b) res) \<Rightarrow> ('s, 'b) res" where
  "andthen r k = (case r of (Inl e, s) \<Rightarrow> (Inl e, s) | (Inr x, s) \<Rightarrow> k x s)"

lemma andthen_simps [simp]:
  "andthen (Inl e, s) k = (Inl e, s)"
  "andthen (Inr x, s) k = k x s"
  by (simp_all add: andthen_def)

lemma andthen_Inr:
  "andthen r k = (Inr y, s') \<longleftrightarrow> (\<exists>x s. r = (Inr x, s) \<and> k x s = (Inr y, s'))"
  by (cases r; cases "fst r") (auto simp: andthen_def)

text \<open>A call on the first part of a state, as a method of a node calls the library.\<close>

definition on_world :: "('w, 'r) res \<Rightarrow> 'n \<Rightarrow> ('w \<times> 'n, 'r) res" where
  "on_world r n = (case r of (x, w) \<Rightarrow> (x, (w, n)))"

section \<open>Lists\<close>

lemma filter_partition_length:
  "length (filter P xs) + length (filter (\<lambda>x. \<not> P x) xs) = length xs"
  by (rule sum_length_filter_compl)

lemma set_takeWhile_subset: "set (takeWhile P xs) \<subseteq> set xs"
  by (auto dest: set_takeWhileD)

section \<open>64-bit signed integers\<close>

text \<open>
  \<open>int64_t\<close> values are mathematical integers in range; an addition or a product that leaves the
  range is undefined behaviour in C++ and an error value here.
\<close>

definition int64_max :: int where
  "int64_max = 9223372036854775807"

definition int64_min :: int where
  "int64_min = - 9223372036854775808"

definition in_int64 :: "int \<Rightarrow> bool" where
  "in_int64 x \<longleftrightarrow> int64_min \<le> x \<and> x \<le> int64_max"

definition checked64 :: "int \<Rightarrow> exn + int" where
  "checked64 x = (if in_int64 x then Inr x else Inl (Undefined Signed_overflow))"

lemma checked64_Inr [simp]: "checked64 x = Inr y \<longleftrightarrow> in_int64 x \<and> y = x"
  by (auto simp: checked64_def)

lemma checked64_Inl: "checked64 x = Inl e \<longleftrightarrow> \<not> in_int64 x \<and> e = Undefined Signed_overflow"
  by (auto simp: checked64_def)

lemma in_int64_between: "in_int64 x \<Longrightarrow> in_int64 z \<Longrightarrow> x \<le> y \<Longrightarrow> y \<le> z \<Longrightarrow> in_int64 y"
  by (simp add: in_int64_def)

end
