(* ===== verification/Logger_Mock.thy ===== *)
theory Logger_Mock
  imports Rtest_Prelude
begin

text \<open>
  \<open>SingleInstance\<close> (single_instance.hpp), \<open>LoggerMock\<close> and \<open>DisableLogs\<close> (logger_mock.hpp) and the log
  handler that feeds the mock (logger_mock.cpp). The output handler slot belongs to rcutils: its
  accessors are the parameters \<open>get_handler\<close> and \<open>set_handler\<close> on a state \<open>'s\<close>. So does \<open>vsnprintf\<close>:
  for a call of the handler, its return value and the text it writes are arguments.
\<close>

section \<open>State\<close>

text \<open>\<open>Log_handler\<close> is this library's function, \<open>No_handler\<close> a null pointer.\<close>

datatype handler = Log_handler | No_handler | Foreign_handler nat

record 's rcutils_api =
  get_handler :: "'s \<Rightarrow> handler"
  set_handler :: "handler \<Rightarrow> 's \<Rightarrow> 's"

text \<open>
  The statics: the two flags \<open>instanceCreated_\<close>, the pointer \<open>instance_\<close> with the object it points
  to, and the live \<open>LoggerMock\<close> and \<open>DisableLogs\<close> objects (each the handler it saved).
\<close>

record 's log_state =
  rcutils :: 's
  logger_created :: bool
  disable_created :: bool
  logger_instance :: bool
  logger_saved :: handler
  disable_saved :: handler
  log_calls :: "(int \<times> string) list"

section \<open>At most one instance\<close>

definition new_SingleInstance :: "string \<Rightarrow> bool \<Rightarrow> (bool, unit) res" where
  "new_SingleInstance T instanceCreated =
     (if instanceCreated
      then (Inl (Runtime_error (''Attempt to create more than one instance of '' @ T)), True)
      else (Inr (), True))"

definition delete_SingleInstance :: "bool \<Rightarrow> bool" where
  "delete_SingleInstance instanceCreated = False"

section \<open>The mock and the switch\<close>

definition new_LoggerMock :: "'s rcutils_api \<Rightarrow> 's log_state \<Rightarrow> ('s log_state, unit) res" where
  "new_LoggerMock api s =
     (case new_SingleInstance ''rtest::LoggerMock'' (logger_created s) of
        (Inl e, b) \<Rightarrow> (Inl e, s\<lparr>logger_created := b\<rparr>)
      | (Inr _, b) \<Rightarrow>
          (Inr (), s\<lparr>logger_created := b, logger_instance := True,
             logger_saved := get_handler api (rcutils s), log_calls := [],
             rcutils := set_handler api Log_handler (rcutils s)\<rparr>))"

definition delete_LoggerMock :: "'s rcutils_api \<Rightarrow> 's log_state \<Rightarrow> 's log_state" where
  "delete_LoggerMock api s =
     s\<lparr>logger_instance := False, rcutils := set_handler api (logger_saved s) (rcutils s),
       logger_created := delete_SingleInstance (logger_created s)\<rparr>"

definition new_DisableLogs :: "'s rcutils_api \<Rightarrow> 's log_state \<Rightarrow> ('s log_state, unit) res" where
  "new_DisableLogs api s =
     (case new_SingleInstance ''rtest::DisableLogs'' (disable_created s) of
        (Inl e, b) \<Rightarrow> (Inl e, s\<lparr>disable_created := b\<rparr>)
      | (Inr _, b) \<Rightarrow>
          (Inr (), s\<lparr>disable_created := b, disable_saved := get_handler api (rcutils s),
             rcutils := set_handler api No_handler (rcutils s)\<rparr>))"

definition delete_DisableLogs :: "'s rcutils_api \<Rightarrow> 's log_state \<Rightarrow> 's log_state" where
  "delete_DisableLogs api s =
     s\<lparr>rcutils := set_handler api (disable_saved s) (rcutils s),
       disable_created := delete_SingleInstance (disable_created s)\<rparr>"

section \<open>The handler\<close>

text \<open>\<open>std::string::resize\<close>: beyond \<open>max_size\<close> it throws.\<close>

definition string_max_size :: "64 word" where
  "string_max_size = 0x7FFFFFFFFFFFFFFF"

definition resize_ok :: "64 word \<Rightarrow> bool" where
  "resize_ok n \<longleftrightarrow> n \<le> string_max_size"

text \<open>
  \<open>ret\<close> is what \<open>vsnprintf\<close> returns (negative for an encoding error), \<open>text\<close> what it writes into a
  buffer that is large enough. The message is what the buffer holds, cut to \<open>len\<close>.
\<close>

definition logHandler :: "int \<Rightarrow> int \<Rightarrow> string \<Rightarrow> 's log_state \<Rightarrow> ('s log_state, unit) res" where
  "logHandler severity ret text s =
     (if \<not> logger_instance s then (Inr (), s)
      else let len = (word_of_int ret :: 64 word)
        in if len = 0 then (Inr (), s)
           else if \<not> resize_ok (len + 1) then (Inl Length_error, s)
           else if \<not> resize_ok len then (Inl Length_error, s)
           else (Inr (), s\<lparr>log_calls := log_calls s @ [(severity, take (unat len) text)]\<rparr>))"

section \<open>The slot of rcutils\<close>

text \<open>What rcutils documents: the handler read is the one set last.\<close>

definition rcutils_laws :: "'s rcutils_api \<Rightarrow> bool" where
  "rcutils_laws api \<longleftrightarrow> (\<forall>h s. get_handler api (set_handler api h s) = h)"

definition slot_api :: "handler rcutils_api" where
  "slot_api = \<lparr>get_handler = (\<lambda>s. s), set_handler = (\<lambda>h s. h)\<rparr>"

definition idle_log :: "handler log_state" where
  "idle_log = \<lparr>rcutils = Foreign_handler 0, logger_created = False, disable_created = False,
     logger_instance = False, logger_saved = No_handler, disable_saved = No_handler, log_calls = []\<rparr>"

lemma slot_api_laws: "rcutils_laws slot_api"
  by (simp add: rcutils_laws_def slot_api_def)

abbreviation installed :: "'s rcutils_api \<Rightarrow> 's log_state \<Rightarrow> handler" where
  "installed api s \<equiv> get_handler api (rcutils s)"

section \<open>Programs with scoped instances\<close>

text \<open>
  Test code with \<open>LoggerMock\<close> and \<open>DisableLogs\<close> as local variables: log calls, and blocks that own an
  instance, nested in any way. An exception leaves a block after its instance is destroyed.
\<close>

datatype log_prog =
    Log int int string
  | With_LoggerMock "log_prog list"
  | With_DisableLogs "log_prog list"

fun run_prog :: "'s rcutils_api \<Rightarrow> log_prog \<Rightarrow> 's log_state \<Rightarrow> ('s log_state, unit) res"
  and run_progs :: "'s rcutils_api \<Rightarrow> log_prog list \<Rightarrow> 's log_state \<Rightarrow> ('s log_state, unit) res" where
  "run_prog api (Log severity ret msg) s =
     (if installed api s = Log_handler then logHandler severity ret msg s else (Inr (), s))"
| "run_prog api (With_LoggerMock ps) s =
     (case new_LoggerMock api s of
        (Inl e, s1) \<Rightarrow> (Inl e, s1)
      | (Inr _, s1) \<Rightarrow> (case run_progs api ps s1 of (r, s2) \<Rightarrow> (r, delete_LoggerMock api s2)))"
| "run_prog api (With_DisableLogs ps) s =
     (case new_DisableLogs api s of
        (Inl e, s1) \<Rightarrow> (Inl e, s1)
      | (Inr _, s1) \<Rightarrow> (case run_progs api ps s1 of (r, s2) \<Rightarrow> (r, delete_DisableLogs api s2)))"
| "run_progs api [] s = (Inr (), s)"
| "run_progs api (p # ps) s = andthen (run_prog api p s) (\<lambda>_. run_progs api ps)"

text \<open>What a block leaves as it was.\<close>

definition restored :: "'s rcutils_api \<Rightarrow> 's log_state \<Rightarrow> 's log_state \<Rightarrow> bool" where
  "restored api s s' \<longleftrightarrow> installed api s' = installed api s \<and> logger_created s' = logger_created s \<and>
     disable_created s' = disable_created s \<and> logger_instance s' = logger_instance s \<and>
     (logger_created s \<longrightarrow> logger_saved s' = logger_saved s) \<and>
     (disable_created s \<longrightarrow> disable_saved s' = disable_saved s)"

lemmas log_defs = new_LoggerMock_def new_DisableLogs_def delete_LoggerMock_def delete_DisableLogs_def
  new_SingleInstance_def delete_SingleInstance_def

lemma restored_refl [simp]: "restored api s s"
  by (simp add: restored_def)

lemma restored_trans: "restored api s s1 \<Longrightarrow> restored api s1 s2 \<Longrightarrow> restored api s s2"
  by (auto simp: restored_def)

lemma logHandler_restored: "restored api s (snd (logHandler severity ret text s))"
  by (simp add: logHandler_def Let_def restored_def)

lemma LoggerMock_block:
  assumes "rcutils_laws api" and "logger_instance s = logger_created s"
    and s1: "new_LoggerMock api s = (Inr (), s1)" and "restored api s1 s2"
  shows "logger_instance s1 = logger_created s1" and "restored api s (delete_LoggerMock api s2)"
  using assms by (auto simp: log_defs restored_def rcutils_laws_def split: if_splits)

lemma DisableLogs_block:
  assumes "rcutils_laws api" and "logger_instance s = logger_created s"
    and s1: "new_DisableLogs api s = (Inr (), s1)" and "restored api s1 s2"
  shows "logger_instance s1 = logger_created s1" and "restored api s (delete_DisableLogs api s2)"
  using assms by (auto simp: log_defs restored_def rcutils_laws_def split: if_splits)

lemma refused_restored:
  "new_LoggerMock api s = (Inl e, s1) \<Longrightarrow> s1 = s" "new_DisableLogs api s = (Inl e, s1) \<Longrightarrow> s1 = s"
  by (auto simp: log_defs split: if_splits)

lemma run_restored:
  "rcutils_laws api \<Longrightarrow> logger_instance s = logger_created s \<Longrightarrow> restored api s (snd (run_prog api p s))"
  "rcutils_laws api \<Longrightarrow> logger_instance s = logger_created s \<Longrightarrow> restored api s (snd (run_progs api ps s))"
proof (induction api p s and api ps s rule: run_prog_run_progs.induct)
  case (1 api severity ret msg s)
  then show ?case using logHandler_restored [of api s severity ret msg] by simp
next
  case (2 api ps s)
  obtain r s1 where new: "new_LoggerMock api s = (r, s1)" by fastforce
  show ?case
  proof (cases r)
    case (Inl e)
    with new refused_restored(1) [of api s e s1] show ?thesis by simp
  next
    case (Inr u)
    then have s1: "new_LoggerMock api s = (Inr (), s1)" using new by simp
    have "restored api s1 (snd (run_progs api ps s1))"
      using 2 s1 LoggerMock_block(1) [OF 2(2,3) s1 restored_refl] by auto
    from LoggerMock_block(2) [OF 2(2,3) s1 this] s1 show ?thesis
      by (simp add: split_beta)
  qed
next
  case (3 api ps s)
  obtain r s1 where new: "new_DisableLogs api s = (r, s1)" by fastforce
  show ?case
  proof (cases r)
    case (Inl e)
    with new refused_restored(2) [of api s e s1] show ?thesis by simp
  next
    case (Inr u)
    then have s1: "new_DisableLogs api s = (Inr (), s1)" using new by simp
    have "restored api s1 (snd (run_progs api ps s1))"
      using 3 s1 DisableLogs_block(1) [OF 3(2,3) s1 restored_refl] by auto
    from DisableLogs_block(2) [OF 3(2,3) s1 this] s1 show ?thesis
      by (simp add: split_beta)
  qed
next
  case (5 api p ps s)
  obtain r s1 where p: "run_prog api p s = (r, s1)" by fastforce
  have first: "restored api s s1" using "5.IH"(1) 5(3,4) p by simp
  then have "logger_instance s1 = logger_created s1" using 5(4) by (simp add: restored_def)
  then have "restored api s1 (snd (run_progs api ps s1))" using "5.IH"(2) 5(3) by blast
  with first p restored_trans show ?case by (cases r) auto
qed simp_all

section \<open>Properties\<close>

text \<open>C16: Scoped instances restore the logging state. However blocks that own a \<open>LoggerMock\<close> or a
  \<open>DisableLogs\<close> are nested and whatever is logged or thrown inside them, afterwards the output
  handler is the one of before, and the same instances exist as before.\<close>

theorem log_scopes_restore:
  assumes "rcutils_laws api" and "logger_instance s = logger_created s"
  shows "installed api (snd (run_progs api ps s)) = installed api s
    \<and> logger_created (snd (run_progs api ps s)) = logger_created s
    \<and> disable_created (snd (run_progs api ps s)) = disable_created s
    \<and> logger_instance (snd (run_progs api ps s)) = logger_instance s"
  using run_restored(2) [OF assms, of ps] by (simp add: restored_def)

theorem log_scopes_restore_witness:
  "installed slot_api (snd (run_progs slot_api [With_DisableLogs [With_LoggerMock [Log 10 2 ''hi'', With_LoggerMock []]]] idle_log))
     = Foreign_handler 0
   \<and> fst (run_progs slot_api [With_DisableLogs [With_LoggerMock [Log 10 2 ''hi'', With_LoggerMock []]]] idle_log)
     = Inl (Runtime_error ''Attempt to create more than one instance of rtest::LoggerMock'')"
  using log_scopes_restore [OF slot_api_laws, of idle_log
      "[With_DisableLogs [With_LoggerMock [Log 10 2 ''hi'', With_LoggerMock []]]]"]
  by (simp add: idle_log_def slot_api_def) (simp add: log_defs logHandler_def resize_ok_def string_max_size_def)

text \<open>Instances that are not destroyed in reverse order of creation leave a handler behind: a
  \<open>DisableLogs\<close> created under a \<open>LoggerMock\<close> and destroyed after it reinstalls the mock's handler,
  although no mock exists any more, and every later log message is dropped.\<close>

lemma log_handler_left_behind:
  assumes "rcutils_laws api" and "new_LoggerMock api s = (Inr (), s1)" and "new_DisableLogs api s1 = (Inr (), s2)"
    and "s3 = delete_DisableLogs api (delete_LoggerMock api s2)"
  shows "installed api s3 = Log_handler \<and> \<not> logger_instance s3 \<and> \<not> logger_created s3
    \<and> run_prog api (Log severity ret msg) s3 = (Inr (), s3)"
  using assms by (auto simp: log_defs rcutils_laws_def logHandler_def split: if_splits)

text \<open>What the handler passes on: with an instance, every message of positive length, with its
  severity and its full text; an empty message is ignored and a formatting error (a negative
  return value of \<open>vsnprintf\<close>) surfaces as a \<open>length_error\<close>. Without an instance nothing happens.
  The return value is an \<open>int\<close>, and the text has the length it reports.\<close>

lemma logHandler_behaviour:
  assumes "- 2147483648 \<le> ret" and "ret \<le> 2147483647" and "0 \<le> ret \<longrightarrow> int (length msg) = ret"
  shows "logHandler severity ret msg s =
    (if \<not> logger_instance s then (Inr (), s)
     else if ret < 0 then (Inl Length_error, s)
     else if msg = [] then (Inr (), s)
     else (Inr (), s\<lparr>log_calls := log_calls s @ [(severity, msg)]\<rparr>))"
proof (cases "ret < 0")
  case True
  let ?len = "word_of_int ret :: 64 word"
  have "uint ?len = ret + 18446744073709551616"
    using True assms(1) mod_pos_pos_trivial [of "ret + 18446744073709551616" 18446744073709551616]
    by (simp add: uint_word_of_int)
  then have "?len \<noteq> 0" "\<not> resize_ok ?len"
    using True assms(1) by (auto simp: resize_ok_def string_max_size_def word_le_def)
  with True show ?thesis by (simp add: logHandler_def Let_def)
next
  case False
  let ?len = "word_of_int ret :: 64 word"
  have small: "uint (word_of_int i :: 64 word) = i" if "0 \<le> i" "i \<le> 2147483648" for i
    using that by (simp add: uint_word_of_int)
  have len: "uint ?len = ret" using False assms(2) small by simp
  have "?len + 1 = word_of_int (ret + 1)" by simp
  then have "uint (?len + 1) = ret + 1" using False assms(2) small [of "ret + 1"] by simp
  then have ok: "resize_ok ?len" "resize_ok (?len + 1)"
    using len assms(2) by (simp_all add: resize_ok_def string_max_size_def word_le_def)
  have zero: "?len = 0 \<longleftrightarrow> msg = []"
    using len False assms(3) by (auto simp flip: uint_0_iff)
  have "unat ?len = length msg" using len False assms(3) by (simp add: unat_eq_nat_uint)
  with False ok zero show ?thesis by (simp add: logHandler_def Let_def)
qed

end
