(* ===== verification/Smart_Ptr.thy ===== *)
theory Smart_Ptr
  imports Rtest_Prelude
begin

text \<open>
  Objects and smart pointers as the C++ library defines them. An object lives at an address from
  the end of its construction to the end of its destruction. A control block owns the address of
  one object while at least one \<open>shared_ptr\<close> to it exists; \<open>weak_ptr\<close> is a reference to a control
  block (\<open>None\<close> for an empty one) and \<open>lock\<close> succeeds while the block still owns its object.
  \<open>weak_this\<close> is the reference that \<open>enable_shared_from_this\<close> keeps inside an object; it is empty
  until a \<open>shared_ptr\<close> takes ownership. Strong counts are abstracted to "some owner exists": the
  operation \<open>expire\<close> is the release of the last owner.

  A control block is freed only when no strong and no weak reference is left, so a new block is
  never one that some \<open>weak_ptr\<close> still refers to, while the address of a dead object may be used
  again at once. This difference is what the registry's node identities rest on.
\<close>

type_synonym addr = nat
type_synonym ctrl = nat
type_synonym weak_ptr = "ctrl option"

record 'o cell =
  payload :: 'o
  weak_this :: weak_ptr

record 'o mem =
  objs :: "addr \<rightharpoonup> 'o cell"
  owner :: "ctrl \<rightharpoonup> addr"

definition empty_mem :: "'o mem" where
  "empty_mem = \<lparr>objs = Map.empty, owner = Map.empty\<rparr>"

section \<open>Reading\<close>

text \<open>\<open>weak_ptr::lock\<close>: the owning control block of the shared pointer obtained, if any.\<close>

definition lock :: "'o mem \<Rightarrow> weak_ptr \<Rightarrow> ctrl option" where
  "lock m w = (case w of None \<Rightarrow> None
    | Some c \<Rightarrow> (case owner m c of None \<Rightarrow> None | Some a \<Rightarrow> Some c))"

definition expired :: "'o mem \<Rightarrow> weak_ptr \<Rightarrow> bool" where
  "expired m w \<longleftrightarrow> lock m w = None"

text \<open>\<open>w.lock().get()\<close>: the address, or a null pointer.\<close>

definition locked_ptr :: "'o mem \<Rightarrow> weak_ptr \<Rightarrow> addr option" where
  "locked_ptr m w = (case lock m w of None \<Rightarrow> None | Some c \<Rightarrow> owner m c)"

definition at_ptr :: "'o mem \<Rightarrow> addr \<Rightarrow> 'o option" where
  "at_ptr m a = map_option payload (objs m a)"

text \<open>The object a weak pointer leads to.\<close>

definition locked_obj :: "'o mem \<Rightarrow> weak_ptr \<Rightarrow> 'o option" where
  "locked_obj m w = (case locked_ptr m w of None \<Rightarrow> None | Some a \<Rightarrow> at_ptr m a)"

text \<open>\<open>shared_from_this\<close>: throws when no \<open>shared_ptr\<close> owns the object.\<close>

definition shared_from_this :: "'o mem \<Rightarrow> addr \<Rightarrow> exn + ctrl" where
  "shared_from_this m a = (case objs m a of
      None \<Rightarrow> Inl (Undefined Dangling_pointer)
    | Some x \<Rightarrow> (case lock m (weak_this x) of None \<Rightarrow> Inl Bad_weak_ptr | Some c \<Rightarrow> Inr c))"

section \<open>Changing\<close>

definition construct :: "addr \<Rightarrow> 'o \<Rightarrow> 'o mem \<Rightarrow> 'o mem" where
  "construct a x m = m\<lparr>objs := (objs m)(a \<mapsto> \<lparr>payload = x, weak_this = None\<rparr>)\<rparr>"

text \<open>A \<open>shared_ptr\<close> with control block \<open>c\<close> takes ownership of the object at \<open>a\<close>.\<close>

definition adopt :: "ctrl \<Rightarrow> addr \<Rightarrow> 'o mem \<Rightarrow> 'o mem" where
  "adopt c a m = (case objs m a of None \<Rightarrow> m
    | Some x \<Rightarrow> m\<lparr>objs := (objs m)(a \<mapsto> x\<lparr>weak_this := Some c\<rparr>), owner := (owner m)(c \<mapsto> a)\<rparr>)"

definition new_shared :: "ctrl \<Rightarrow> addr \<Rightarrow> 'o \<Rightarrow> 'o mem \<Rightarrow> 'o mem" where
  "new_shared c a x m = adopt c a (construct a x m)"

definition expire :: "ctrl \<Rightarrow> 'o mem \<Rightarrow> 'o mem" where
  "expire c m = m\<lparr>owner := (owner m)(c := None)\<rparr>"

definition destroy :: "addr \<Rightarrow> 'o mem \<Rightarrow> 'o mem" where
  "destroy a m = m\<lparr>objs := (objs m)(a := None)\<rparr>"

text \<open>Assignment to the fields of a live object.\<close>

definition modify :: "addr \<Rightarrow> ('o \<Rightarrow> 'o) \<Rightarrow> 'o mem \<Rightarrow> 'o mem" where
  "modify a f m = (case objs m a of None \<Rightarrow> m
    | Some x \<Rightarrow> m\<lparr>objs := (objs m)(a \<mapsto> x\<lparr>payload := f (payload x)\<rparr>)\<rparr>)"

section \<open>Well-formed memories\<close>

text \<open>Ownership and \<open>weak_this\<close> agree: blocks and owned objects correspond one to one.\<close>

definition mem_ok :: "'o mem \<Rightarrow> bool" where
  "mem_ok m \<longleftrightarrow>
     (\<forall>c a. owner m c = Some a \<longleftrightarrow> (\<exists>x. objs m a = Some x \<and> weak_this x = Some c))"

lemma mem_ok_empty [simp]: "mem_ok empty_mem"
  by (simp add: mem_ok_def empty_mem_def)

lemma mem_ok_owner_inj: "mem_ok m \<Longrightarrow> owner m c = Some a \<Longrightarrow> owner m d = Some a \<Longrightarrow> c = d"
  unfolding mem_ok_def by (metis option.inject)

lemma lock_Some: "lock m w = Some c \<longleftrightarrow> w = Some c \<and> (\<exists>a. owner m c = Some a)"
  by (auto simp: lock_def split: option.splits)

lemma lock_None [simp]: "lock m None = None"
  by (simp add: lock_def)

lemma locked_ptr_Some: "locked_ptr m w = Some a \<longleftrightarrow> (\<exists>c. w = Some c \<and> owner m c = Some a)"
  by (auto simp: locked_ptr_def lock_def split: option.splits)

lemma lock_locked_ptr: "lock m w = None \<longleftrightarrow> locked_ptr m w = None"
  by (auto simp: locked_ptr_def lock_def split: option.splits)

lemma mem_ok_locked_obj:
  assumes "mem_ok m" "locked_ptr m w = Some a"
  shows "\<exists>x. locked_obj m w = Some x \<and> at_ptr m a = Some x"
proof -
  obtain x where "objs m a = Some x"
    using assms by (auto simp: locked_ptr_Some mem_ok_def)
  with assms(2) show ?thesis by (simp add: locked_obj_def at_ptr_def)
qed

text \<open>The field equations of every operation.\<close>

lemma construct_fields [simp, mem_simps]:
  "objs (construct a x m) = (objs m)(a \<mapsto> \<lparr>payload = x, weak_this = None\<rparr>)"
  "owner (construct a x m) = owner m"
  by (simp_all add: construct_def)

lemma new_shared_fields [simp, mem_simps]:
  "objs (new_shared c a x m) = (objs m)(a \<mapsto> \<lparr>payload = x, weak_this = Some c\<rparr>)"
  "owner (new_shared c a x m) = (owner m)(c \<mapsto> a)"
  by (simp_all add: new_shared_def adopt_def)

lemma lock_new_shared_other [simp]: "w \<noteq> Some c \<Longrightarrow> lock (new_shared c a x m) w = lock m w"
  by (cases w) (simp_all add: lock_def)

lemma expire_fields [simp, mem_simps]:
  "objs (expire c m) = objs m"
  "owner (expire c m) = (owner m)(c := None)"
  by (simp_all add: expire_def)

lemma destroy_fields [simp, mem_simps]:
  "objs (destroy a m) = (objs m)(a := None)"
  "owner (destroy a m) = owner m"
  by (simp_all add: destroy_def)

lemma modify_owner [simp, mem_simps]: "owner (modify a f m) = owner m"
  by (simp add: modify_def split: option.split)

lemma modify_objs:
  "objs (modify a f m) b =
     (if b = a then map_option (\<lambda>x. x\<lparr>payload := f (payload x)\<rparr>) (objs m a) else objs m b)"
  by (simp add: modify_def split: option.split)

lemma modify_lock [simp, mem_simps]: "lock (modify a f m) w = lock m w"
  by (cases w) (simp_all add: lock_def)

lemma modify_locked_ptr [simp, mem_simps]: "locked_ptr (modify a f m) w = locked_ptr m w"
  by (simp add: locked_ptr_def split: option.split)

lemma modify_at_ptr:
  "at_ptr (modify a f m) b = (if b = a then map_option f (at_ptr m a) else at_ptr m b)"
  by (simp add: at_ptr_def modify_objs option.map_comp comp_def)

section \<open>Preservation\<close>

lemma mem_ok_construct:
  "mem_ok m \<Longrightarrow> objs m a = None \<Longrightarrow> mem_ok (construct a x m)"
  unfolding mem_ok_def by (auto split: if_splits)

lemma mem_ok_new_shared:
  "mem_ok m \<Longrightarrow> objs m a = None \<Longrightarrow> owner m c = None \<Longrightarrow> mem_ok (new_shared c a x m)"
  unfolding mem_ok_def by (auto split: if_splits) (metis option.distinct(1))+

lemma mem_ok_adopt:
  assumes "mem_ok m" "objs m a = Some x" "weak_this x = None" "owner m c = None"
  shows "mem_ok (adopt c a m)"
  using assms unfolding mem_ok_def adopt_def by (auto split: if_splits) (metis option.distinct(1))+

lemma mem_ok_release:
  assumes ok: "mem_ok m" and own: "owner m c = Some a"
  shows "mem_ok (destroy a (expire c m))"
  unfolding mem_ok_def
proof (intro allI)
  fix d b
  have iff: "owner m d = Some b \<longleftrightarrow> (\<exists>x. objs m b = Some x \<and> weak_this x = Some d)"
    using ok by (simp add: mem_ok_def)
  show "owner (destroy a (expire c m)) d = Some b \<longleftrightarrow>
      (\<exists>x. objs (destroy a (expire c m)) b = Some x \<and> weak_this x = Some d)"
  proof (cases "b = a")
    case True
    have "owner m d = Some a \<Longrightarrow> d = c"
      using mem_ok_owner_inj [OF ok own] by blast
    with True show ?thesis by auto
  next
    case False
    with own iff show ?thesis by (cases "d = c") auto
  qed
qed

lemma mem_ok_modify: "mem_ok m \<Longrightarrow> mem_ok (modify a f m)"
  unfolding mem_ok_def modify_objs modify_owner by auto

end
