(* ===== verification/Std_Map.thy ===== *)
theory Std_Map
  imports Rtest_Prelude
begin

text \<open>
  The part of \<open>std::map\<close> the registry uses: an association list in strictly increasing key order,
  with \<open>find\<close>, insertion or assignment, \<open>operator[]\<close> (which inserts a default value for an absent
  key) and \<open>erase\<close>. Iteration is the list itself, hence in key order. The locale states what a
  client may rely on; the interpretation proves it of the list operations.
\<close>

type_synonym ('k, 'v) omap = "('k \<times> 'v) list"

definition omap_find :: "('k::linorder, 'v) omap \<Rightarrow> 'k \<Rightarrow> 'v option" where
  "omap_find m k = map_of m k"

fun omap_set :: "'k::linorder \<Rightarrow> 'v \<Rightarrow> ('k, 'v) omap \<Rightarrow> ('k, 'v) omap" where
  "omap_set k v [] = [(k, v)]"
| "omap_set k v (e # m) =
     (if fst e < k then e # omap_set k v m
      else if fst e = k then (k, v) # m
      else (k, v) # e # m)"

definition omap_erase :: "'k::linorder \<Rightarrow> ('k, 'v) omap \<Rightarrow> ('k, 'v) omap" where
  "omap_erase k m = filter (\<lambda>e. fst e \<noteq> k) m"

text \<open>\<open>m[k]\<close> as an rvalue: the value found, and the map after the lookup.\<close>

definition omap_at :: "'v \<Rightarrow> 'k::linorder \<Rightarrow> ('k, 'v) omap \<Rightarrow> 'v \<times> ('k, 'v) omap" where
  "omap_at d k m = (case omap_find m k of Some v \<Rightarrow> (v, m) | None \<Rightarrow> (d, omap_set k d m))"

definition omap_ok :: "('k::linorder, 'v) omap \<Rightarrow> bool" where
  "omap_ok m \<longleftrightarrow> sorted_wrt (<) (map fst m)"

section \<open>The map interface\<close>

locale std_map =
  fixes empty :: "'m"
    and find :: "'m \<Rightarrow> 'k \<Rightarrow> 'v option"
    and assign :: "'k \<Rightarrow> 'v \<Rightarrow> 'm \<Rightarrow> 'm"
    and erase :: "'k \<Rightarrow> 'm \<Rightarrow> 'm"
    and entries :: "'m \<Rightarrow> ('k \<times> 'v) list"
    and ok :: "'m \<Rightarrow> bool"
  assumes find_empty: "find empty k = None"
    and find_assign: "find (assign k v m) k' = (if k' = k then Some v else find m k')"
    and find_erase: "find (erase k m) k' = (if k' = k then None else find m k')"
    and ok_empty: "ok empty"
    and ok_assign: "ok m \<Longrightarrow> ok (assign k v m)"
    and ok_erase: "ok m \<Longrightarrow> ok (erase k m)"
    and entries_find: "ok m \<Longrightarrow> (k, v) \<in> set (entries m) \<longleftrightarrow> find m k = Some v"
    and entries_distinct: "ok m \<Longrightarrow> distinct (map fst (entries m))"
begin

lemma find_assign_same: "find (assign k v m) k = Some v"
  by (simp add: find_assign)

lemma find_assign_other: "k' \<noteq> k \<Longrightarrow> find (assign k v m) k' = find m k'"
  by (simp add: find_assign)

lemma assign_assign_find: "find (assign k v (assign k u m)) k' = find (assign k v m) k'"
  by (simp add: find_assign)

lemma entries_assign:
  assumes "ok m"
  shows "set (entries (assign k v m)) = insert (k, v) {e \<in> set (entries m). fst e \<noteq> k}"
  using assms by (auto simp: entries_find ok_assign find_assign split: if_splits)

end

section \<open>The association list is such a map\<close>

lemma set_omap_set_keys: "fst ` set (omap_set k v m) = insert k (fst ` set m)"
  by (induction m) auto

lemma omap_ok_Cons: "omap_ok (e # m) \<longleftrightarrow> (\<forall>x \<in> fst ` set m. fst e < x) \<and> omap_ok m"
  by (simp add: omap_ok_def)

lemma omap_ok_set: "omap_ok m \<Longrightarrow> omap_ok (omap_set k v m)"
proof (induction m)
  case Nil
  then show ?case by (simp add: omap_ok_def)
next
  case (Cons e m)
  then show ?case
    by (cases "fst e < k"; cases "fst e = k")
       (auto simp: omap_ok_Cons set_omap_set_keys)
qed

lemma omap_find_set: "omap_find (omap_set k v m) k' = (if k' = k then Some v else omap_find m k')"
  by (induction m) (auto simp: omap_find_def)

lemma omap_find_erase: "omap_find (omap_erase k m) k' = (if k' = k then None else omap_find m k')"
  by (induction m) (auto simp: omap_find_def omap_erase_def)

lemma omap_ok_erase: "omap_ok m \<Longrightarrow> omap_ok (omap_erase k m)"
  by (induction m) (auto simp: omap_erase_def omap_ok_Cons)

lemma omap_ok_distinct: "omap_ok m \<Longrightarrow> distinct (map fst m)"
  by (induction m) (auto simp: omap_ok_Cons)

interpretation om: std_map "[]" omap_find omap_set omap_erase "\<lambda>m. m" omap_ok
proof unfold_locales
  show "omap_find [] k = None" for k by (simp add: omap_find_def)
  show "(k, v) \<in> set m \<longleftrightarrow> omap_find m k = Some v" if "omap_ok m" for k v m
    using omap_ok_distinct [OF that] by (simp add: omap_find_def)
qed (simp_all add: omap_find_set omap_find_erase omap_ok_set omap_ok_erase omap_ok_distinct,
     simp add: omap_ok_def)

lemmas omap_find_laws [simp, find_laws] = om.find_empty om.find_assign om.find_erase

subsection \<open>\<open>operator[]\<close>\<close>

lemma omap_at_fst: "fst (omap_at d k m) = (case omap_find m k of Some v \<Rightarrow> v | None \<Rightarrow> d)"
  by (simp add: omap_at_def split: option.split)

lemma omap_at_find:
  "omap_find (snd (omap_at d k m)) k' =
     (if k' = k then Some (case omap_find m k of Some v \<Rightarrow> v | None \<Rightarrow> d) else omap_find m k')"
  by (simp add: omap_at_def split: option.split)

lemma omap_at_ok: "omap_ok m \<Longrightarrow> omap_ok (snd (omap_at d k m))"
  by (simp add: omap_at_def om.ok_assign split: option.split)

lemma omap_at_present: "omap_find m k = Some v \<Longrightarrow> omap_at d k m = (v, m)"
  by (simp add: omap_at_def)

end
