(* ===== verification/Mock_Objects.thy ===== *)
theory Mock_Objects
  imports Smart_Ptr Std_Map
begin

text \<open>
  The classes whose instances live behind smart pointers, as records with the members the code
  reads or writes, and the one datatype of objects that the memory holds. A template argument
  (\<open>MessageT\<close>, \<open>ServiceT\<close>, \<open>ActionT\<close>) is the name of the type; a message, request, response, goal
  or result is a value of the type parameter \<open>'m\<close>. A \<open>std::function\<close> is the identity of the
  callable, or \<open>None\<close> when empty; what it does when called is a parameter of the operations that
  call it. The methods GoogleMock generates record their calls in the mock object; the value an
  expectation makes them return is a parameter of the operations that call them.
\<close>

type_synonym tyname = string
type_synonym callback = "nat option"
type_synonym size_t = "64 word"
type_synonym goal_uuid = "8 word list"

section \<open>Entities of the node under test\<close>

record publisher =
  publisher_type :: tyname
  publisher_topic :: string
  publisher_node :: weak_ptr

record subscription =
  subscription_type :: tyname
  subscription_topic :: string
  subscription_node :: weak_ptr
  any_callback :: callback
  subscription_topic_statistics :: bool

record timer =
  timer_period :: int
  timer_callback :: callback
  timer_node :: weak_ptr

record service =
  service_type :: tyname
  service_name :: string
  service_node_id :: weak_ptr
  any_service_callback :: callback

record service_client =
  client_type :: tyname
  client_service_name :: string
  client_node_id :: weak_ptr

record action_server =
  server_type :: tyname
  server_action_name :: string
  server_node :: weak_ptr
  handle_goal :: callback
  handle_cancel :: callback
  handle_accepted :: callback

record action_client =
  aclient_type :: tyname
  aclient_action_name :: string
  aclient_node :: weak_ptr
  goal_handles :: "(goal_uuid, weak_ptr) omap"

section \<open>Goal handles\<close>

datatype result_code = UNKNOWN | SUCCEEDED | CANCELED | ABORTED

record 'm wrapped_result =
  code :: result_code
  result :: "'m option"
  result_goal_id :: goal_uuid

record 'm client_goal_handle =
  feedback_callback :: callback
  result_callback :: callback
  goal_id :: goal_uuid
  time_stamp :: int
  status :: int
  result_aware :: bool
  result_promise :: "'m wrapped_result option"

section \<open>Mocks\<close>

record rmw_request_id =
  writer_guid :: "8 word list"
  sequence_number :: int

record 'm publisher_mock =
  pm_type :: tyname
  pub :: addr
  subscriptions_count :: size_t
  publish_calls :: "'m list"

record 'm service_mock =
  sm_type :: tyname
  sm_service :: addr
  send_response_calls :: "(rmw_request_id \<times> 'm) list"

datatype 'm client_call =
    Async_send_request 'm
  | Async_send_request_with_callback 'm callback
  | Async_send_request_with_callback_and_request 'm callback
  | Remove_pending_request int
  | Prune_pending_requests
  | Prune_requests_older_than int
  | Service_is_ready
  | Wait_for_service int

record 'm service_client_mock =
  cm_type :: tyname
  cm_client :: addr
  client_calls :: "'m client_call list"

record send_goal_options =
  goal_response_cb :: callback
  feedback_cb :: callback
  result_cb :: callback

datatype 'm action_call =
    Async_send_goal 'm send_goal_options
  | Async_get_result weak_ptr callback
  | Async_cancel_goal weak_ptr callback
  | Async_cancel_all_goals callback
  | Async_cancel_goals_before int callback
  | Action_server_is_ready
  | Stop_callbacks weak_ptr
  | Stop_callbacks_id goal_uuid
  | Wait_for_action_server int

record 'm action_client_mock =
  am_type :: tyname
  am_client :: addr
  action_calls :: "'m action_call list"

record action_server_mock =
  vm_type :: tyname
  vm_server :: addr
  goal_callback :: callback
  cancel_callback :: callback
  accepted_callback :: callback

section \<open>The objects of the memory\<close>

text \<open>\<open>Node_obj\<close> is the \<open>rcl_node_t\<close> with its fully qualified name (\<open>None\<close>: a null name).\<close>

datatype 'm obj =
    Node_obj "string option"
  | Publisher_obj publisher
  | Subscription_obj subscription
  | Timer_obj timer
  | Service_obj service
  | Client_obj service_client
  | Action_server_obj action_server
  | Action_client_obj action_client
  | Goal_handle_obj "'m client_goal_handle"
  | Publisher_mock_obj "'m publisher_mock"
  | Service_mock_obj "'m service_mock"
  | Service_client_mock_obj "'m service_client_mock"
  | Action_client_mock_obj "'m action_client_mock"
  | Action_server_mock_obj action_server_mock

text \<open>The raw pointer a mock keeps to the entity it was made for.\<close>

fun mock_target :: "'m obj \<Rightarrow> addr option" where
  "mock_target (Publisher_mock_obj k) = Some (pub k)"
| "mock_target (Service_mock_obj k) = Some (sm_service k)"
| "mock_target (Service_client_mock_obj k) = Some (cm_client k)"
| "mock_target (Action_client_mock_obj k) = Some (am_client k)"
| "mock_target (Action_server_mock_obj k) = Some (vm_server k)"
| "mock_target _ = None"

text \<open>The mock class that the entity's methods cast their attached mock to.\<close>

definition mock_matches :: "'m obj \<Rightarrow> 'm obj \<Rightarrow> bool" where
  "mock_matches k e = (case k of
      Publisher_mock_obj m \<Rightarrow> (case e of Publisher_obj p \<Rightarrow> pm_type m = publisher_type p | _ \<Rightarrow> False)
    | Service_mock_obj m \<Rightarrow> (case e of Service_obj s \<Rightarrow> sm_type m = service_type s | _ \<Rightarrow> False)
    | Service_client_mock_obj m \<Rightarrow> (case e of Client_obj c \<Rightarrow> cm_type m = client_type c | _ \<Rightarrow> False)
    | Action_client_mock_obj m \<Rightarrow>
        (case e of Action_client_obj c \<Rightarrow> am_type m = aclient_type c | _ \<Rightarrow> False)
    | Action_server_mock_obj m \<Rightarrow>
        (case e of Action_server_obj s \<Rightarrow> vm_type m = server_type s | _ \<Rightarrow> False)
    | _ \<Rightarrow> False)"

end
