(* ===== verification/Static_Registry.thy ===== *)
theory Static_Registry
  imports Mock_Objects
begin

text \<open>
  \<open>StaticMocksRegistry\<close> (static_registry.hpp): the process-wide table through which a test finds
  the entities that a node created. One map per kind of entity from node identity to a map from
  name to a weak reference, one vector of timers per node, the table of attached mocks keyed by
  the raw address of the entity, and the two vectors of pending (lazy) registrations of action
  clients and servers. The state of a run is the record \<open>world\<close>: the memory, the registry and the
  two output streams, of which the streamed arguments are kept and not the rendered text.

  The mutex \<open>lazy_init_mutex_\<close> is not part of this state: with one thread every operation that takes
  it releases it before returning, and the callbacks run under it (\<open>post_init_setup\<close>) take no lock.
  \<open>Lazy_Threads\<close> adds it for several threads.
\<close>

section \<open>State\<close>

text \<open>The closures handed to the lazy registration: both capture \<open>this\<close> and call \<open>post_init_setup\<close>.\<close>

datatype closure = Post_init_setup addr

record lazy_init_entry =
  raw_ptr :: addr
  node_name :: string
  action_name :: string
  init_callback :: closure

type_synonym entity_map = "(string, weak_ptr) omap"
type_synonym node_registry = "(weak_ptr, entity_map) omap"

record static_mocks_registry =
  publishersRegistry :: node_registry
  subscriptionsRegistry :: node_registry
  timersRegistry :: "(weak_ptr, weak_ptr list) omap"
  servicesRegistry :: node_registry
  serviceClientsRegistry :: node_registry
  actionServersRegistry :: node_registry
  actionClientsRegistry :: node_registry
  mockRegistry :: "(addr, weak_ptr) omap"
  lazy_init_action_clients :: "lazy_init_entry list"
  lazy_init_action_servers :: "lazy_init_entry list"
  verbose :: bool

text \<open>A verbose trace on \<open>std::cout\<close>: the operation, the type, the node pointer and the name.\<close>

datatype trace =
    Trace string tyname "addr option" string
  | Trace_lazy string string string

text \<open>Diagnostics on \<open>std::cerr\<close>.\<close>

datatype diag =
    Dump_begin "string option"
  | Dump_entry string string string bool
  | Dump_end
  | Warn_attached string
  | Not_found string string string

record 'm world =
  memory :: "'m obj mem"
  registry :: static_mocks_registry
  cout :: "trace list"
  cerr :: "diag list"

definition empty_registry :: static_mocks_registry where
  "empty_registry = \<lparr>publishersRegistry = [], subscriptionsRegistry = [], timersRegistry = [],
     servicesRegistry = [], serviceClientsRegistry = [], actionServersRegistry = [],
     actionClientsRegistry = [], mockRegistry = [], lazy_init_action_clients = [],
     lazy_init_action_servers = [], verbose = False\<rparr>"

definition init_world :: "'m world" where
  "init_world = \<lparr>memory = empty_mem, registry = empty_registry, cout = [], cerr = []\<rparr>"

definition upd_reg :: "(static_mocks_registry \<Rightarrow> static_mocks_registry) \<Rightarrow> 'm world \<Rightarrow> 'm world" where
  "upd_reg f w = w\<lparr>registry := f (registry w)\<rparr>"

definition print_cout :: "trace \<Rightarrow> 'm world \<Rightarrow> 'm world" where
  "print_cout t w = (if verbose (registry w) then w\<lparr>cout := cout w @ [t]\<rparr> else w)"

definition print_cerr :: "diag list \<Rightarrow> 'm world \<Rightarrow> 'm world" where
  "print_cerr ds w = w\<lparr>cerr := cerr w @ ds\<rparr>"

section \<open>The generic lookup and registration\<close>

text \<open>\<open>if (!reg[topicName].lock()) reg[topicName] = e;\<close>\<close>

definition registerEntity :: "'o mem \<Rightarrow> entity_map \<Rightarrow> string \<Rightarrow> weak_ptr \<Rightarrow> entity_map" where
  "registerEntity m reg topicName e =
     (let (cur, reg1) = omap_at None topicName reg
      in if lock m cur = None then omap_set topicName e reg1 else reg1)"

text \<open>An absent key gives a default-constructed value.\<close>

definition findEntity :: "('k::linorder, 'v) omap \<Rightarrow> 'k \<Rightarrow> 'v \<Rightarrow> 'v" where
  "findEntity reg k d = (case omap_find reg k of Some v \<Rightarrow> v | None \<Rightarrow> d)"

text \<open>
  The three uses of \<open>registry_[node]\<close>: as the target of a registration, as the map searched, and
  as the map iterated. Each creates an empty entry for an unknown node.
\<close>

definition register_at :: "'o mem \<Rightarrow> weak_ptr \<Rightarrow> string \<Rightarrow> weak_ptr \<Rightarrow> node_registry \<Rightarrow> node_registry" where
  "register_at m node name e nr =
     (let (entries, nr1) = omap_at [] node nr
      in omap_set node (registerEntity m entries name e) nr1)"

definition get_at :: "weak_ptr \<Rightarrow> string \<Rightarrow> node_registry \<Rightarrow> weak_ptr \<times> node_registry" where
  "get_at node name nr =
     (let (entries, nr1) = omap_at [] node nr in (findEntity entries name None, nr1))"

definition list_at :: "weak_ptr \<Rightarrow> node_registry \<Rightarrow> weak_ptr list \<times> node_registry" where
  "list_at node nr = (let (entries, nr1) = omap_at [] node nr in (map snd entries, nr1))"

section \<open>Publishers\<close>

definition registerPublisher ::
  "tyname \<Rightarrow> weak_ptr \<Rightarrow> string \<Rightarrow> weak_ptr \<Rightarrow> 'm world \<Rightarrow> 'm world" where
  "registerPublisher MessageT node topicName p w =
     upd_reg (\<lambda>r. r\<lparr>publishersRegistry :=
         register_at (memory w) node topicName p (publishersRegistry r)\<rparr>)
       (print_cout (Trace ''registerPublisher'' MessageT (locked_ptr (memory w) node) topicName) w)"

definition getNodePublishers :: "weak_ptr \<Rightarrow> 'm world \<Rightarrow> weak_ptr list \<times> 'm world" where
  "getNodePublishers node w =
     (let (ps, nr) = list_at node (publishersRegistry (registry w))
      in (ps, upd_reg (\<lambda>r. r\<lparr>publishersRegistry := nr\<rparr>) w))"

definition getPublisher :: "weak_ptr \<Rightarrow> string \<Rightarrow> 'm world \<Rightarrow> weak_ptr \<times> 'm world" where
  "getPublisher node topicName w =
     (let (p, nr) = get_at node topicName (publishersRegistry (registry w))
      in (p, upd_reg (\<lambda>r. r\<lparr>publishersRegistry := nr\<rparr>) w))"

section \<open>Subscriptions\<close>

definition registerSubscription ::
  "tyname \<Rightarrow> weak_ptr \<Rightarrow> string \<Rightarrow> weak_ptr \<Rightarrow> 'm world \<Rightarrow> 'm world" where
  "registerSubscription MessageT node topicName s w =
     upd_reg (\<lambda>r. r\<lparr>subscriptionsRegistry :=
         register_at (memory w) node topicName s (subscriptionsRegistry r)\<rparr>)
       (print_cout (Trace ''registerSubscription'' MessageT (locked_ptr (memory w) node) topicName) w)"

definition getNodeSubscriptions :: "weak_ptr \<Rightarrow> 'm world \<Rightarrow> weak_ptr list \<times> 'm world" where
  "getNodeSubscriptions node w =
     (let (ss, nr) = list_at node (subscriptionsRegistry (registry w))
      in (ss, upd_reg (\<lambda>r. r\<lparr>subscriptionsRegistry := nr\<rparr>) w))"

definition getSubscription :: "weak_ptr \<Rightarrow> string \<Rightarrow> 'm world \<Rightarrow> weak_ptr \<times> 'm world" where
  "getSubscription node topicName w =
     (let (s, nr) = get_at node topicName (subscriptionsRegistry (registry w))
      in (s, upd_reg (\<lambda>r. r\<lparr>subscriptionsRegistry := nr\<rparr>) w))"

section \<open>Timers\<close>

definition registerTimer :: "weak_ptr \<Rightarrow> weak_ptr \<Rightarrow> 'm world \<Rightarrow> bool \<times> 'm world" where
  "registerTimer node timer w =
     (let (ts, nr) = omap_at [] node (timersRegistry (registry w))
      in (True, upd_reg (\<lambda>r. r\<lparr>timersRegistry := omap_set node (ts @ [timer]) nr\<rparr>) w))"

definition getTimers :: "weak_ptr \<Rightarrow> 'm world \<Rightarrow> weak_ptr list" where
  "getTimers node w = findEntity (timersRegistry (registry w)) node []"

definition enableVerboseLogs :: "bool \<Rightarrow> 'm world \<Rightarrow> 'm world" where
  "enableVerboseLogs b w = upd_reg (\<lambda>r. r\<lparr>verbose := b\<rparr>) w"

section \<open>Attached mocks\<close>

definition getMock :: "addr \<Rightarrow> 'm world \<Rightarrow> weak_ptr" where
  "getMock ptr w = (case omap_find (mockRegistry (registry w)) ptr of Some k \<Rightarrow> k | None \<Rightarrow> None)"

definition attachMock :: "addr \<Rightarrow> weak_ptr \<Rightarrow> 'm world \<Rightarrow> 'm world" where
  "attachMock ptr mock w = upd_reg (\<lambda>r. r\<lparr>mockRegistry := omap_set ptr mock (mockRegistry r)\<rparr>) w"

definition detachMock :: "addr \<Rightarrow> 'm world \<Rightarrow> 'm world" where
  "detachMock ptr w =
     (case omap_find (mockRegistry (registry w)) ptr of
        Some k \<Rightarrow> upd_reg (\<lambda>r. r\<lparr>mockRegistry := omap_erase ptr (mockRegistry r)\<rparr>) w
      | None \<Rightarrow> w)"

section \<open>Services and service clients\<close>

text \<open>
  The name under which a service or a client is registered: one leading slash is skipped, and the
  conversion of the C string back to \<open>std::string\<close> stops at the first NUL.
\<close>

definition service_key :: "string \<Rightarrow> string" where
  "service_key serviceName =
     takeWhile (\<lambda>ch. ch \<noteq> CHR 0x00)
       (if serviceName \<noteq> [] \<and> hd serviceName = CHR ''/'' then tl serviceName else serviceName)"

definition registerService ::
  "tyname \<Rightarrow> weak_ptr \<Rightarrow> string \<Rightarrow> weak_ptr \<Rightarrow> 'm world \<Rightarrow> 'm world" where
  "registerService ServiceT node serviceName s w =
     upd_reg (\<lambda>r. r\<lparr>servicesRegistry :=
         register_at (memory w) node (service_key serviceName) s (servicesRegistry r)\<rparr>)
       (print_cout (Trace ''registerService'' ServiceT (locked_ptr (memory w) node) serviceName) w)"

definition getNodeServices :: "weak_ptr \<Rightarrow> 'm world \<Rightarrow> weak_ptr list \<times> 'm world" where
  "getNodeServices node w =
     (let (ss, nr) = list_at node (servicesRegistry (registry w))
      in (ss, upd_reg (\<lambda>r. r\<lparr>servicesRegistry := nr\<rparr>) w))"

definition getService :: "weak_ptr \<Rightarrow> string \<Rightarrow> 'm world \<Rightarrow> weak_ptr \<times> 'm world" where
  "getService node serviceName w =
     (let (s, nr) = get_at node serviceName (servicesRegistry (registry w))
      in (s, upd_reg (\<lambda>r. r\<lparr>servicesRegistry := nr\<rparr>) w))"

definition registerServiceClient ::
  "tyname \<Rightarrow> weak_ptr \<Rightarrow> string \<Rightarrow> weak_ptr \<Rightarrow> 'm world \<Rightarrow> 'm world" where
  "registerServiceClient ServiceT node serviceName c w =
     upd_reg (\<lambda>r. r\<lparr>serviceClientsRegistry :=
         register_at (memory w) node (service_key serviceName) c (serviceClientsRegistry r)\<rparr>)
       (print_cout (Trace ''registerServiceClient'' ServiceT (locked_ptr (memory w) node) serviceName) w)"

definition getNodeServiceClients :: "weak_ptr \<Rightarrow> 'm world \<Rightarrow> weak_ptr list \<times> 'm world" where
  "getNodeServiceClients node w =
     (let (cs, nr) = list_at node (serviceClientsRegistry (registry w))
      in (cs, upd_reg (\<lambda>r. r\<lparr>serviceClientsRegistry := nr\<rparr>) w))"

definition getServiceClient :: "weak_ptr \<Rightarrow> string \<Rightarrow> 'm world \<Rightarrow> weak_ptr \<times> 'm world" where
  "getServiceClient node serviceName w =
     (let (c, nr) = get_at node serviceName (serviceClientsRegistry (registry w))
      in (c, upd_reg (\<lambda>r. r\<lparr>serviceClientsRegistry := nr\<rparr>) w))"

section \<open>Action servers and clients\<close>

definition registerActionServer ::
  "tyname \<Rightarrow> weak_ptr \<Rightarrow> string \<Rightarrow> weak_ptr \<Rightarrow> 'm world \<Rightarrow> 'm world" where
  "registerActionServer ActionT node actionName s w =
     upd_reg (\<lambda>r. r\<lparr>actionServersRegistry :=
         register_at (memory w) node actionName s (actionServersRegistry r)\<rparr>)
       (print_cout (Trace ''registerActionServer'' ActionT (locked_ptr (memory w) node) actionName) w)"

definition registerActionClient ::
  "tyname \<Rightarrow> weak_ptr \<Rightarrow> string \<Rightarrow> weak_ptr \<Rightarrow> 'm world \<Rightarrow> 'm world" where
  "registerActionClient ActionT node actionName c w =
     upd_reg (\<lambda>r. r\<lparr>actionClientsRegistry :=
         register_at (memory w) node actionName c (actionClientsRegistry r)\<rparr>)
       (print_cout (Trace ''registerActionClient'' ActionT (locked_ptr (memory w) node) actionName) w)"

text \<open>
  The loop of \<open>tryLazyInit\<close>: an entry whose callback returns is erased, one whose callback throws
  a \<open>std::exception\<close> is kept; any other exception leaves the loop with the vector as it then is.
  \<open>run\<close> calls the closure.
\<close>

fun tryLazyInit ::
  "(closure \<Rightarrow> 'w \<Rightarrow> ('w, unit) res) \<Rightarrow> lazy_init_entry list \<Rightarrow> 'w
     \<Rightarrow> (exn + unit) \<times> lazy_init_entry list \<times> 'w" where
  "tryLazyInit run [] w = (Inr (), [], w)"
| "tryLazyInit run (e # es) w =
     (case run (init_callback e) w of
        (Inr _, w1) \<Rightarrow> tryLazyInit run es w1
      | (Inl x, w1) \<Rightarrow>
          if is_std_exception x
          then (case tryLazyInit run es w1 of (r, kept, w2) \<Rightarrow> (r, e # kept, w2))
          else (Inl x, e # es, w1))"

definition lookupActionServer :: "weak_ptr \<Rightarrow> string \<Rightarrow> 'm world \<Rightarrow> weak_ptr \<times> 'm world" where
  "lookupActionServer node actionName w =
     (let (s, nr) = get_at node actionName (actionServersRegistry (registry w))
      in (s, upd_reg (\<lambda>r. r\<lparr>actionServersRegistry := nr\<rparr>) w))"

definition getActionServer ::
  "(closure \<Rightarrow> 'm world \<Rightarrow> ('m world, unit) res) \<Rightarrow> weak_ptr \<Rightarrow> string \<Rightarrow> 'm world
     \<Rightarrow> ('m world, weak_ptr) res" where
  "getActionServer run node actionName w =
     (case tryLazyInit run (lazy_init_action_servers (registry w)) w of
        (r, kept, w1) \<Rightarrow>
          andthen (r, upd_reg (\<lambda>r. r\<lparr>lazy_init_action_servers := kept\<rparr>) w1)
            (\<lambda>_ w2. let (s, w3) = lookupActionServer node actionName w2 in (Inr s, w3)))"

definition lookupActionClient :: "weak_ptr \<Rightarrow> string \<Rightarrow> 'm world \<Rightarrow> weak_ptr \<times> 'm world" where
  "lookupActionClient node actionName w =
     (let (c, nr) = get_at node actionName (actionClientsRegistry (registry w))
      in (c, upd_reg (\<lambda>r. r\<lparr>actionClientsRegistry := nr\<rparr>) w))"

definition getActionClient ::
  "(closure \<Rightarrow> 'm world \<Rightarrow> ('m world, unit) res) \<Rightarrow> weak_ptr \<Rightarrow> string \<Rightarrow> 'm world
     \<Rightarrow> ('m world, weak_ptr) res" where
  "getActionClient run node actionName w =
     (case tryLazyInit run (lazy_init_action_clients (registry w)) w of
        (r, kept, w1) \<Rightarrow>
          andthen (r, upd_reg (\<lambda>r. r\<lparr>lazy_init_action_clients := kept\<rparr>) w1)
            (\<lambda>_ w2. let (c, w3) = lookupActionClient node actionName w2 in (Inr c, w3)))"

definition registerLazyInitClient ::
  "addr \<Rightarrow> string \<Rightarrow> string \<Rightarrow> closure \<Rightarrow> 'm world \<Rightarrow> 'm world" where
  "registerLazyInitClient raw nodeName actionName cb w =
     print_cout (Trace_lazy ''registerLazyInitClient'' nodeName actionName)
       (upd_reg (\<lambda>r. r\<lparr>lazy_init_action_clients := lazy_init_action_clients r @
          [\<lparr>raw_ptr = raw, node_name = nodeName, action_name = actionName, init_callback = cb\<rparr>]\<rparr>) w)"

definition removeLazyInitClient :: "addr \<Rightarrow> 'm world \<Rightarrow> 'm world" where
  "removeLazyInitClient raw w =
     upd_reg (\<lambda>r. r\<lparr>lazy_init_action_clients :=
       filter (\<lambda>e. \<not> raw_ptr e = raw) (lazy_init_action_clients r)\<rparr>) w"

definition registerLazyInitServer ::
  "addr \<Rightarrow> string \<Rightarrow> string \<Rightarrow> closure \<Rightarrow> 'm world \<Rightarrow> 'm world" where
  "registerLazyInitServer raw nodeName actionName cb w =
     print_cout (Trace_lazy ''registerLazyInitServer'' nodeName actionName)
       (upd_reg (\<lambda>r. r\<lparr>lazy_init_action_servers := lazy_init_action_servers r @
          [\<lparr>raw_ptr = raw, node_name = nodeName, action_name = actionName, init_callback = cb\<rparr>]\<rparr>) w)"

definition removeLazyInitServer :: "addr \<Rightarrow> 'm world \<Rightarrow> 'm world" where
  "removeLazyInitServer raw w =
     upd_reg (\<lambda>r. r\<lparr>lazy_init_action_servers :=
       filter (\<lambda>e. \<not> raw_ptr e = raw) (lazy_init_action_servers r)\<rparr>) w"

section \<open>Reset and dump\<close>

definition reset :: "'m world \<Rightarrow> 'm world" where
  "reset w = upd_reg (\<lambda>r. r\<lparr>publishersRegistry := [], subscriptionsRegistry := [],
     timersRegistry := [], servicesRegistry := [], serviceClientsRegistry := [],
     actionServersRegistry := [], actionClientsRegistry := [], mockRegistry := [],
     lazy_init_action_clients := [], lazy_init_action_servers := []\<rparr>) w"

text \<open>\<open>MockRegistryCleaner::OnTestSuiteEnd\<close>\<close>

definition OnTestSuiteEnd :: "'m world \<Rightarrow> 'm world" where
  "OnTestSuiteEnd w = reset w"

definition nodeName :: "'m obj mem \<Rightarrow> weak_ptr \<Rightarrow> string" where
  "nodeName m i = (case locked_obj m i of
      Some (Node_obj (Some name)) \<Rightarrow> name
    | _ \<Rightarrow> ''<expired node>'')"

text \<open>\<open>a.owner_before(b) || b.owner_before(a)\<close> on control blocks.\<close>

definition owner_differs :: "weak_ptr \<Rightarrow> weak_ptr \<Rightarrow> bool" where
  "owner_differs a b \<longleftrightarrow> a < b \<or> b < a"

definition dumpMap :: "'m obj mem \<Rightarrow> ctrl option \<Rightarrow> node_registry \<Rightarrow> string \<Rightarrow> diag list" where
  "dumpMap m node reg entityType =
     concat (map (\<lambda>(i, entityMap).
       if node \<noteq> None \<and> owner_differs i node then []
       else map (\<lambda>(name, weakPtr).
              Dump_entry entityType (nodeName m i) name (lock m weakPtr \<noteq> None)) entityMap) reg)"

definition dumpRegistry :: "ctrl option \<Rightarrow> 'm world \<Rightarrow> 'm world" where
  "dumpRegistry node w =
     (let m = memory w; r = registry w
      in print_cerr
        ([Dump_begin (map_option (\<lambda>c. nodeName m (Some c)) node)]
         @ dumpMap m node (publishersRegistry r) ''Publisher''
         @ dumpMap m node (subscriptionsRegistry r) ''Subscription''
         @ dumpMap m node (servicesRegistry r) ''Service''
         @ dumpMap m node (serviceClientsRegistry r) ''ServiceClient''
         @ dumpMap m node (actionServersRegistry r) ''ActionServer''
         @ dumpMap m node (actionClientsRegistry r) ''ActionClient''
         @ [Dump_end]) w)"

text \<open>The reference a lookup returns, as a function of the table alone.\<close>

definition entity_at :: "node_registry \<Rightarrow> weak_ptr \<Rightarrow> string \<Rightarrow> weak_ptr" where
  "entity_at nr node name = findEntity (findEntity nr node []) name None"

section \<open>Laws of the generic operations\<close>

lemma upd_reg_fields [simp, reg_simps]:
  "memory (upd_reg f w) = memory w" "registry (upd_reg f w) = f (registry w)"
  "cout (upd_reg f w) = cout w" "cerr (upd_reg f w) = cerr w"
  by (simp_all add: upd_reg_def)

lemma print_fields [simp, reg_simps]:
  "memory (print_cout t w) = memory w" "registry (print_cout t w) = registry w"
  "memory (print_cerr ds w) = memory w" "registry (print_cerr ds w) = registry w"
  "cout (print_cerr ds w) = cout w" "cerr (print_cout t w) = cerr w"
  "cerr (print_cerr ds w) = cerr w @ ds"
  by (simp_all add: print_cout_def print_cerr_def)

lemma registerEntity_find:
  "omap_find (registerEntity m reg k e) k' =
     (if k' = k \<and> lock m (findEntity reg k None) = None then Some e
      else if k' = k then Some (findEntity reg k None) else omap_find reg k')"
  by (auto simp: registerEntity_def findEntity_def omap_at_def split: option.split)

lemma registerEntity_ok: "omap_ok reg \<Longrightarrow> omap_ok (registerEntity m reg k e)"
  by (auto simp: registerEntity_def omap_at_def om.ok_assign split: option.split)

lemma get_at_entity: "fst (get_at node name nr) = entity_at nr node name"
  by (simp add: get_at_def entity_at_def findEntity_def omap_at_def split: option.split)

lemma entity_at_get_at [simp]: "entity_at (snd (get_at node name nr)) node' name' = entity_at nr node' name'"
  by (simp add: get_at_def entity_at_def findEntity_def omap_at_def split: option.split)

lemma entity_at_list_at [simp]: "entity_at (snd (list_at node nr)) node' name' = entity_at nr node' name'"
  by (simp add: list_at_def entity_at_def findEntity_def omap_at_def split: option.split)

lemma entity_at_register_at:
  "entity_at (register_at m node name e nr) node' name' =
     (if node' = node \<and> name' = name \<and> lock m (entity_at nr node name) = None then e
      else entity_at nr node' name')"
  by (auto simp: register_at_def entity_at_def findEntity_def omap_at_def registerEntity_find
      split: option.split)

section \<open>The registry as an interface\<close>

text \<open>
  What the mock headers rely on: a registration replaces an absent or expired reference under its
  own node and name only, and a lookup changes no answer.
\<close>

locale entity_registry =
  fixes register :: "tyname \<Rightarrow> weak_ptr \<Rightarrow> string \<Rightarrow> weak_ptr \<Rightarrow> 'm world \<Rightarrow> 'm world"
    and get :: "weak_ptr \<Rightarrow> string \<Rightarrow> 'm world \<Rightarrow> weak_ptr \<times> 'm world"
    and key :: "string \<Rightarrow> string"
  assumes get_register:
      "fst (get n' k' (register T n s e w)) =
         (if n' = n \<and> k' = key s \<and> lock (memory w) (fst (get n (key s) w)) = None then e
          else fst (get n' k' w))"
    and get_get: "fst (get n' k' (snd (get n k w))) = fst (get n' k' w)"
    and register_memory: "memory (register T n s e w) = memory w"
    and get_memory: "memory (snd (get n k w)) = memory w"
begin

lemma registered_found:
  "lock (memory w) (fst (get n (key s) w)) = None \<Longrightarrow> fst (get n (key s) (register T n s e w)) = e"
  by (simp add: get_register)

lemma live_entry_kept:
  "lock (memory w) (fst (get n (key s) w)) \<noteq> None
     \<Longrightarrow> fst (get n (key s) (register T n s e w)) = fst (get n (key s) w)"
  by (auto simp: get_register)

lemma other_node_unchanged:
  "n' \<noteq> n \<Longrightarrow> fst (get n' k' (register T n s e w)) = fst (get n' k' w)"
  by (simp add: get_register)

lemma other_name_unchanged:
  "k' \<noteq> key s \<Longrightarrow> fst (get n' k' (register T n s e w)) = fst (get n' k' w)"
  by (simp add: get_register)

text \<open>Any number of registrations of live entities under one name: the first one stays.\<close>

lemma first_registration_wins:
  assumes "lock (memory w) (fst (get n (key s) w)) = None"
    and "\<forall>e \<in> set (e0 # es). lock (memory w) e \<noteq> None"
  shows "fst (get n (key s) (fold (\<lambda>e. register T n s e) (e0 # es) w)) = e0"
proof -
  have keep: "fst (get n (key s) (fold (\<lambda>e. register T n s e) es v)) = fst (get n (key s) v)"
    if "lock (memory v) (fst (get n (key s) v)) \<noteq> None" for v
    using that
  proof (induction es arbitrary: v)
    case (Cons e es)
    then have "fst (get n (key s) (register T n s e v)) = fst (get n (key s) v)"
      by (simp add: live_entry_kept)
    with Cons show ?case by (simp add: register_memory)
  qed simp
  show ?thesis
    using assms by (simp add: registered_found keep register_memory)
qed

end

lemmas registry_entity_defs =
  registerPublisher_def getPublisher_def registerSubscription_def getSubscription_def
  registerService_def getService_def registerServiceClient_def getServiceClient_def
  registerActionServer_def lookupActionServer_def registerActionClient_def lookupActionClient_def

interpretation pubs: entity_registry registerPublisher getPublisher "\<lambda>s. s"
  by unfold_locales
     (auto simp: registry_entity_defs split_beta get_at_entity entity_at_register_at)

interpretation subs: entity_registry registerSubscription getSubscription "\<lambda>s. s"
  by unfold_locales
     (auto simp: registry_entity_defs split_beta get_at_entity entity_at_register_at)

interpretation srvs: entity_registry registerService getService service_key
  by unfold_locales
     (auto simp: registry_entity_defs split_beta get_at_entity entity_at_register_at)

interpretation clis: entity_registry registerServiceClient getServiceClient service_key
  by unfold_locales
     (auto simp: registry_entity_defs split_beta get_at_entity entity_at_register_at)

interpretation asrv: entity_registry registerActionServer lookupActionServer "\<lambda>s. s"
  by unfold_locales
     (auto simp: registry_entity_defs split_beta get_at_entity entity_at_register_at)

interpretation acli: entity_registry registerActionClient lookupActionClient "\<lambda>s. s"
  by unfold_locales
     (auto simp: registry_entity_defs split_beta get_at_entity entity_at_register_at)

section \<open>The table of attached mocks as an interface\<close>

locale mock_table =
  fixes get :: "addr \<Rightarrow> 'w \<Rightarrow> weak_ptr"
    and attach :: "addr \<Rightarrow> weak_ptr \<Rightarrow> 'w \<Rightarrow> 'w"
    and detach :: "addr \<Rightarrow> 'w \<Rightarrow> 'w"
  assumes get_attach: "get q (attach p k w) = (if q = p then k else get q w)"
    and get_detach: "get q (detach p w) = (if q = p then None else get q w)"
begin

lemma detach_attach: "get q (detach p (attach p k w)) = get q (detach p w)"
  by (simp add: get_attach get_detach)

text \<open>
  Detaching is by address, not by mock: it also drops a different mock attached there since.
\<close>

lemma detach_drops_later_mock: "get p (detach p (attach p k2 (detach q (attach p k1 w)))) = None"
  by (simp add: get_detach)

end

interpretation mocks: mock_table getMock attachMock detachMock
  by unfold_locales
     (auto simp: getMock_def attachMock_def detachMock_def split: option.split)

lemma mock_ops_fields [simp, reg_simps]:
  "memory (attachMock p k w) = memory w" "memory (detachMock p w) = memory w"
  "cout (attachMock p k w) = cout w" "cout (detachMock p w) = cout w"
  "cerr (attachMock p k w) = cerr w" "cerr (detachMock p w) = cerr w"
  by (simp_all add: attachMock_def detachMock_def split: option.split)

lemma getMock_memory [simp, reg_simps]: "getMock p (w\<lparr>memory := m\<rparr>) = getMock p w"
  by (simp add: getMock_def)

lemma getMock_print [simp, reg_simps]:
  "getMock p (print_cerr ds w) = getMock p w" "getMock p (print_cout t w) = getMock p w"
  by (simp_all add: getMock_def)

lemma dumpRegistry_fields [simp, reg_simps]:
  "memory (dumpRegistry n w) = memory w" "registry (dumpRegistry n w) = registry w"
  "cout (dumpRegistry n w) = cout w"
  by (simp_all add: dumpRegistry_def Let_def)

section \<open>Properties\<close>

text \<open>C7: Registration, for each of the six kinds of entities: after registering \<open>e\<close> under a node and a
  name, a lookup by that node and name returns \<open>e\<close> if no live entity was there, and the live one
  otherwise; a lookup by any other node or name returns what it returned before. Services and
  clients are filed without one leading slash.\<close>

theorem registration_law:
  "fst (getPublisher n' k' (registerPublisher T n k e w)) =
     (if n' = n \<and> k' = k \<and> lock (memory w) (fst (getPublisher n k w)) = None then e else fst (getPublisher n' k' w))
   \<and> fst (getSubscription n' k' (registerSubscription T n k e w)) =
     (if n' = n \<and> k' = k \<and> lock (memory w) (fst (getSubscription n k w)) = None then e else fst (getSubscription n' k' w))
   \<and> fst (getService n' k' (registerService T n k e w)) =
     (if n' = n \<and> k' = service_key k \<and> lock (memory w) (fst (getService n (service_key k) w)) = None then e
      else fst (getService n' k' w))
   \<and> fst (getServiceClient n' k' (registerServiceClient T n k e w)) =
     (if n' = n \<and> k' = service_key k \<and> lock (memory w) (fst (getServiceClient n (service_key k) w)) = None then e
      else fst (getServiceClient n' k' w))
   \<and> fst (lookupActionServer n' k' (registerActionServer T n k e w)) =
     (if n' = n \<and> k' = k \<and> lock (memory w) (fst (lookupActionServer n k w)) = None then e else fst (lookupActionServer n' k' w))
   \<and> fst (lookupActionClient n' k' (registerActionClient T n k e w)) =
     (if n' = n \<and> k' = k \<and> lock (memory w) (fst (lookupActionClient n k w)) = None then e else fst (lookupActionClient n' k' w))"
  by (intro conjI pubs.get_register subs.get_register srvs.get_register clis.get_register asrv.get_register acli.get_register)

text \<open>Of several live publishers a node creates on one topic, the first one is found, however many
  follow.\<close>

lemma first_publisher_wins:
  assumes "lock (memory w) (fst (getPublisher n k w)) = None"
    and "\<forall>e \<in> set (e0 # es). lock (memory w) e \<noteq> None"
  shows "fst (getPublisher n k (fold (\<lambda>e. registerPublisher T n k e) (e0 # es) w)) = e0"
  using pubs.first_registration_wins [OF assms] by simp

definition two_pubs_world :: "nat world" where
  "two_pubs_world = init_world\<lparr>memory := new_shared 3 30 (Node_obj None) (new_shared 2 20 (Node_obj None) empty_mem)\<rparr>"

text \<open>The end of a test suite forgets everything: afterwards no lookup finds an entity, a timer or a
  mock, and nothing is queued for lazy registration; objects and the verbose switch are untouched.\<close>

lemma suite_end_forgets:
  "fst (getPublisher n k (OnTestSuiteEnd w)) = None \<and> fst (getSubscription n k (OnTestSuiteEnd w)) = None
   \<and> fst (getService n k (OnTestSuiteEnd w)) = None \<and> fst (getServiceClient n k (OnTestSuiteEnd w)) = None
   \<and> (\<exists>w'. getActionServer run n k (OnTestSuiteEnd w) = (Inr None, w'))
   \<and> (\<exists>w'. getActionClient run n k (OnTestSuiteEnd w) = (Inr None, w'))
   \<and> getTimers n (OnTestSuiteEnd w) = [] \<and> getMock p (OnTestSuiteEnd w) = None
   \<and> memory (OnTestSuiteEnd w) = memory w \<and> verbose (registry (OnTestSuiteEnd w)) = verbose (registry w)"
  by (simp add: OnTestSuiteEnd_def reset_def getPublisher_def getSubscription_def getService_def
      getServiceClient_def getActionServer_def getActionClient_def lookupActionServer_def lookupActionClient_def
      getTimers_def getMock_def get_at_def omap_at_def findEntity_def)

end
