(* ===== verification/Publisher_Mock.thy ===== *)
theory Publisher_Mock
  imports Static_Registry
begin

text \<open>
  \<open>rtest::PublisherMock\<close> and the substituted \<open>rclcpp::Publisher\<close> (publisher_mock.hpp): creation and
  registration of a publisher, the overloads of \<open>publish\<close> down to the attached mock, the
  subscription count, and \<open>findPublisher\<close>. The count of real subscriptions comes from
  \<open>PublisherBase\<close>, which is not part of the repository: it is an argument.
\<close>

section \<open>The mock\<close>

definition new_PublisherMock :: "tyname \<Rightarrow> addr \<Rightarrow> 'm publisher_mock" where
  "new_PublisherMock MessageT p =
     \<lparr>pm_type = MessageT, pub = p, subscriptions_count = 0, publish_calls = []\<rparr>"

definition delete_PublisherMock :: "'m publisher_mock \<Rightarrow> 'm world \<Rightarrow> 'm world" where
  "delete_PublisherMock k w = detachMock (pub k) w"

text \<open>The mocked \<open>publish\<close>: the call is recorded.\<close>

definition mock_publish :: "'m \<Rightarrow> 'm publisher_mock \<Rightarrow> 'm publisher_mock" where
  "mock_publish msg k = k\<lparr>publish_calls := publish_calls k @ [msg]\<rparr>"

definition setSubscriptionCount :: "size_t \<Rightarrow> 'm publisher_mock \<Rightarrow> 'm publisher_mock" where
  "setSubscriptionCount n k = k\<lparr>subscriptions_count := n\<rparr>"

fun on_publisher_mock :: "('m publisher_mock \<Rightarrow> 'm publisher_mock) \<Rightarrow> 'm obj \<Rightarrow> 'm obj" where
  "on_publisher_mock f (Publisher_mock_obj k) = Publisher_mock_obj (f k)"
| "on_publisher_mock f x = x"

section \<open>The publisher\<close>

definition publisher_post_init_setup :: "publisher \<Rightarrow> weak_ptr \<Rightarrow> 'm world \<Rightarrow> 'm world" where
  "publisher_post_init_setup p this w =
     registerPublisher (publisher_type p) (publisher_node p) (publisher_topic p) this w"

text \<open>Construction under a \<open>shared_ptr\<close> followed by the setup, as the publisher factory does it.\<close>

definition create_publisher :: "ctrl \<Rightarrow> addr \<Rightarrow> publisher \<Rightarrow> 'm world \<Rightarrow> 'm world" where
  "create_publisher c a p w =
     publisher_post_init_setup p (Some c) (w\<lparr>memory := new_shared c a (Publisher_obj p) (memory w)\<rparr>)"

text \<open>
  \<open>getMock(this).lock()\<close> and the static cast to \<open>PublisherMock<MessageT>\<close>: no mock, the mock and
  its address, or a cast to a class the mock is not.
\<close>

definition publisher_mock_of ::
  "addr \<Rightarrow> tyname \<Rightarrow> 'm world \<Rightarrow> exn + (addr \<times> 'm publisher_mock) option" where
  "publisher_mock_of this MessageT w =
     (case locked_ptr (memory w) (getMock this w) of
        None \<Rightarrow> Inr None
      | Some a \<Rightarrow> (case at_ptr (memory w) a of
            Some (Publisher_mock_obj k) \<Rightarrow>
              if pm_type k = MessageT then Inr (Some (a, k)) else Inl (Undefined Bad_static_cast)
          | _ \<Rightarrow> Inl (Undefined Bad_static_cast)))"

definition publish_sink :: "addr \<Rightarrow> tyname \<Rightarrow> 'm \<Rightarrow> 'm world \<Rightarrow> ('m world, unit) res" where
  "publish_sink this MessageT msg w =
     (case publisher_mock_of this MessageT w of
        Inl e \<Rightarrow> (Inl e, w)
      | Inr None \<Rightarrow> (Inr (), w)
      | Inr (Some (a, k)) \<Rightarrow>
          (Inr (), w\<lparr>memory := modify a (on_publisher_mock (mock_publish msg)) (memory w)\<rparr>))"

definition get_subscription_count :: "size_t \<Rightarrow> addr \<Rightarrow> tyname \<Rightarrow> 'm world \<Rightarrow> exn + size_t" where
  "get_subscription_count base_count this MessageT w =
     (case publisher_mock_of this MessageT w of
        Inl e \<Rightarrow> Inl e
      | Inr None \<Rightarrow> Inr base_count
      | Inr (Some (a, k)) \<Rightarrow> Inr (base_count + subscriptions_count k))"

text \<open>The overloads of \<open>publish\<close>; a \<open>unique_ptr\<close> argument may be null.\<close>

definition publish_unique_ptr :: "addr \<Rightarrow> tyname \<Rightarrow> 'm option \<Rightarrow> 'm world \<Rightarrow> ('m world, unit) res" where
  "publish_unique_ptr this MessageT msg w =
     (case msg of None \<Rightarrow> (Inl (Undefined Null_dereference), w)
      | Some x \<Rightarrow> publish_sink this MessageT x w)"

definition publish_ref :: "addr \<Rightarrow> tyname \<Rightarrow> 'm \<Rightarrow> 'm world \<Rightarrow> ('m world, unit) res" where
  "publish_ref this MessageT msg w = publish_sink this MessageT msg w"

definition publish_adapted_unique_ptr ::
  "addr \<Rightarrow> tyname \<Rightarrow> 'm option \<Rightarrow> 'm world \<Rightarrow> ('m world, unit) res" where
  "publish_adapted_unique_ptr this MessageT msg w =
     (case msg of None \<Rightarrow> (Inl (Undefined Null_dereference), w)
      | Some x \<Rightarrow> publish_sink this MessageT x w)"

definition publish_rcl_serialized :: "'x \<Rightarrow> 'm world \<Rightarrow> ('m world, unit) res" where
  "publish_rcl_serialized serialized_msg w =
     (Inl (Runtime_error ''Publisher::publish(rcl_serialized_message_t) is not implemented''), w)"

definition publish_serialized :: "'x \<Rightarrow> 'm world \<Rightarrow> ('m world, unit) res" where
  "publish_serialized serialized_msg w =
     (Inl (Runtime_error ''Publisher::publish(SerializedMessage) is not implemented''), w)"

text \<open>\<open>LoanedMessage\<close> belongs to rclcpp: its \<open>is_valid\<close> and \<open>get\<close> are parameters.\<close>

definition publish_loaned ::
  "('l \<Rightarrow> bool) \<Rightarrow> ('l \<Rightarrow> 'm) \<Rightarrow> addr \<Rightarrow> tyname \<Rightarrow> 'l \<Rightarrow> 'm world \<Rightarrow> ('m world, unit) res" where
  "publish_loaned is_valid get this MessageT loaned_msg w =
     (if \<not> is_valid loaned_msg then (Inl (Runtime_error ''loaned message is not valid''), w)
      else publish_sink this MessageT (get loaned_msg) w)"

section \<open>Lookup by the test\<close>

definition topic_key :: "string \<Rightarrow> string" where
  "topic_key topicName = (if hd topicName \<noteq> CHR ''/'' then CHR ''/'' # topicName else topicName)"

text \<open>
  \<open>c\<close> and \<open>a\<close> are the control block and the address of the mock if one is made; \<open>node\<close> is the
  owning block of the node's \<open>rcl_node_t\<close>.
\<close>

definition findPublisher ::
  "ctrl \<Rightarrow> addr \<Rightarrow> tyname \<Rightarrow> ctrl \<Rightarrow> string \<Rightarrow> 'm world \<Rightarrow> ('m world, ctrl option) res" where
  "findPublisher c a MessageT node topicName w =
     (if topicName = [] then (Inl (Invalid_argument ''Topic name must not be empty''), w)
      else let name = topic_key topicName;
               (pub_base, w1) = getPublisher (Some node) name w;
               publisher = (case locked_ptr (memory w1) pub_base of
                   Some p \<Rightarrow> (case at_ptr (memory w1) p of
                       Some (Publisher_obj q) \<Rightarrow> if publisher_type q = MessageT then Some p else None
                     | _ \<Rightarrow> None)
                 | None \<Rightarrow> None)
           in case publisher of
                Some p \<Rightarrow>
                  if lock (memory w1) (getMock p w1) \<noteq> None
                  then (Inr None, print_cerr [Warn_attached ''findPublisher''] w1)
                  else (Inr (Some c), attachMock p (Some c)
                         (w1\<lparr>memory := new_shared c a
                               (Publisher_mock_obj (new_PublisherMock MessageT p)) (memory w1)\<rparr>))
              | None \<Rightarrow>
                  (Inr None, dumpRegistry (Some node)
                     (print_cerr [Not_found ''findPublisher'' (nodeName (memory w1) (Some node)) name] w1)))"

section \<open>Properties\<close>

lemma publisher_mock_of_Some:
  "publisher_mock_of this T w = Inr (Some (a, k)) \<longleftrightarrow>
     locked_ptr (memory w) (getMock this w) = Some a \<and> at_ptr (memory w) a = Some (Publisher_mock_obj k) \<and> pm_type k = T"
  by (auto simp: publisher_mock_of_def split: option.splits obj.splits)

lemma publisher_mock_of_modify:
  assumes "publisher_mock_of this T w = Inr (Some (a, k))" and "pm_type (f k) = T"
  shows "publisher_mock_of this T (w\<lparr>memory := modify a (on_publisher_mock f) (memory w)\<rparr>) = Inr (Some (a, f k))"
  using assms by (auto simp: publisher_mock_of_Some modify_at_ptr)

lemma publish_fold:
  assumes "publisher_mock_of this T w = Inr (Some (a, k))"
  shows "publisher_mock_of this T (fold (\<lambda>m v. snd (publish_sink this T m v)) ms w) =
      Inr (Some (a, k\<lparr>publish_calls := publish_calls k @ ms\<rparr>))
    \<and> registry (fold (\<lambda>m v. snd (publish_sink this T m v)) ms w) = registry w
    \<and> (\<forall>b. b \<noteq> a \<longrightarrow> at_ptr (memory (fold (\<lambda>m v. snd (publish_sink this T m v)) ms w)) b = at_ptr (memory w) b)"
  using assms
proof (induction ms arbitrary: w k)
  case Nil
  then show ?case by simp
next
  case (Cons x ms)
  have T: "pm_type (mock_publish x k) = T"
    using Cons.prems by (simp add: publisher_mock_of_Some mock_publish_def)
  define v where "v = snd (publish_sink this T x w)"
  have v: "v = w\<lparr>memory := modify a (on_publisher_mock (mock_publish x)) (memory w)\<rparr>"
    using Cons.prems by (simp add: publish_sink_def v_def)
  have "publisher_mock_of this T v = Inr (Some (a, mock_publish x k))"
    unfolding v by (rule publisher_mock_of_modify [where f = "mock_publish x", OF Cons.prems T])
  from Cons.IH [OF this] show ?case
    by (simp add: mock_publish_def flip: v_def) (simp add: v modify_at_ptr)
qed

text \<open>Every message published while a mock of the right type is attached reaches it: after any
  sequence of calls of the sink \<open>publish_\<close> the mock has recorded exactly those messages, in order,
  after what it had before, and is still attached; no call fails and nothing else changes.\<close>

lemma publish_reaches_mock:
  assumes "publisher_mock_of this T w = Inr (Some (a, k))"
  shows "publisher_mock_of this T (fold (\<lambda>m v. snd (publish_sink this T m v)) ms w) =
      Inr (Some (a, k\<lparr>publish_calls := publish_calls k @ ms\<rparr>))
    \<and> registry (fold (\<lambda>m v. snd (publish_sink this T m v)) ms w) = registry w
    \<and> (\<forall>b. b \<noteq> a \<longrightarrow> at_ptr (memory (fold (\<lambda>m v. snd (publish_sink this T m v)) ms w)) b = at_ptr (memory w) b)
    \<and> fst (publish_sink this T m (fold (\<lambda>m v. snd (publish_sink this T m v)) ms w)) = Inr ()"
  using publish_fold [OF assms, of ms] by (simp add: publish_sink_def)

end
