(* ===== verification/Subscription_Mock.thy ===== *)
theory Subscription_Mock
  imports Publisher_Mock
begin

text \<open>
  The substituted \<open>rclcpp::Subscription\<close> (subscription_mock.hpp): construction checks, registration,
  delivery of messages to the user's callback, and \<open>findSubscription\<close>. From rclcpp come, as
  parameters: \<open>dispatch\<close> (\<open>AnySubscriptionCallback::dispatch\<close> on the state of the user's code),
  the system clock, the statistics collector (its calls are recorded), and the type-erased take.
\<close>

type_synonym message_info = nat

text \<open>What the handlers change: the state of user code and the calls of the statistics collector.\<close>

record 'u delivery =
  user_state :: 'u
  statistics :: "(message_info \<times> int) list"

section \<open>Construction\<close>

definition subscription_ctor_check :: "bool \<Rightarrow> bool \<Rightarrow> nat \<Rightarrow> exn + unit" where
  "subscription_ctor_check use_intra_process keep_last depth =
     (if use_intra_process then
        if \<not> keep_last then
          Inl (Invalid_argument ''intraprocess communication allowed only with keep last history qos policy'')
        else if depth = 0 then
          Inl (Invalid_argument ''intraprocess communication is not allowed with 0 depth qos policy'')
        else Inr ()
      else Inr ())"

definition subscription_post_init_setup :: "subscription \<Rightarrow> weak_ptr \<Rightarrow> 'm world \<Rightarrow> 'm world" where
  "subscription_post_init_setup s this w =
     registerSubscription (subscription_type s) (subscription_node s) (subscription_topic s) this w"

text \<open>A throwing constructor leaves no object behind and nothing registered.\<close>

definition create_subscription ::
  "bool \<Rightarrow> bool \<Rightarrow> nat \<Rightarrow> ctrl \<Rightarrow> addr \<Rightarrow> subscription \<Rightarrow> 'm world \<Rightarrow> ('m world, ctrl) res" where
  "create_subscription use_intra_process keep_last depth c a s w =
     (case subscription_ctor_check use_intra_process keep_last depth of
        Inl e \<Rightarrow> (Inl e, w)
      | Inr _ \<Rightarrow> (Inr c, subscription_post_init_setup s (Some c)
                   (w\<lparr>memory := new_shared c a (Subscription_obj s) (memory w)\<rparr>)))"

section \<open>Taking and handling messages\<close>

definition take_message :: "('u \<Rightarrow> (bool \<times> 'm) \<times> 'u) \<Rightarrow> 'u \<Rightarrow> (bool \<times> 'm) \<times> 'u" where
  "take_message take_type_erased u = take_type_erased u"

text \<open>With a type adapter the output is written only when a message was taken.\<close>

definition take_adapted ::
  "('u \<Rightarrow> (bool \<times> 'r) \<times> 'u) \<Rightarrow> ('r \<Rightarrow> 'm) \<Rightarrow> 'm \<Rightarrow> 'u \<Rightarrow> (bool \<times> 'm) \<times> 'u" where
  "take_adapted take_type_erased convert_to_custom message_out u =
     (case take_type_erased u of ((taken, local_message), u1) \<Rightarrow>
        ((taken, if taken then convert_to_custom local_message else message_out), u1))"

definition handle_message_void ::
  "(callback \<Rightarrow> 'm \<Rightarrow> message_info \<Rightarrow> 'u \<Rightarrow> ('u, unit) res) \<Rightarrow> subscription \<Rightarrow> 'm \<Rightarrow> message_info
     \<Rightarrow> 'u delivery \<Rightarrow> ('u delivery, unit) res" where
  "handle_message_void dispatch s message message_info d =
     (case dispatch (any_callback s) message message_info (user_state d) of
        (r, u) \<Rightarrow> (r, d\<lparr>user_state := u\<rparr>))"

text \<open>\<open>rclcpp::MessageInfo{}\<close> is \<open>0\<close>.\<close>

definition handle_message_shared ::
  "(callback \<Rightarrow> 'm \<Rightarrow> message_info \<Rightarrow> 'u \<Rightarrow> ('u, unit) res) \<Rightarrow> subscription \<Rightarrow> 'm
     \<Rightarrow> 'u delivery \<Rightarrow> ('u delivery, unit) res" where
  "handle_message_shared dispatch s message d = handle_message_void dispatch s message 0 d"

definition handle_message_ref ::
  "(callback \<Rightarrow> 'm \<Rightarrow> message_info \<Rightarrow> 'u \<Rightarrow> ('u, unit) res) \<Rightarrow> subscription \<Rightarrow> 'm
     \<Rightarrow> 'u delivery \<Rightarrow> ('u delivery, unit) res" where
  "handle_message_ref dispatch s message d = handle_message_shared dispatch s message d"

text \<open>A message built from its \<open>data\<close> member; \<open>blank\<close> is the default-constructed message.\<close>

definition handle_message_data ::
  "(callback \<Rightarrow> 'm \<Rightarrow> message_info \<Rightarrow> 'u \<Rightarrow> ('u, unit) res) \<Rightarrow> ('d \<Rightarrow> 'm \<Rightarrow> 'm) \<Rightarrow> 'm \<Rightarrow> subscription
     \<Rightarrow> 'd \<Rightarrow> 'u delivery \<Rightarrow> ('u delivery, unit) res" where
  "handle_message_data dispatch set_data blank s data d =
     handle_message_shared dispatch s (set_data data blank) d"

text \<open>
  The clock is read before the callback and the collector told after it; a throwing callback
  skips the collector.
\<close>

definition dispatch_with_statistics ::
  "(callback \<Rightarrow> 'm \<Rightarrow> message_info \<Rightarrow> 'u \<Rightarrow> ('u, unit) res) \<Rightarrow> ('u \<Rightarrow> int) \<Rightarrow> subscription \<Rightarrow> 'm
     \<Rightarrow> message_info \<Rightarrow> 'u delivery \<Rightarrow> ('u delivery, unit) res" where
  "dispatch_with_statistics dispatch system_now s message message_info d =
     (let now = (if subscription_topic_statistics s then system_now (user_state d) else 0)
      in andthen (case dispatch (any_callback s) message message_info (user_state d) of
                    (r, u) \<Rightarrow> (r, d\<lparr>user_state := u\<rparr>))
           (\<lambda>_ d1. (Inr (), if subscription_topic_statistics s
              then d1\<lparr>statistics := statistics d1 @ [(message_info, now)]\<rparr> else d1)))"

definition handle_serialized_message ::
  "(callback \<Rightarrow> 'm \<Rightarrow> message_info \<Rightarrow> 'u \<Rightarrow> ('u, unit) res) \<Rightarrow> ('u \<Rightarrow> int) \<Rightarrow> subscription \<Rightarrow> 'm
     \<Rightarrow> message_info \<Rightarrow> 'u delivery \<Rightarrow> ('u delivery, unit) res" where
  "handle_serialized_message dispatch system_now s serialized_message message_info d =
     dispatch_with_statistics dispatch system_now s serialized_message message_info d"

definition handle_loaned_message ::
  "(callback \<Rightarrow> 'm \<Rightarrow> message_info \<Rightarrow> 'u \<Rightarrow> ('u, unit) res) \<Rightarrow> ('u \<Rightarrow> int) \<Rightarrow> (message_info \<Rightarrow> bool)
     \<Rightarrow> subscription \<Rightarrow> 'm \<Rightarrow> message_info \<Rightarrow> 'u delivery \<Rightarrow> ('u delivery, unit) res" where
  "handle_loaned_message dispatch system_now matches_intra_process s loaned_message message_info d =
     (if matches_intra_process message_info then (Inr (), d)
      else dispatch_with_statistics dispatch system_now s loaned_message message_info d)"

section \<open>Message memory\<close>

text \<open>
  Messages are borrowed from and returned to the memory strategy of rclcpp, on its pool of messages.
  The strategy takes the pointer by reference and may reset it: \<open>return_message\<close> hands it a cast copy,
  \<open>return_serialized_message\<close> the caller's own.
\<close>

record 'p memory_strategy =
  borrow_message :: "'p \<Rightarrow> ctrl \<times> 'p"
  borrow_serialized_message :: "'p \<Rightarrow> ctrl \<times> 'p"
  strategy_return_message :: "ctrl option \<Rightarrow> 'p \<Rightarrow> ctrl option \<times> 'p"
  strategy_return_serialized_message :: "ctrl option \<Rightarrow> 'p \<Rightarrow> ctrl option \<times> 'p"

definition create_message :: "'p memory_strategy \<Rightarrow> 'p \<Rightarrow> ctrl \<times> 'p" where
  "create_message strategy pool = borrow_message strategy pool"

definition create_serialized_message :: "'p memory_strategy \<Rightarrow> 'p \<Rightarrow> ctrl \<times> 'p" where
  "create_serialized_message strategy pool = borrow_serialized_message strategy pool"

definition return_message :: "'p memory_strategy \<Rightarrow> ctrl option \<times> 'p \<Rightarrow> ctrl option \<times> 'p" where
  "return_message strategy mp =
     (case strategy_return_message strategy (fst mp) (snd mp) of (typed_message, pool) \<Rightarrow> (fst mp, pool))"

definition return_serialized_message :: "'p memory_strategy \<Rightarrow> ctrl option \<times> 'p \<Rightarrow> ctrl option \<times> 'p" where
  "return_serialized_message strategy mp = strategy_return_serialized_message strategy (fst mp) (snd mp)"

section \<open>Dynamic messages\<close>

text \<open>The six virtual functions for dynamic messages only throw.\<close>

datatype dynamic_op =
    Get_shared_dynamic_message_type
  | Get_shared_dynamic_message
  | Get_shared_dynamic_serialization_support
  | Create_dynamic_message
  | Return_dynamic_message
  | Handle_dynamic_message

fun dynamic_message_op :: "dynamic_op \<Rightarrow> exn" where
  "dynamic_message_op Get_shared_dynamic_message_type =
     Unimplemented_error ''get_shared_dynamic_message_type is not implemented for Subscription''"
| "dynamic_message_op Get_shared_dynamic_message =
     Unimplemented_error ''get_shared_dynamic_message is not implemented for Subscription''"
| "dynamic_message_op Get_shared_dynamic_serialization_support =
     Unimplemented_error ''get_shared_dynamic_serialization_support is not implemented for Subscription''"
| "dynamic_message_op Create_dynamic_message =
     Unimplemented_error ''create_dynamic_message is not implemented for Subscription''"
| "dynamic_message_op Return_dynamic_message =
     Unimplemented_error ''return_dynamic_message is not implemented for Subscription''"
| "dynamic_message_op Handle_dynamic_message =
     Unimplemented_error ''handle_dynamic_message is not implemented for Subscription''"

section \<open>Lookup by the test\<close>

definition findSubscription ::
  "tyname \<Rightarrow> ctrl \<Rightarrow> string \<Rightarrow> 'm world \<Rightarrow> ('m world, ctrl option) res" where
  "findSubscription MessageT node topicName w =
     (if topicName = [] then (Inl (Invalid_argument ''Topic name must not be empty''), w)
      else let name = topic_key topicName;
               (sub, w1) = getSubscription (Some node) name w;
               result = (case locked_obj (memory w1) sub of
                   Some (Subscription_obj s) \<Rightarrow>
                     if subscription_type s = MessageT then lock (memory w1) sub else None
                 | _ \<Rightarrow> None)
           in case result of
                Some c \<Rightarrow> (Inr (Some c), w1)
              | None \<Rightarrow>
                  (Inr None, dumpRegistry (Some node)
                     (print_cerr [Not_found ''findSubscription'' (nodeName (memory w1) (Some node)) name] w1)))"

section \<open>Properties\<close>

text \<open>
  Delivery of a sequence of loaned messages, each to its own run of the handler. \<open>log_now\<close> lists the
  times the clock shows before each delivered message.
\<close>

fun handle_all ::
  "(callback \<Rightarrow> 'm \<Rightarrow> message_info \<Rightarrow> 'u \<Rightarrow> ('u, unit) res) \<Rightarrow> ('u \<Rightarrow> int) \<Rightarrow> (message_info \<Rightarrow> bool)
     \<Rightarrow> subscription \<Rightarrow> ('m \<times> message_info) list \<Rightarrow> 'u delivery \<Rightarrow> ('u delivery, unit) res" where
  "handle_all dispatch system_now matches s [] d = (Inr (), d)"
| "handle_all dispatch system_now matches s ((m, i) # ms) d =
     andthen (handle_loaned_message dispatch system_now matches s m i d)
       (\<lambda>_. handle_all dispatch system_now matches s ms)"

text \<open>The user's callback run on the messages that do not arrive intra-process, with the times.\<close>

fun user_run ::
  "(callback \<Rightarrow> 'm \<Rightarrow> message_info \<Rightarrow> 'u \<Rightarrow> ('u, unit) res) \<Rightarrow> ('u \<Rightarrow> int) \<Rightarrow> callback
     \<Rightarrow> ('m \<times> message_info) list \<Rightarrow> 'u \<Rightarrow> (message_info \<times> int) list \<Rightarrow> (exn + unit) \<times> 'u \<times> (message_info \<times> int) list" where
  "user_run dispatch system_now cb [] u ts = (Inr (), u, ts)"
| "user_run dispatch system_now cb ((m, i) # ms) u ts =
     (case dispatch cb m i u of
        (Inl e, u1) \<Rightarrow> (Inl e, u1, ts)
      | (Inr _, u1) \<Rightarrow> user_run dispatch system_now cb ms u1 (ts @ [(i, system_now u)]))"

text \<open>The times recorded do not change what the callbacks do.\<close>

lemma user_run_times:
  "(case user_run dispatch system_now cb ns u ts of (r, v, _) \<Rightarrow> (r, v)) =
     (case user_run dispatch system_now cb ns u ts' of (r, v, _) \<Rightarrow> (r, v))"
proof (induction ns arbitrary: u ts ts')
  case Nil
  then show ?case by simp
next
  case (Cons x ns)
  obtain m i where x: "x = (m, i)" by fastforce
  obtain r v where run: "dispatch cb m i u = (r, v)" by fastforce
  show ?case
    using Cons.IH [of v "ts @ [(i, system_now u)]" "ts' @ [(i, system_now u)]"]
    by (cases r) (simp_all add: x run)
qed

text \<open>Deliveries and statistics. Handling a sequence of loaned messages runs the callback exactly on
  those not delivered intra-process, in order, up to the first that throws; the collector is told,
  for each message whose callback returned, the time before that callback ran, and nothing when
  the subscription collects no statistics.\<close>

lemma deliveries_and_statistics:
  "handle_all dispatch system_now matches s ms d =
     (case user_run dispatch system_now (any_callback s) (filter (\<lambda>(m, i). \<not> matches i) ms) (user_state d)
            (statistics d) of
        (r, u, ts) \<Rightarrow> (r, d\<lparr>user_state := u,
          statistics := (if subscription_topic_statistics s then ts else statistics d)\<rparr>))"
proof (induction ms arbitrary: d)
  case Nil
  then show ?case by simp
next
  case (Cons x ms)
  obtain m i where x: "x = (m, i)" by fastforce
  show ?case
  proof (cases "matches i")
    case True
    then show ?thesis by (simp add: x handle_loaned_message_def Cons.IH)
  next
    case False
    obtain r u where run: "dispatch (any_callback s) m i (user_state d) = (r, u)" by fastforce
    show ?thesis
      using False run user_run_times [of dispatch system_now "any_callback s" "filter (\<lambda>(m, i). \<not> matches i) ms" u
          "statistics d @ [(i, system_now (user_state d))]" "statistics d"]
      by (cases r) (auto simp: x handle_loaned_message_def dispatch_with_statistics_def Cons.IH Let_def
          split: prod.splits)
  qed
qed

end
