(* ===== verification/Service_Mock.thy ===== *)
theory Service_Mock
  imports Publisher_Mock
begin

text \<open>
  \<open>rtest::ServiceMock\<close> and the substituted \<open>rclcpp::Service\<close> (service_mock.hpp): creation and
  registration, the two ways a request reaches the user's callback (through the executor's
  virtual function and through the mock), the response captured by the mock, and \<open>findService\<close>.
  \<open>AnyServiceCallback::dispatch\<close> is a parameter: it runs user code, which may change the world
  (publish, say) and its own state; \<open>None\<close> is a null response (a deferred response).
\<close>

section \<open>Request identities\<close>

text \<open>The file's \<open>operator==\<close> on \<open>rmw_request_id_t\<close>.\<close>

definition request_id_eq :: "rmw_request_id \<Rightarrow> rmw_request_id \<Rightarrow> bool" where
  "request_id_eq lhs rhs =
     (let arrays_equal = (length (writer_guid lhs) = length (writer_guid rhs) \<and>
                          list_all2 (=) (writer_guid lhs) (writer_guid rhs))
      in sequence_number lhs = sequence_number rhs \<and> arrays_equal)"

section \<open>The mock\<close>

text \<open>The constructor rejects a null service and a service of another type.\<close>

definition new_ServiceMock :: "tyname \<Rightarrow> addr option \<Rightarrow> 'm world \<Rightarrow> exn + 'm service_mock" where
  "new_ServiceMock ServiceT service_base w =
     (case service_base of
        None \<Rightarrow> Inl (Invalid_argument ''Attempt to create ServiceMock for a nullptr service_base'')
      | Some p \<Rightarrow>
          (case at_ptr (memory w) p of
             Some (Service_obj s) \<Rightarrow>
               if service_type s = ServiceT
               then Inr \<lparr>sm_type = ServiceT, sm_service = p, send_response_calls = []\<rparr>
               else Inl (Runtime_error
                 (''Attempt to create ServiceMock for a different service type than: '' @ ServiceT))
           | Some _ \<Rightarrow> Inl (Runtime_error
                 (''Attempt to create ServiceMock for a different service type than: '' @ ServiceT))
           | None \<Rightarrow> Inl (Undefined Dangling_pointer)))"

definition delete_ServiceMock :: "'m service_mock \<Rightarrow> 'm world \<Rightarrow> 'm world" where
  "delete_ServiceMock k w = detachMock (sm_service k) w"

fun record_response :: "rmw_request_id \<Rightarrow> 'm \<Rightarrow> 'm obj \<Rightarrow> 'm obj" where
  "record_response hdr rsp (Service_mock_obj k) =
     Service_mock_obj (k\<lparr>send_response_calls := send_response_calls k @ [(hdr, rsp)]\<rparr>)"
| "record_response hdr rsp x = x"

text \<open>The mocked \<open>send_response\<close> of the mock at address \<open>a\<close>.\<close>

definition send_response :: "addr \<Rightarrow> rmw_request_id \<Rightarrow> 'm \<Rightarrow> 'm world \<Rightarrow> 'm world" where
  "send_response a hdr rsp w = w\<lparr>memory := modify a (record_response hdr rsp) (memory w)\<rparr>"

section \<open>The service\<close>

definition service_post_init_setup :: "service \<Rightarrow> weak_ptr \<Rightarrow> 'm world \<Rightarrow> 'm world" where
  "service_post_init_setup s this w =
     registerService (service_type s) (service_node_id s) (service_name s) this w"

text \<open>\<open>make_shared\<close> of \<open>TEST_TOOLS_MAKE_SHARED_DEFINITION\<close>: construct, then set up.\<close>

definition make_shared_service :: "ctrl \<Rightarrow> addr \<Rightarrow> service \<Rightarrow> 'm world \<Rightarrow> 'm world" where
  "make_shared_service c a s w =
     service_post_init_setup s (Some c) (w\<lparr>memory := new_shared c a (Service_obj s) (memory w)\<rparr>)"

text \<open>
  The typed \<open>handle_request\<close>: dispatch to the user's callback with \<open>shared_from_this()\<close>. The state
  is the world together with the state of user code.
\<close>

definition handle_request_typed ::
  "(callback \<Rightarrow> ctrl \<Rightarrow> rmw_request_id \<Rightarrow> 'm \<Rightarrow> 'm world \<times> 'u
      \<Rightarrow> ('m world \<times> 'u, 'm option) res) \<Rightarrow> addr \<Rightarrow> service
     \<Rightarrow> rmw_request_id \<Rightarrow> 'm \<Rightarrow> 'm world \<times> 'u \<Rightarrow> ('m world \<times> 'u, 'm option) res" where
  "handle_request_typed dispatch this s hdr request wu =
     (case shared_from_this (memory (fst wu)) this of
        Inl e \<Rightarrow> (Inl e, wu)
      | Inr c \<Rightarrow> dispatch (any_service_callback s) c hdr request wu)"

text \<open>The executor's entry: the response goes to the attached mock, or nowhere.\<close>

definition handle_request ::
  "(callback \<Rightarrow> ctrl \<Rightarrow> rmw_request_id \<Rightarrow> 'm \<Rightarrow> 'm world \<times> 'u
      \<Rightarrow> ('m world \<times> 'u, 'm option) res) \<Rightarrow> addr \<Rightarrow> service
     \<Rightarrow> rmw_request_id \<Rightarrow> 'm \<Rightarrow> 'm world \<times> 'u \<Rightarrow> ('m world \<times> 'u, unit) res" where
  "handle_request dispatch this s hdr request wu =
     andthen (handle_request_typed dispatch this s hdr request wu)
       (\<lambda>response wu1. case response of
          None \<Rightarrow> (Inr (), wu1)
        | Some rsp \<Rightarrow>
            (case locked_ptr (memory (fst wu1)) (getMock this (fst wu1)) of
               None \<Rightarrow> (Inr (), wu1)
             | Some a \<Rightarrow>
                 (case at_ptr (memory (fst wu1)) a of
                    Some (Service_mock_obj k) \<Rightarrow>
                      if sm_type k = service_type s
                      then (Inr (), (send_response a hdr rsp (fst wu1), snd wu1))
                      else (Inl (Undefined Bad_static_cast), wu1)
                  | _ \<Rightarrow> (Inl (Undefined Bad_static_cast), wu1))))"

text \<open>The test's entry: the mock at address \<open>a\<close> sends the response to itself.\<close>

definition mock_handle_request ::
  "(callback \<Rightarrow> ctrl \<Rightarrow> rmw_request_id \<Rightarrow> 'm \<Rightarrow> 'm world \<times> 'u
      \<Rightarrow> ('m world \<times> 'u, 'm option) res) \<Rightarrow> addr \<Rightarrow> 'm service_mock
     \<Rightarrow> rmw_request_id \<Rightarrow> 'm \<Rightarrow> 'm world \<times> 'u \<Rightarrow> ('m world \<times> 'u, unit) res" where
  "mock_handle_request dispatch a k hdr request wu =
     (case at_ptr (memory (fst wu)) (sm_service k) of
        Some (Service_obj s) \<Rightarrow>
          andthen (handle_request_typed dispatch (sm_service k) s hdr request wu)
            (\<lambda>response wu1. case response of
               None \<Rightarrow> (Inr (), wu1)
             | Some rsp \<Rightarrow> (Inr (), (send_response a hdr rsp (fst wu1), snd wu1)))
      | _ \<Rightarrow> (Inl (Undefined Dangling_pointer), wu))"

section \<open>Lookup by the test\<close>

definition strip_slash :: "string \<Rightarrow> string" where
  "strip_slash serviceName =
     (if serviceName \<noteq> [] \<and> hd serviceName = CHR ''/'' then drop 1 serviceName else serviceName)"

definition findService ::
  "ctrl \<Rightarrow> addr \<Rightarrow> tyname \<Rightarrow> ctrl \<Rightarrow> string \<Rightarrow> 'm world \<Rightarrow> ('m world, ctrl option) res" where
  "findService c a ServiceT node serviceName w =
     (let name = strip_slash serviceName;
          (service_base, w1) = getService (Some node) name w
      in case locked_ptr (memory w1) service_base of
           Some p \<Rightarrow>
             if lock (memory w1) (getMock p w1) \<noteq> None
             then (Inr None, print_cerr [Warn_attached ''findService''] w1)
             else (case new_ServiceMock ServiceT (Some p) w1 of
                     Inl e \<Rightarrow> (Inl e, w1)
                   | Inr k \<Rightarrow> (Inr (Some c), attachMock p (Some c)
                       (w1\<lparr>memory := new_shared c a (Service_mock_obj k) (memory w1)\<rparr>)))
         | None \<Rightarrow>
             (Inr None, dumpRegistry (Some node)
                (print_cerr [Not_found ''findService'' (nodeName (memory w1) (Some node)) name] w1)))"

section \<open>Properties\<close>

text \<open>C13: Both ways to deliver a request agree. When the mock at \<open>a\<close> is the one attached to the service
  and stays so while the user's callback runs, handing the request to the mock has the same
  outcome and the same effect as the executor handing it to the service.\<close>

theorem request_paths_agree:
  assumes svc: "at_ptr (memory (fst wu)) (sm_service k) = Some (Service_obj s)"
    and stays: "\<And>r wu'. handle_request_typed dispatch (sm_service k) s hdr req wu = (Inr (Some r), wu') \<Longrightarrow>
      locked_ptr (memory (fst wu')) (getMock (sm_service k) (fst wu')) = Some a \<and>
      (\<exists>k'. at_ptr (memory (fst wu')) a = Some (Service_mock_obj k') \<and> sm_type k' = service_type s)"
  shows "mock_handle_request dispatch a k hdr req wu = handle_request dispatch (sm_service k) s hdr req wu"
proof -
  obtain x wu' where run: "handle_request_typed dispatch (sm_service k) s hdr req wu = (x, wu')"
    by (rule prod.exhaust)
  show ?thesis
  proof (cases x)
    case (Inl e)
    with run svc show ?thesis by (simp add: mock_handle_request_def handle_request_def)
  next
    case (Inr r)
    show ?thesis
    proof (cases r)
      case None
      with run Inr svc show ?thesis by (simp add: mock_handle_request_def handle_request_def)
    next
      case (Some rsp)
      then have "handle_request_typed dispatch (sm_service k) s hdr req wu = (Inr (Some rsp), wu')"
        using run Inr by simp
      from stays [OF this] this svc show ?thesis
        by (auto simp: mock_handle_request_def handle_request_def)
    qed
  qed
qed

definition echo_world :: "nat world" where
  "echo_world = attachMock 20 (Some 7) (init_world\<lparr>memory := new_shared 7 70
     (Service_mock_obj \<lparr>sm_type = ''Add'', sm_service = 20, send_response_calls = []\<rparr>)
     (new_shared 2 20 (Service_obj \<lparr>service_type = ''Add'', service_name = ''/add'', service_node_id = Some 1,
        any_service_callback = Some 0\<rparr>) empty_mem)\<rparr>)"

theorem request_paths_agree_witness:
  "mock_handle_request (\<lambda>cb c h (m::nat) wu. (Inr (Some (m + 1)), wu)) 70
      \<lparr>sm_type = ''Add'', sm_service = 20, send_response_calls = []\<rparr> \<lparr>writer_guid = [], sequence_number = 1\<rparr> 41
      (echo_world, ()) =
   handle_request (\<lambda>cb c h m wu. (Inr (Some (m + 1)), wu)) 20
      \<lparr>service_type = ''Add'', service_name = ''/add'', service_node_id = Some 1, any_service_callback = Some 0\<rparr>
      \<lparr>writer_guid = [], sequence_number = 1\<rparr> 41 (echo_world, ())"
  using request_paths_agree [where wu = "(echo_world, ())" and a = 70
      and k = "\<lparr>sm_type = ''Add'', sm_service = 20, send_response_calls = []\<rparr>"
      and s = "\<lparr>service_type = ''Add'', service_name = ''/add'', service_node_id = Some 1, any_service_callback = Some 0\<rparr>"
      and dispatch = "\<lambda>cb c h m wu. (Inr (Some (m + 1)), wu)"]
  by (auto simp: echo_world_def at_ptr_def mocks.get_attach locked_ptr_def lock_def handle_request_typed_def
      shared_from_this_def)

text \<open>C29: The name round trip of services: what is registered under a service name is found under
  that name and under the name with or without one leading slash, as long as the name has no NUL
  character.\<close>

theorem service_name_roundtrip:
  assumes "CHR 0x00 \<notin> set name"
  shows "service_key name = strip_slash name
    \<and> (lock (memory w) (fst (getService n (strip_slash name) w)) = None \<longrightarrow>
       fst (getService n (strip_slash name) (registerService T n name e w)) = e
       \<and> (hd name \<noteq> CHR ''/'' \<longrightarrow> fst (getService n (strip_slash (CHR ''/'' # name)) (registerService T n name e w)) = e))"
proof -
  have "takeWhile (\<lambda>ch. ch \<noteq> CHR 0x00) ys = ys" if "set ys \<subseteq> set name" for ys
    using assms that by (simp add: takeWhile_eq_all_conv) blast
  from this [of "tl name"] this [of name] have key: "service_key name = strip_slash name"
    by (cases name) (auto simp: service_key_def strip_slash_def)
  then show ?thesis
    using srvs.registered_found [of w n name T e] by (auto simp: strip_slash_def split: if_splits)
qed

theorem service_name_roundtrip_witness:
  "fst (getService (Some 1) (strip_slash ''/add'') (registerService ''Add'' (Some 1) ''/add'' (Some 2) (init_world :: nat world))) = Some 2"
  using service_name_roundtrip [of "''/add''" "init_world :: nat world" "Some 1" "''Add''" "Some 2"]
  by (simp add: getService_def init_world_def empty_registry_def get_at_def omap_at_def findEntity_def)

text \<open>The comparison of request ids is equality of sequence number and writer, as GoogleMock's
  matchers on \<open>send_response\<close> need it.\<close>

lemma request_id_eq_correct: "request_id_eq lhs rhs \<longleftrightarrow> lhs = rhs"
  by (cases lhs; cases rhs) (auto simp: request_id_eq_def Let_def list_all2_eq list_all2_lengthD)

end
