(* ===== verification/Service_Client_Mock.thy ===== *)
theory Service_Client_Mock
  imports Service_Mock
begin

text \<open>
  \<open>rtest::ServiceClientMock\<close> and the substituted \<open>rclcpp::Client\<close> (service_client_mock.hpp): every
  request method of the client forwards to the attached mock, or falls back to a default. What an
  expectation of the mock does is the parameter \<open>act\<close>: the value it returns or the exception it
  throws for the recorded call.
\<close>

section \<open>The mock\<close>

definition new_ServiceClientMock :: "tyname \<Rightarrow> addr \<Rightarrow> 'm service_client_mock" where
  "new_ServiceClientMock ServiceT p = \<lparr>cm_type = ServiceT, cm_client = p, client_calls = []\<rparr>"

definition delete_ServiceClientMock :: "'m service_client_mock \<Rightarrow> 'm world \<Rightarrow> 'm world" where
  "delete_ServiceClientMock k w = detachMock (cm_client k) w"

fun record_client_call :: "'m client_call \<Rightarrow> 'm obj \<Rightarrow> 'm obj" where
  "record_client_call x (Service_client_mock_obj k) =
     Service_client_mock_obj (k\<lparr>client_calls := client_calls k @ [x]\<rparr>)"
| "record_client_call x y = y"

section \<open>The client\<close>

definition client_post_init_setup :: "service_client \<Rightarrow> weak_ptr \<Rightarrow> 'm world \<Rightarrow> 'm world" where
  "client_post_init_setup s this w =
     registerServiceClient (client_type s) (client_node_id s) (client_service_name s) this w"

definition make_shared_client :: "ctrl \<Rightarrow> addr \<Rightarrow> service_client \<Rightarrow> 'm world \<Rightarrow> 'm world" where
  "make_shared_client c a s w =
     client_post_init_setup s (Some c) (w\<lparr>memory := new_shared c a (Client_obj s) (memory w)\<rparr>)"

definition handle_response :: "rmw_request_id \<Rightarrow> 'm \<Rightarrow> 'm world \<Rightarrow> ('m world, unit) res" where
  "handle_response request_header response w = (Inl (Runtime_error ''not implemented''), w)"

text \<open>
  The shape all methods share: without an attached mock the outcome is \<open>fallback\<close>; with one, the
  call is recorded and the expectation's outcome returned.
\<close>

definition forward_to_client_mock ::
  "('m client_call \<Rightarrow> exn + 'r) \<Rightarrow> exn + 'r \<Rightarrow> addr \<Rightarrow> tyname \<Rightarrow> 'm client_call \<Rightarrow> 'm world
     \<Rightarrow> ('m world, 'r) res" where
  "forward_to_client_mock act fallback this ServiceT x w =
     (case locked_ptr (memory w) (getMock this w) of
        None \<Rightarrow> (fallback, w)
      | Some a \<Rightarrow> (case at_ptr (memory w) a of
            Some (Service_client_mock_obj k) \<Rightarrow>
              if cm_type k = ServiceT
              then (act x, w\<lparr>memory := modify a (record_client_call x) (memory w)\<rparr>)
              else (Inl (Undefined Bad_static_cast), w)
          | _ \<Rightarrow> (Inl (Undefined Bad_static_cast), w)))"

definition async_send_request ::
  "('m client_call \<Rightarrow> exn + 'f) \<Rightarrow> addr \<Rightarrow> tyname \<Rightarrow> 'm \<Rightarrow> 'm world \<Rightarrow> ('m world, 'f) res" where
  "async_send_request act this ServiceT request w =
     forward_to_client_mock act (Inl (Runtime_error ''No mock attached'')) this ServiceT
       (Async_send_request request) w"

definition async_send_request_cb ::
  "('m client_call \<Rightarrow> exn + 'f) \<Rightarrow> addr \<Rightarrow> tyname \<Rightarrow> 'm \<Rightarrow> callback \<Rightarrow> 'm world \<Rightarrow> ('m world, 'f) res" where
  "async_send_request_cb act this ServiceT request cb w =
     forward_to_client_mock act (Inl (Runtime_error ''No mock attached'')) this ServiceT
       (Async_send_request_with_callback request cb) w"

definition async_send_request_cb_req ::
  "('m client_call \<Rightarrow> exn + 'f) \<Rightarrow> addr \<Rightarrow> tyname \<Rightarrow> 'm \<Rightarrow> callback \<Rightarrow> 'm world \<Rightarrow> ('m world, 'f) res" where
  "async_send_request_cb_req act this ServiceT request cb w =
     forward_to_client_mock act (Inl (Runtime_error ''No mock attached'')) this ServiceT
       (Async_send_request_with_callback_and_request request cb) w"

definition remove_pending_request ::
  "('m client_call \<Rightarrow> exn + bool) \<Rightarrow> addr \<Rightarrow> tyname \<Rightarrow> int \<Rightarrow> 'm world \<Rightarrow> ('m world, bool) res" where
  "remove_pending_request act this ServiceT request_id w =
     forward_to_client_mock act (Inr False) this ServiceT (Remove_pending_request request_id) w"

text \<open>A future with the identity of its request (client_base.hpp), and the three overloads on it.\<close>

record 'f future_and_request_id =
  future :: 'f
  request_id :: int

definition remove_pending_request_future ::
  "('m client_call \<Rightarrow> exn + bool) \<Rightarrow> addr \<Rightarrow> tyname \<Rightarrow> 'f future_and_request_id \<Rightarrow> 'm world
     \<Rightarrow> ('m world, bool) res" where
  "remove_pending_request_future act this ServiceT f w =
     remove_pending_request act this ServiceT (request_id f) w"

definition prune_pending_requests ::
  "('m client_call \<Rightarrow> exn + size_t) \<Rightarrow> addr \<Rightarrow> tyname \<Rightarrow> 'm world \<Rightarrow> ('m world, size_t) res" where
  "prune_pending_requests act this ServiceT w =
     forward_to_client_mock act (Inr 0) this ServiceT Prune_pending_requests w"

text \<open>
  The mock is handed a vector (or a null pointer) and leaves it changed: \<open>act v\<close> is the outcome
  for the vector \<open>v\<close>, with the vector afterwards. With a custom allocator a local vector is
  passed instead and its contents appended.
\<close>

definition prune_requests_older_than ::
  "(int list option \<Rightarrow> 'm client_call \<Rightarrow> exn + size_t \<times> int list option) \<Rightarrow> bool \<Rightarrow> addr \<Rightarrow> tyname
     \<Rightarrow> int \<Rightarrow> int list option \<Rightarrow> 'm world \<Rightarrow> ('m world, size_t \<times> int list option) res" where
  "prune_requests_older_than act std_allocator this ServiceT time_point pruned_requests w =
     (case pruned_requests of
        None \<Rightarrow>
          forward_to_client_mock (act None) (Inr (0, None)) this ServiceT
            (Prune_requests_older_than time_point) w
      | Some v \<Rightarrow>
          if std_allocator then
            forward_to_client_mock (act (Some v)) (Inr (0, Some v)) this ServiceT
              (Prune_requests_older_than time_point) w
          else
            andthen (forward_to_client_mock (act (Some [])) (Inr (0, Some [])) this ServiceT
                       (Prune_requests_older_than time_point) w)
              (\<lambda>(count, pruned) w1. (Inr (count, map_option (\<lambda>ids. v @ ids) pruned), w1)))"

definition service_is_ready ::
  "('m client_call \<Rightarrow> exn + bool) \<Rightarrow> addr \<Rightarrow> tyname \<Rightarrow> 'm world \<Rightarrow> ('m world, bool) res" where
  "service_is_ready act this ServiceT w =
     forward_to_client_mock act (Inr False) this ServiceT Service_is_ready w"

definition wait_for_service ::
  "('m client_call \<Rightarrow> exn + bool) \<Rightarrow> addr \<Rightarrow> tyname \<Rightarrow> int \<Rightarrow> 'm world \<Rightarrow> ('m world, bool) res" where
  "wait_for_service act this ServiceT timeout w =
     forward_to_client_mock act (Inr False) this ServiceT (Wait_for_service timeout) w"

section \<open>Lookup by the test\<close>

definition findServiceClient ::
  "ctrl \<Rightarrow> addr \<Rightarrow> tyname \<Rightarrow> ctrl \<Rightarrow> string \<Rightarrow> 'm world \<Rightarrow> ('m world, ctrl option) res" where
  "findServiceClient c a ServiceT node serviceName w =
     (let name = strip_slash serviceName;
          (client_base, w1) = getServiceClient (Some node) name w
      in case locked_ptr (memory w1) client_base of
           Some p \<Rightarrow>
             if lock (memory w1) (getMock p w1) \<noteq> None
             then (Inr None, print_cerr [Warn_attached ''findServiceClient''] w1)
             else (Inr (Some c), attachMock p (Some c)
                    (w1\<lparr>memory := new_shared c a
                          (Service_client_mock_obj (new_ServiceClientMock ServiceT p)) (memory w1)\<rparr>))
         | None \<Rightarrow>
             (Inr None, dumpRegistry (Some node)
                (print_cerr [Not_found ''findServiceClient'' (nodeName (memory w1) (Some node)) name] w1)))"

section \<open>Properties\<close>

text \<open>A vector with a custom allocator is served like one with the standard allocator: provided the
  expectation appends the same ids to whatever vector it is given, count, ids and the recorded
  call are the same, although the mock then sees a local vector.\<close>

lemma prune_allocator_irrelevant:
  assumes "\<And>v. act (Some v) (Prune_requests_older_than t) = Inr (count, Some (v @ ids))"
  shows "prune_requests_older_than act False this T t (Some v) w =
    prune_requests_older_than act True this T t (Some v) w"
  using assms
  by (auto simp: prune_requests_older_than_def forward_to_client_mock_def split: option.split obj.split)

text \<open>With a mock of the client's type attached, any sequence of forwarded calls is recorded by the
  mock in order, each returns what the expectation says for it, and the mock stays attached.\<close>

lemma client_calls_recorded:
  assumes "locked_ptr (memory w) (getMock this w) = Some a"
    and "at_ptr (memory w) a = Some (Service_client_mock_obj k)" and "cm_type k = T"
  shows "at_ptr (memory (fold (\<lambda>x v. snd (forward_to_client_mock act fallback this T x v)) xs w)) a =
      Some (Service_client_mock_obj (k\<lparr>client_calls := client_calls k @ xs\<rparr>))
    \<and> locked_ptr (memory (fold (\<lambda>x v. snd (forward_to_client_mock act fallback this T x v)) xs w))
        (getMock this (fold (\<lambda>x v. snd (forward_to_client_mock act fallback this T x v)) xs w)) = Some a
    \<and> fst (forward_to_client_mock act fallback this T x (fold (\<lambda>x v. snd (forward_to_client_mock act fallback this T x v)) xs w)) = act x"
  using assms
proof (induction xs arbitrary: w k)
  case Nil
  then show ?case by (simp add: forward_to_client_mock_def)
next
  case (Cons y ys)
  let ?v = "w\<lparr>memory := modify a (record_client_call y) (memory w)\<rparr>"
  have step: "snd (forward_to_client_mock act fallback this T y w) = ?v"
    using Cons.prems by (simp add: forward_to_client_mock_def)
  have "locked_ptr (memory ?v) (getMock this ?v) = Some a" using Cons.prems(1) by simp
  moreover have "at_ptr (memory ?v) a = Some (Service_client_mock_obj (k\<lparr>client_calls := client_calls k @ [y]\<rparr>))"
    using Cons.prems(2) by (simp add: modify_at_ptr)
  ultimately show ?case
    using Cons.IH [of ?v "k\<lparr>client_calls := client_calls k @ [y]\<rparr>"] Cons.prems(3) by (simp add: step)
qed

end
