(* ===== verification/Action_Client_Mock.thy ===== *)
theory Action_Client_Mock
  imports Service_Client_Mock
begin

text \<open>
  \<open>rclcpp_action::ClientGoalHandle\<close>, the substituted \<open>rclcpp_action::Client\<close> and
  \<open>rtest::experimental::ActionClientMock\<close> (action_client_mock.hpp). A client registers itself
  lazily: its constructor only queues a callback, because \<open>shared_from_this\<close> works no earlier
  than the first \<open>shared_ptr\<close> to it. Expectations on the mock (\<open>act\<close>) and user callbacks (\<open>call\<close>)
  are parameters.
\<close>

text \<open>A \<open>std::shared_future\<close>: without a state, without a value yet, or with its value.\<close>

datatype 'v fut = No_state | Pending | Ready 'v

fun valid :: "'v fut \<Rightarrow> bool" where
  "valid No_state = False"
| "valid _ = True"

section \<open>Goal handles\<close>

text \<open>
  \<open>goal_id_\<close> has no initialiser: \<open>garbage\<close> is the indeterminate value it starts with.
\<close>

definition makeClientGoalHandle :: "goal_uuid \<Rightarrow> 'm client_goal_handle" where
  "makeClientGoalHandle garbage =
     \<lparr>feedback_callback = None, result_callback = None, goal_id = garbage, time_stamp = 0,
      status = 0, result_aware = False, result_promise = None\<rparr>"

definition makeClientGoalHandleFuture :: "ctrl option \<Rightarrow> ctrl option fut" where
  "makeClientGoalHandleFuture goal_handle = Ready goal_handle"

definition is_feedback_aware :: "'m client_goal_handle \<Rightarrow> bool" where
  "is_feedback_aware h \<longleftrightarrow> feedback_callback h \<noteq> None"

text \<open>The future shares the state of the promise.\<close>

definition handle_result_future :: "'m client_goal_handle \<Rightarrow> 'm wrapped_result fut" where
  "handle_result_future h = (case result_promise h of None \<Rightarrow> Pending | Some r \<Rightarrow> Ready r)"

definition handle_async_get_result ::
  "'m client_goal_handle \<Rightarrow> 'm wrapped_result fut \<times> 'm client_goal_handle" where
  "handle_async_get_result h = (handle_result_future h, h\<lparr>result_aware := True\<rparr>)"

definition set_result_awareness :: "bool \<Rightarrow> 'm client_goal_handle \<Rightarrow> bool \<times> 'm client_goal_handle" where
  "set_result_awareness aware h = (result_aware h, h\<lparr>result_aware := aware\<rparr>)"

definition set_result_callback :: "callback \<Rightarrow> 'm client_goal_handle \<Rightarrow> 'm client_goal_handle" where
  "set_result_callback cb h = h\<lparr>result_callback := cb\<rparr>"

definition set_feedback_callback :: "callback \<Rightarrow> 'm client_goal_handle \<Rightarrow> 'm client_goal_handle" where
  "set_feedback_callback cb h = h\<lparr>feedback_callback := cb\<rparr>"

text \<open>\<open>promise::set_value\<close> throws when the value was set before.\<close>

definition set_value :: "'m wrapped_result \<Rightarrow> 'm client_goal_handle
    \<Rightarrow> ('m client_goal_handle, unit) res" where
  "set_value wr h = (case result_promise h of
      None \<Rightarrow> (Inr (), h\<lparr>result_promise := Some wr\<rparr>)
    | Some _ \<Rightarrow> (Inl (Future_error ''promise_already_satisfied''), h))"

definition resolve_result ::
  "(nat \<Rightarrow> 'm wrapped_result \<Rightarrow> 'u \<Rightarrow> ('u, unit) res) \<Rightarrow> 'm wrapped_result
     \<Rightarrow> 'm client_goal_handle \<times> 'u \<Rightarrow> ('m client_goal_handle \<times> 'u, unit) res" where
  "resolve_result call wr hu =
     andthen (case result_callback (fst hu) of
                None \<Rightarrow> (Inr (), hu)
              | Some f \<Rightarrow> (case call f wr (snd hu) of (r, u) \<Rightarrow> (r, (fst hu, u))))
       (\<lambda>_ hu1. case set_value wr (fst hu1) of (r, h) \<Rightarrow> (r, (h, snd hu1)))"

fun on_goal_handle :: "('m client_goal_handle \<Rightarrow> 'm client_goal_handle) \<Rightarrow> 'm obj \<Rightarrow> 'm obj" where
  "on_goal_handle f (Goal_handle_obj h) = Goal_handle_obj (f h)"
| "on_goal_handle f x = x"

section \<open>The options of a goal\<close>

definition SendGoalOptions :: send_goal_options where
  "SendGoalOptions = \<lparr>goal_response_cb = None, feedback_cb = None, result_cb = None\<rparr>"

text \<open>The feedback callback is given a null goal handle.\<close>

definition call_feedback_callback ::
  "(nat \<Rightarrow> ctrl option \<Rightarrow> 'm \<Rightarrow> 'u \<Rightarrow> ('u, unit) res) \<Rightarrow> send_goal_options \<Rightarrow> 'm \<Rightarrow> 'u \<Rightarrow> ('u, unit) res" where
  "call_feedback_callback call opts feedback u = (case feedback_cb opts of
      None \<Rightarrow> (Inr (), u)
    | Some f \<Rightarrow> call f None feedback u)"

section \<open>The client: lifetime and registration\<close>

definition new_action_client :: "addr \<Rightarrow> action_client \<Rightarrow> string \<Rightarrow> 'm world \<Rightarrow> 'm world" where
  "new_action_client this s fq_name w =
     registerLazyInitClient this fq_name (aclient_action_name s) (Post_init_setup this)
       (w\<lparr>memory := construct this (Action_client_obj s) (memory w)\<rparr>)"

definition delete_action_client :: "addr \<Rightarrow> 'm world \<Rightarrow> 'm world" where
  "delete_action_client this w = removeLazyInitClient this w"

definition action_client_post_init_setup :: "closure \<Rightarrow> 'm world \<Rightarrow> ('m world, unit) res" where
  "action_client_post_init_setup f w = (case f of Post_init_setup this \<Rightarrow>
     (case at_ptr (memory w) this of
        Some (Action_client_obj s) \<Rightarrow>
          (case shared_from_this (memory w) this of
             Inl e \<Rightarrow> (Inl e, w)
           | Inr c \<Rightarrow> (Inr (), registerActionClient (aclient_type s) (aclient_node s)
                                (aclient_action_name s) (Some c) w))
      | _ \<Rightarrow> (Inl (Undefined Dangling_pointer), w)))"

section \<open>The client: methods\<close>

fun record_action_call :: "'m action_call \<Rightarrow> 'm obj \<Rightarrow> 'm obj" where
  "record_action_call x (Action_client_mock_obj k) =
     Action_client_mock_obj (k\<lparr>action_calls := action_calls k @ [x]\<rparr>)"
| "record_action_call x y = y"

definition forward_to_action_mock ::
  "('m action_call \<Rightarrow> exn + 'r) \<Rightarrow> ('m world \<Rightarrow> ('m world, 'r) res) \<Rightarrow> addr \<Rightarrow> tyname \<Rightarrow> 'm action_call
     \<Rightarrow> 'm world \<Rightarrow> ('m world, 'r) res" where
  "forward_to_action_mock act fallback this ActionT x w =
     (case locked_ptr (memory w) (getMock this w) of
        None \<Rightarrow> fallback w
      | Some a \<Rightarrow> (case at_ptr (memory w) a of
            Some (Action_client_mock_obj k) \<Rightarrow>
              if am_type k = ActionT
              then (act x, w\<lparr>memory := modify a (record_action_call x) (memory w)\<rparr>)
              else (Inl (Undefined Bad_static_cast), w)
          | _ \<Rightarrow> (Inl (Undefined Bad_static_cast), w)))"

definition action_server_is_ready ::
  "('m action_call \<Rightarrow> exn + bool) \<Rightarrow> addr \<Rightarrow> tyname \<Rightarrow> 'm world \<Rightarrow> ('m world, bool) res" where
  "action_server_is_ready act this ActionT w =
     forward_to_action_mock act (Pair (Inr False)) this ActionT Action_server_is_ready w"

text \<open>
  The result callback is stored in the goal handle first; without a mock the future is ready with
  a default result (\<open>blank\<close>) whose goal id is not initialised (\<open>garbage\<close>).
\<close>

definition async_get_result ::
  "('m action_call \<Rightarrow> exn + 'm wrapped_result fut) \<Rightarrow> 'm \<Rightarrow> goal_uuid \<Rightarrow> addr \<Rightarrow> tyname
     \<Rightarrow> ctrl option \<Rightarrow> callback \<Rightarrow> 'm world \<Rightarrow> ('m world, 'm wrapped_result fut) res" where
  "async_get_result act blank garbage this ActionT goal_handle cb w =
     andthen
       (case cb of None \<Rightarrow> (Inr (), w)
        | Some f \<Rightarrow> (case locked_ptr (memory w) goal_handle of
              None \<Rightarrow> (Inl (Undefined Null_dereference), w)
            | Some h \<Rightarrow> (Inr (), w\<lparr>memory := modify h (on_goal_handle (set_result_callback cb)) (memory w)\<rparr>)))
       (\<lambda>_ w1. forward_to_action_mock act
          (Pair (Inr (Ready \<lparr>code = SUCCEEDED, result = Some blank, result_goal_id = garbage\<rparr>)))
          this ActionT (Async_get_result goal_handle cb) w1)"

text \<open>An expectation that returns an invalid future, or no mock: the goal is rejected.\<close>

definition async_send_goal ::
  "('m action_call \<Rightarrow> exn + ctrl option fut) \<Rightarrow> addr \<Rightarrow> tyname \<Rightarrow> 'm \<Rightarrow> send_goal_options \<Rightarrow> 'm world
     \<Rightarrow> ('m world, ctrl option fut) res" where
  "async_send_goal act this ActionT goal options w =
     andthen (forward_to_action_mock act (Pair (Inr No_state)) this ActionT
                (Async_send_goal goal options) w)
       (\<lambda>f w1. (Inr (if valid f then f else makeClientGoalHandleFuture None), w1))"

definition async_cancel_all_goals ::
  "('m action_call \<Rightarrow> exn + 'm fut) \<Rightarrow> 'm \<Rightarrow> addr \<Rightarrow> tyname \<Rightarrow> callback \<Rightarrow> 'm world
     \<Rightarrow> ('m world, 'm fut) res" where
  "async_cancel_all_goals act blank this ActionT cb w =
     forward_to_action_mock act (Pair (Inr (Ready blank))) this ActionT (Async_cancel_all_goals cb) w"

definition async_cancel_goal ::
  "('m action_call \<Rightarrow> exn + 'm fut) \<Rightarrow> 'm \<Rightarrow> addr \<Rightarrow> tyname \<Rightarrow> ctrl option \<Rightarrow> callback \<Rightarrow> 'm world
     \<Rightarrow> ('m world, 'm fut) res" where
  "async_cancel_goal act blank this ActionT goal_handle cb w =
     forward_to_action_mock act (Pair (Inr (Ready blank))) this ActionT
       (Async_cancel_goal goal_handle cb) w"

definition async_cancel_goals_before ::
  "('m action_call \<Rightarrow> exn + 'm fut) \<Rightarrow> 'm \<Rightarrow> addr \<Rightarrow> tyname \<Rightarrow> int \<Rightarrow> callback \<Rightarrow> 'm world
     \<Rightarrow> ('m world, 'm fut) res" where
  "async_cancel_goals_before act blank this ActionT stamp cb w =
     forward_to_action_mock act (Pair (Inr (Ready blank))) this ActionT
       (Async_cancel_goals_before stamp cb) w"

fun erase_goal :: "goal_uuid \<Rightarrow> 'm obj \<Rightarrow> 'm obj" where
  "erase_goal g (Action_client_obj s) = Action_client_obj (s\<lparr>goal_handles := omap_erase g (goal_handles s)\<rparr>)"
| "erase_goal g x = x"

text \<open>
  \<open>stop_callbacks(goal_handle)\<close> without a mock: the null check guards only the two setters, not
  the access to the goal id after it.
\<close>

definition stop_callbacks_unmocked :: "addr \<Rightarrow> ctrl option \<Rightarrow> 'm world \<Rightarrow> ('m world, unit) res" where
  "stop_callbacks_unmocked this goal_handle w =
     (let clear = (\<lambda>h. set_result_callback None (set_feedback_callback None h));
          w1 = (case locked_ptr (memory w) goal_handle of
                  Some h \<Rightarrow> w\<lparr>memory := modify h (on_goal_handle clear) (memory w)\<rparr>
                | None \<Rightarrow> w)
      in case locked_obj (memory w1) goal_handle of
           Some (Goal_handle_obj h) \<Rightarrow>
             (Inr (), w1\<lparr>memory := modify this (erase_goal (goal_id h)) (memory w1)\<rparr>)
         | _ \<Rightarrow> (Inl (Undefined Null_dereference), w1))"

definition stop_callbacks ::
  "('m action_call \<Rightarrow> exn + unit) \<Rightarrow> addr \<Rightarrow> tyname \<Rightarrow> ctrl option \<Rightarrow> 'm world \<Rightarrow> ('m world, unit) res" where
  "stop_callbacks act this ActionT goal_handle w =
     forward_to_action_mock act (stop_callbacks_unmocked this goal_handle) this ActionT
       (Stop_callbacks goal_handle) w"

definition stop_callbacks_id ::
  "('m action_call \<Rightarrow> exn + unit) \<Rightarrow> addr \<Rightarrow> tyname \<Rightarrow> goal_uuid \<Rightarrow> 'm world \<Rightarrow> ('m world, unit) res" where
  "stop_callbacks_id act this ActionT g w =
     forward_to_action_mock act
       (\<lambda>w. let found = (case at_ptr (memory w) this of
                 Some (Action_client_obj s) \<Rightarrow> findEntity (goal_handles s) g None
               | _ \<Rightarrow> None)
            in case lock (memory w) found of
                 Some c \<Rightarrow> stop_callbacks act this ActionT (Some c) w
               | None \<Rightarrow> (Inr (), w))
       this ActionT (Stop_callbacks_id g) w"

text \<open>The timeout is a count of ticks of \<open>tick_ns\<close> nanoseconds; the cast, made only for a mock, can overflow.\<close>

definition wait_for_action_server ::
  "('m action_call \<Rightarrow> exn + bool) \<Rightarrow> addr \<Rightarrow> tyname \<Rightarrow> int \<Rightarrow> int \<Rightarrow> 'm world \<Rightarrow> ('m world, bool) res" where
  "wait_for_action_server act this ActionT tick_ns timeout w =
     (if locked_ptr (memory w) (getMock this w) = None then (Inr True, w)
      else case checked64 (timeout * tick_ns) of
        Inl e \<Rightarrow> (Inl e, w)
      | Inr ns \<Rightarrow> forward_to_action_mock act (Pair (Inr True)) this ActionT (Wait_for_action_server ns) w)"

section \<open>The mock and the lookup\<close>

definition new_ActionClientMock :: "tyname \<Rightarrow> addr \<Rightarrow> 'm action_client_mock" where
  "new_ActionClientMock ActionT p = \<lparr>am_type = ActionT, am_client = p, action_calls = []\<rparr>"

definition delete_ActionClientMock :: "'m action_client_mock \<Rightarrow> 'm world \<Rightarrow> 'm world" where
  "delete_ActionClientMock k w = detachMock (am_client k) w"

text \<open>The conveniences of the mock; its own \<open>wait_for_action_server\<close> converts the duration before the mocked call.\<close>

definition mock_wait_for_action_server ::
  "('m action_call \<Rightarrow> exn + bool) \<Rightarrow> addr \<Rightarrow> int \<Rightarrow> int \<Rightarrow> 'm world \<Rightarrow> ('m world, bool) res" where
  "mock_wait_for_action_server act this tick_ns timeout w =
     (case checked64 (timeout * tick_ns) of
        Inl e \<Rightarrow> (Inl e, w)
      | Inr ns \<Rightarrow> (act (Wait_for_action_server ns),
          w\<lparr>memory := modify this (record_action_call (Wait_for_action_server ns)) (memory w)\<rparr>))"

definition mock_makeClientGoalHandle :: "goal_uuid \<Rightarrow> 'm client_goal_handle" where
  "mock_makeClientGoalHandle garbage = makeClientGoalHandle garbage"

definition mock_makeClientGoalHandleFuture :: "ctrl option \<Rightarrow> ctrl option fut" where
  "mock_makeClientGoalHandleFuture goal_handle = makeClientGoalHandleFuture goal_handle"

definition ReturnGoalHandleFuture :: "ctrl option \<Rightarrow> ctrl option fut" where
  "ReturnGoalHandleFuture goal_handle = Ready goal_handle"

text \<open>\<open>simulate_result\<close> ignores a null handle.\<close>

definition simulate_result ::
  "(nat \<Rightarrow> 'm wrapped_result \<Rightarrow> 'u \<Rightarrow> ('u, unit) res) \<Rightarrow> 'm wrapped_result
     \<Rightarrow> 'm client_goal_handle option \<times> 'u \<Rightarrow> ('m client_goal_handle option \<times> 'u, unit) res" where
  "simulate_result call wr hu = (case fst hu of
      None \<Rightarrow> (Inr (), hu)
    | Some h \<Rightarrow> (case resolve_result call wr (h, snd hu) of (r, (h1, u1)) \<Rightarrow> (r, (Some h1, u1))))"

definition findActionClient ::
  "ctrl \<Rightarrow> addr \<Rightarrow> tyname \<Rightarrow> ctrl \<Rightarrow> string \<Rightarrow> 'm world \<Rightarrow> ('m world, ctrl option) res" where
  "findActionClient c a ActionT node actionName w =
     andthen (getActionClient action_client_post_init_setup (Some node) actionName w)
       (\<lambda>client_base w1. case locked_ptr (memory w1) client_base of
          Some p \<Rightarrow>
            if lock (memory w1) (getMock p w1) \<noteq> None
            then (Inr None, print_cerr [Warn_attached ''findActionClient''] w1)
            else (Inr (Some c), attachMock p (Some c)
                   (w1\<lparr>memory := new_shared c a
                         (Action_client_mock_obj (new_ActionClientMock ActionT p)) (memory w1)\<rparr>))
        | None \<Rightarrow> (Inr None, w1))"

section \<open>Properties\<close>

text \<open>Resolving a goal. The first \<open>resolve_result\<close> whose callback returns makes the result future
  ready with that result; a second one runs the callback again but throws a \<open>future_error\<close>, and
  the future keeps the first result.\<close>

lemma resolve_result_once:
  assumes "result_promise h = None" and "resolve_result call wr (h, u) = (Inr (), (h1, u1))"
    and "\<And>f v. fst (call f wr2 v) = Inr ()"
  shows "handle_result_future h1 = Ready wr
    \<and> (\<exists>h2 u2. resolve_result call wr2 (h1, u1) = (Inl (Future_error ''promise_already_satisfied''), (h2, u2))
         \<and> handle_result_future h2 = Ready wr
         \<and> u2 = (case result_callback h of None \<Rightarrow> u1 | Some f \<Rightarrow> snd (call f wr2 u1)))"
proof -
  have h1: "h1 = h\<lparr>result_promise := Some wr\<rparr>"
    using assms(1,2)
    by (auto simp: resolve_result_def andthen_def set_value_def split: option.splits sum.splits prod.splits)
  show ?thesis
  proof (cases "result_callback h")
    case None
    then show ?thesis by (simp add: h1 resolve_result_def set_value_def handle_result_future_def)
  next
    case (Some f)
    obtain u2 where "call f wr2 u1 = (Inr (), u2)" using assms(3) [of f u1] by (cases "call f wr2 u1") auto
    with Some show ?thesis by (simp add: h1 resolve_result_def set_value_def handle_result_future_def)
  qed
qed

definition ok_result :: "nat wrapped_result" where
  "ok_result = \<lparr>code = SUCCEEDED, result = Some 8, result_goal_id = []\<rparr>"

text \<open>\<open>stop_callbacks\<close> without a mock detaches a live goal handle: afterwards neither feedback nor
  result callback is set, so resolving the goal runs no user code and only fulfils the promise.\<close>

lemma stop_callbacks_detaches:
  assumes "lock (memory w) (getMock this w) = None" and "locked_ptr (memory w) g = Some p" and "p \<noteq> this"
    and "at_ptr (memory w) p = Some (Goal_handle_obj h)"
  shows "\<exists>w' h'. stop_callbacks act this T g w = (Inr (), w') \<and> at_ptr (memory w') p = Some (Goal_handle_obj h')
    \<and> \<not> is_feedback_aware h' \<and> goal_id h' = goal_id h
    \<and> (\<forall>call wr u. snd (snd (resolve_result call wr (h', u))) = u
         \<and> fst (resolve_result call wr (h', u)) = fst (set_value wr h))"
  using assms
  by (auto simp: stop_callbacks_def forward_to_action_mock_def stop_callbacks_unmocked_def lock_locked_ptr
      locked_obj_def modify_at_ptr set_result_callback_def set_feedback_callback_def resolve_result_def set_value_def
      is_feedback_aware_def split: option.split)

definition goal_world :: "nat world" where
  "goal_world = init_world\<lparr>memory := new_shared 5 50
     (Goal_handle_obj ((makeClientGoalHandle [1])\<lparr>result_callback := Some 3\<rparr>)) empty_mem\<rparr>"

text \<open>For a null handle the check in \<open>stop_callbacks\<close> guards only the two setters: without a mock the
  goal id is then read through the null pointer.\<close>

lemma stop_callbacks_null:
  assumes "lock (memory w) (getMock this w) = None"
  shows "stop_callbacks act this T None w = (Inl (Undefined Null_dereference), w)"
  using assms
  by (simp add: stop_callbacks_def forward_to_action_mock_def stop_callbacks_unmocked_def lock_locked_ptr
      locked_obj_def locked_ptr_def)

text \<open>\<open>async_send_goal\<close> never hands out a future without a state: with no mock, or when the
  expectation returns a default-constructed future, the goal is rejected by a ready null handle.\<close>

lemma async_send_goal_valid:
  "case fst (async_send_goal act this T goal options w) of
     Inr f \<Rightarrow> valid f \<and> (lock (memory w) (getMock this w) = None \<longrightarrow> f = Ready None) | Inl e \<Rightarrow> True"
  by (auto simp: async_send_goal_def forward_to_action_mock_def andthen_def makeClientGoalHandleFuture_def
      lock_locked_ptr split: option.splits obj.splits sum.splits prod.splits if_splits)

end
