(* ===== verification/Action_Server_Mock.thy ===== *)
theory Action_Server_Mock
  imports Action_Client_Mock
begin

text \<open>
  \<open>rclcpp_action::ServerGoalHandle\<close> with its GoogleMock subclass, the substituted
  \<open>rclcpp_action::Server\<close> and \<open>rtest::experimental::ActionServerMock\<close> (action_server_mock.hpp). The
  server registers itself lazily, like the action client.
\<close>

section \<open>Goal handles\<close>

text \<open>
  A handle is a plain \<open>ServerGoalHandle\<close> or a \<open>GoalHandleMock\<close>. A virtual method called through a
  base pointer reaches the mock; \<open>get_goal\<close> and \<open>get_goal_id\<close> are not virtual, so the base members
  answer even for a mock.
\<close>

datatype 'm handle_call =
    Publish_feedback 'm
  | Succeed 'm
  | Abort 'm
  | Canceled 'm
  | Execute

record 'm server_goal_handle =
  sgoal :: "'m option"
  suuid :: goal_uuid
  canceling :: bool
  executing :: bool
  is_mock :: bool
  handle_calls :: "'m handle_call list"

definition new_ServerGoalHandle :: "'m option \<Rightarrow> 'm server_goal_handle" where
  "new_ServerGoalHandle goal = \<lparr>sgoal = goal, suuid = replicate 16 0, canceling = False,
     executing = False, is_mock = False, handle_calls = []\<rparr>"

definition createMockGoalHandle :: "'m option \<Rightarrow> 'm server_goal_handle" where
  "createMockGoalHandle goal = (new_ServerGoalHandle goal)\<lparr>is_mock := True\<rparr>"

definition is_canceling :: "bool \<Rightarrow> 'm server_goal_handle \<Rightarrow> bool" where
  "is_canceling act h = (if is_mock h then act else canceling h)"

definition is_active :: "bool \<Rightarrow> 'm server_goal_handle \<Rightarrow> bool" where
  "is_active act h = (if is_mock h then act else \<not> canceling h)"

definition is_executing :: "bool \<Rightarrow> 'm server_goal_handle \<Rightarrow> bool" where
  "is_executing act h = (if is_mock h then act else executing h)"

definition set_canceling :: "bool \<Rightarrow> 'm server_goal_handle \<Rightarrow> 'm server_goal_handle" where
  "set_canceling b h = h\<lparr>canceling := b\<rparr>"

definition set_executing :: "bool \<Rightarrow> 'm server_goal_handle \<Rightarrow> 'm server_goal_handle" where
  "set_executing b h = h\<lparr>executing := b\<rparr>"

definition set_goal :: "'m option \<Rightarrow> 'm server_goal_handle \<Rightarrow> 'm server_goal_handle" where
  "set_goal g h = h\<lparr>sgoal := g\<rparr>"

definition set_goal_id :: "goal_uuid \<Rightarrow> 'm server_goal_handle \<Rightarrow> 'm server_goal_handle" where
  "set_goal_id u h = h\<lparr>suuid := u\<rparr>"

text \<open>The five reporting methods: the base class ignores them, the mock records them.\<close>

definition report :: "'m handle_call \<Rightarrow> 'm server_goal_handle \<Rightarrow> 'm server_goal_handle" where
  "report x h = (if is_mock h then h\<lparr>handle_calls := handle_calls h @ [x]\<rparr> else h)"

definition get_goal_id :: "'m server_goal_handle \<Rightarrow> goal_uuid" where
  "get_goal_id h = suuid h"

definition get_goal :: "'m server_goal_handle \<Rightarrow> 'm option" where
  "get_goal h = sgoal h"

section \<open>The server\<close>

definition new_action_server :: "addr \<Rightarrow> action_server \<Rightarrow> string \<Rightarrow> 'm world \<Rightarrow> 'm world" where
  "new_action_server this s fq_name w =
     registerLazyInitServer this fq_name (server_action_name s) (Post_init_setup this)
       (w\<lparr>memory := construct this (Action_server_obj s) (memory w)\<rparr>)"

definition delete_action_server :: "addr \<Rightarrow> 'm world \<Rightarrow> 'm world" where
  "delete_action_server this w = removeLazyInitServer this w"

definition action_server_post_init_setup :: "closure \<Rightarrow> 'm world \<Rightarrow> ('m world, unit) res" where
  "action_server_post_init_setup f w = (case f of Post_init_setup this \<Rightarrow>
     (case at_ptr (memory w) this of
        Some (Action_server_obj s) \<Rightarrow>
          (case shared_from_this (memory w) this of
             Inl e \<Rightarrow> (Inl e, w)
           | Inr c \<Rightarrow> (Inr (), registerActionServer (server_type s) (server_node s)
                                (server_action_name s) (Some c) w))
      | _ \<Rightarrow> (Inl (Undefined Dangling_pointer), w)))"

section \<open>The mock and the lookup\<close>

definition new_ActionServerMock :: "tyname \<Rightarrow> addr option \<Rightarrow> 'm world \<Rightarrow> exn + action_server_mock" where
  "new_ActionServerMock ActionT server w =
     (case server of
        None \<Rightarrow> Inl (Invalid_argument ''ActionServerMock error: server is null'')
      | Some p \<Rightarrow>
          (case at_ptr (memory w) p of
             None \<Rightarrow> Inl (Undefined Dangling_pointer)
           | Some (Action_server_obj s) \<Rightarrow>
               if server_type s = ActionT
               then Inr \<lparr>vm_type = ActionT, vm_server = p, goal_callback = handle_goal s,
                         cancel_callback = handle_cancel s, accepted_callback = handle_accepted s\<rparr>
               else Inl (Invalid_argument ''ActionServerMock error: server is type with invalid ActionT type'')
           | Some _ \<Rightarrow>
               Inl (Invalid_argument ''ActionServerMock error: server is type with invalid ActionT type'')))"

definition delete_ActionServerMock :: "action_server_mock \<Rightarrow> 'm world \<Rightarrow> 'm world" where
  "delete_ActionServerMock k w = detachMock (vm_server k) w"

definition findActionServer ::
  "ctrl \<Rightarrow> addr \<Rightarrow> tyname \<Rightarrow> ctrl \<Rightarrow> string \<Rightarrow> 'm world \<Rightarrow> ('m world, ctrl option) res" where
  "findActionServer c a ActionT node actionName w =
     andthen (getActionServer action_server_post_init_setup (Some node) actionName w)
       (\<lambda>server_base w1. case locked_ptr (memory w1) server_base of
          Some p \<Rightarrow>
            if lock (memory w1) (getMock p w1) \<noteq> None
            then (Inr None, print_cerr [Warn_attached ''findActionServer''] w1)
            else (case new_ActionServerMock ActionT (Some p) w1 of
                    Inl e \<Rightarrow> (Inl e, w1)
                  | Inr k \<Rightarrow> (Inr (Some c), attachMock p (Some c)
                      (w1\<lparr>memory := new_shared c a (Action_server_mock_obj k) (memory w1)\<rparr>)))
        | None \<Rightarrow> (Inr None, w1))"

end
