(* ===== verification/Timer_Mock.thy ===== *)
theory Timer_Mock
  imports Static_Registry
begin

text \<open>
  Timer creation (create_timer_mock.hpp): the checked conversion of a period to nanoseconds, the
  overloads of \<open>create_timer\<close> and \<open>create_wall_timer\<close> with their registration, and \<open>findTimers\<close>.

  A duration is a count of ticks of \<open>k\<close> nanoseconds, for the standard duration types with a 64-bit
  integer count and a period of whole nanoseconds. The overflow guard compares in \<open>double\<close>, so the
  rounding of integers to IEEE binary64 (nearest, ties to even) is modelled exactly.
  \<open>add_timer\<close> (\<open>NodeTimersInterface\<close>) belongs to rclcpp and is a parameter.
\<close>

section \<open>Integers as doubles\<close>

fun bits :: "nat \<Rightarrow> nat" where
  "bits n = (if n = 0 then 0 else Suc (bits (n div 2)))"

declare bits.simps [simp del]

text \<open>The multiple of \<open>m\<close> nearest to \<open>x\<close>, an even multiple on a tie.\<close>

definition round_even :: "nat \<Rightarrow> nat \<Rightarrow> nat" where
  "round_even m x =
     (let q = x div m; r = x mod m
      in if m < 2 * r \<or> (2 * r = m \<and> odd q) then (q + 1) * m else q * m)"

definition to_double :: "nat \<Rightarrow> nat" where
  "to_double x = (if bits x \<le> 53 then x else round_even (2 ^ (bits x - 53)) x)"

section \<open>The period\<close>

text \<open>The product of the cast, as the hardware computes it.\<close>

definition wrap64 :: "int \<Rightarrow> int" where
  "wrap64 x = (x + 2 ^ 63) mod 2 ^ 64 - 2 ^ 63"

definition safe_cast_to_period_in_ns :: "nat \<Rightarrow> int \<Rightarrow> exn + int" where
  "safe_cast_to_period_in_ns k period =
     (if period < 0 then Inl (Invalid_argument ''timer period cannot be negative'')
      else
        let maximum_safe_cast_ns = nat int64_max - k;
            ns_max_as_double = to_double maximum_safe_cast_ns
        in if to_double (to_double (nat period) * k) > ns_max_as_double
           then Inl (Invalid_argument ''timer period must be less than std::chrono::nanoseconds::max()'')
           else
             let period_ns = wrap64 (period * int k)
             in if period_ns < 0
                then Inl (Runtime_error ''Casting timer period to nanoseconds resulted in integer overflow.'')
                else Inr period_ns)"

section \<open>Creation\<close>

text \<open>
  From the construction on: \<open>add_timer\<close> may throw, and then the only owner of the timer is gone
  before anything is registered.
\<close>

definition add_and_register ::
  "(ctrl \<Rightarrow> 'm world \<Rightarrow> ('m world, unit) res) \<Rightarrow> ctrl \<Rightarrow> addr \<Rightarrow> ctrl \<Rightarrow> timer \<Rightarrow> 'm world
     \<Rightarrow> ('m world, ctrl) res" where
  "add_and_register add_timer c a node t w =
     (case add_timer c (w\<lparr>memory := new_shared c a (Timer_obj t) (memory w)\<rparr>) of
        (Inl e, w1) \<Rightarrow> (Inl e, w1\<lparr>memory := destroy a (expire c (memory w1))\<rparr>)
      | (Inr _, w1) \<Rightarrow> (Inr c, snd (registerTimer (Some node) (Some c) w1)))"

text \<open>\<open>None\<close> stands for a null pointer argument.\<close>

definition create_timer ::
  "(ctrl \<Rightarrow> 'm world \<Rightarrow> ('m world, unit) res) \<Rightarrow> ctrl \<Rightarrow> addr \<Rightarrow> 'c option \<Rightarrow> nat \<Rightarrow> int \<Rightarrow> callback
     \<Rightarrow> ctrl option \<Rightarrow> 't option \<Rightarrow> 'm world \<Rightarrow> ('m world, ctrl) res" where
  "create_timer add_timer c a clock k period cb node_base node_timers w =
     (if clock = None then (Inl (Invalid_argument ''clock cannot be null''), w)
      else case node_base of
        None \<Rightarrow> (Inl (Invalid_argument ''input node_base cannot be null''), w)
      | Some node \<Rightarrow>
          if node_timers = None then (Inl (Invalid_argument ''input node_timers cannot be null''), w)
          else case safe_cast_to_period_in_ns k period of
            Inl e \<Rightarrow> (Inl e, w)
          | Inr period_ns \<Rightarrow>
              add_and_register add_timer c a node
                \<lparr>timer_period = period_ns, timer_callback = cb, timer_node = Some node\<rparr> w)"

definition create_wall_timer ::
  "(ctrl \<Rightarrow> 'm world \<Rightarrow> ('m world, unit) res) \<Rightarrow> ctrl \<Rightarrow> addr \<Rightarrow> nat \<Rightarrow> int \<Rightarrow> callback
     \<Rightarrow> ctrl option \<Rightarrow> 't option \<Rightarrow> 'm world \<Rightarrow> ('m world, ctrl) res" where
  "create_wall_timer add_timer c a k period cb node_base node_timers w =
     (case node_base of
        None \<Rightarrow> (Inl (Invalid_argument ''input node_base cannot be null''), w)
      | Some node \<Rightarrow>
          if node_timers = None then (Inl (Invalid_argument ''input node_timers cannot be null''), w)
          else case safe_cast_to_period_in_ns k period of
            Inl e \<Rightarrow> (Inl e, w)
          | Inr period_ns \<Rightarrow>
              add_and_register add_timer c a node
                \<lparr>timer_period = period_ns, timer_callback = cb, timer_node = Some node\<rparr> w)"

text \<open>The overloads on an \<open>rclcpp::Duration\<close>, which counts nanoseconds.\<close>

definition create_timer_interfaces ::
  "(ctrl \<Rightarrow> 'm world \<Rightarrow> ('m world, unit) res) \<Rightarrow> ctrl \<Rightarrow> addr \<Rightarrow> ctrl option \<Rightarrow> 't option \<Rightarrow> 'c option
     \<Rightarrow> int \<Rightarrow> callback \<Rightarrow> 'm world \<Rightarrow> ('m world, ctrl) res" where
  "create_timer_interfaces add_timer c a node_base node_timers clock period cb w =
     create_timer add_timer c a clock 1 period cb node_base node_timers w"

definition create_timer_node ::
  "(ctrl \<Rightarrow> 'm world \<Rightarrow> ('m world, unit) res) \<Rightarrow> ctrl \<Rightarrow> addr \<Rightarrow> ctrl \<Rightarrow> 'c option \<Rightarrow> int \<Rightarrow> callback
     \<Rightarrow> 'm world \<Rightarrow> ('m world, ctrl) res" where
  "create_timer_node add_timer c a node clock period cb w =
     create_timer add_timer c a clock 1 period cb (Some node) (Some ()) w"

section \<open>Lookup\<close>

fun lock_all :: "'o mem \<Rightarrow> weak_ptr list \<Rightarrow> ctrl list" where
  "lock_all m [] = []"
| "lock_all m (x # xs) = (case lock m x of Some c \<Rightarrow> c # lock_all m xs | None \<Rightarrow> lock_all m xs)"

definition detail_findTimers :: "weak_ptr \<Rightarrow> 'm world \<Rightarrow> ctrl list" where
  "detail_findTimers node w = lock_all (memory w) (getTimers node w)"

definition findTimers :: "ctrl \<Rightarrow> 'm world \<Rightarrow> ctrl list" where
  "findTimers node w = detail_findTimers (Some node) w"

section \<open>Rounding is monotone\<close>

lemma bits_0 [simp]: "bits 0 = 0"
  by (simp add: bits.simps)

lemma bits_pos: "0 < n \<Longrightarrow> bits n = Suc (bits (n div 2))"
  by (simp add: bits.simps [of n])

lemma bits_upper: "n < 2 ^ bits n"
proof (induction n rule: bits.induct)
  case (1 n)
  show ?case
  proof (cases "n = 0")
    case False
    with "1.IH" have "n div 2 < 2 ^ bits (n div 2)" by simp
    then have "n < 2 * 2 ^ bits (n div 2)" by linarith
    with False show ?thesis by (simp add: bits_pos)
  qed simp
qed

lemma bits_lower: "0 < n \<Longrightarrow> 2 ^ (bits n - 1) \<le> n"
proof (induction n rule: less_induct)
  case (less n)
  show ?case
  proof (cases "n = 1")
    case True
    then show ?thesis by (simp add: bits_pos)
  next
    case False
    with less.prems have half: "0 < n div 2" "n div 2 < n" by auto
    have "(2::nat) ^ bits (n div 2) = 2 * 2 ^ (bits (n div 2) - 1)"
      using half(1) by (simp add: bits_pos)
    also have "\<dots> \<le> 2 * (n div 2)"
      using less.IH [OF half(2,1)] by simp
    finally show ?thesis using less.prems by (simp add: bits_pos)
  qed
qed

lemma bits_le: "x < 2 ^ b \<Longrightarrow> bits x \<le> b"
proof (rule ccontr)
  assume "x < 2 ^ b" "\<not> bits x \<le> b"
  then have "(2::nat) ^ b \<le> 2 ^ (bits x - 1)" by (intro power_increasing) auto
  moreover have "0 < x" using \<open>\<not> bits x \<le> b\<close> by (cases "x = 0") auto
  ultimately show False using bits_lower [of x] \<open>x < 2 ^ b\<close> by linarith
qed

lemma bits_mono: "x \<le> y \<Longrightarrow> bits x \<le> bits y"
  by (rule bits_le) (rule le_less_trans [OF _ bits_upper])

lemma round_even_ge: "0 < m \<Longrightarrow> t * m \<le> x \<Longrightarrow> t * m \<le> round_even m x"
proof -
  assume "0 < m" "t * m \<le> x"
  then have "t \<le> x div m" by (simp add: less_eq_div_iff_mult_less_eq)
  then show ?thesis by (auto simp: round_even_def Let_def intro: le_trans [OF mult_le_mono1])
qed

lemma round_even_le:
  assumes "0 < m" "x \<le> t * m"
  shows "round_even m x \<le> t * m"
proof (cases "x = t * m")
  case True
  with assms show ?thesis by (simp add: round_even_def)
next
  case False
  with assms have "x div m < t" by (simp add: less_mult_imp_div_less)
  then have "(x div m + 1) * m \<le> t * m" by (intro mult_le_mono1) simp
  moreover have "x div m * m \<le> (x div m + 1) * m" by simp
  moreover have "round_even m x = (x div m + 1) * m \<or> round_even m x = x div m * m"
    by (auto simp: round_even_def Let_def)
  ultimately show ?thesis by linarith
qed

lemma round_even_mono:
  assumes "0 < m" "x \<le> y"
  shows "round_even m x \<le> round_even m y"
proof (cases "x div m = y div m")
  case True
  then have "x mod m \<le> y mod m"
    using assms(2) by (metis add_le_cancel_left mult_div_mod_eq)
  with True show ?thesis by (auto simp: round_even_def Let_def)
next
  case False
  with assms have less: "x div m < y div m" by (simp add: div_le_mono le_neq_implies_less)
  have "x \<le> (x div m + 1) * m"
    using assms(1) by (simp add: less_imp_le dividend_less_div_times)
  then have "round_even m x \<le> (x div m + 1) * m" by (rule round_even_le [OF assms(1)])
  also have "\<dots> \<le> y div m * m" using less by (intro mult_le_mono1) simp
  also have "\<dots> \<le> round_even m y" by (rule round_even_ge [OF assms(1)]) simp
  finally show ?thesis .
qed

text \<open>A power of two between two integers stays between their roundings.\<close>

lemma to_double_le_pow: "bits x \<le> b \<Longrightarrow> to_double x \<le> 2 ^ b"
proof -
  assume b: "bits x \<le> b"
  have x: "x \<le> 2 ^ b"
    using less_le_trans [OF bits_upper [of x] power_increasing [OF b, of "2::nat"]] by simp
  show ?thesis
  proof (cases "bits x \<le> 53")
    case True
    with x show ?thesis by (simp add: to_double_def)
  next
    case False
    then have "(2::nat) ^ b = 2 ^ (b - (bits x - 53)) * 2 ^ (bits x - 53)"
      using b by (simp flip: power_add)
    with x False show ?thesis
      using round_even_le [of "2 ^ (bits x - 53)" x "2 ^ (b - (bits x - 53))"]
      by (simp add: to_double_def)
  qed
qed

lemma to_double_ge_pow: "b < bits y \<Longrightarrow> 2 ^ b \<le> to_double y"
proof -
  assume b: "b < bits y"
  then have "0 < y" by (cases "y = 0") auto
  have y: "2 ^ b \<le> y"
    by (rule le_trans [OF power_increasing bits_lower [OF \<open>0 < y\<close>]]) (use b in auto)
  show ?thesis
  proof (cases "bits y \<le> 53")
    case True
    with y show ?thesis by (simp add: to_double_def)
  next
    case False
    have "bits y - 1 = 52 + (bits y - 53)" using False by simp
    then have pow: "(2::nat) ^ (bits y - 1) = 2 ^ 52 * 2 ^ (bits y - 53)"
      by (simp only: power_add)
    have "(2::nat) ^ b \<le> 2 ^ (bits y - 1)"
      using b by (intro power_increasing) auto
    also have "\<dots> \<le> round_even (2 ^ (bits y - 53)) y"
      unfolding pow
      by (rule round_even_ge) (simp, use bits_lower [OF \<open>0 < y\<close>] in \<open>simp only: pow\<close>)
    finally show ?thesis using False by (simp add: to_double_def)
  qed
qed

lemma to_double_mono:
  assumes "x \<le> y"
  shows "to_double x \<le> to_double y"
proof (cases "bits x = bits y")
  case True
  with assms show ?thesis by (simp add: to_double_def round_even_mono)
next
  case False
  with bits_mono [OF assms] have "bits x < bits y" by simp
  then show ?thesis
    using to_double_le_pow [of x "bits x"] to_double_ge_pow [of "bits x" y] by simp
qed

section \<open>Correctness of the conversion\<close>

lemmas double_eval = to_double_def round_even_def bits.simps Let_def int64_max_def

lemma wrap64_in_range: "0 \<le> x \<Longrightarrow> x \<le> int64_max \<Longrightarrow> wrap64 x = x"
  by (simp add: wrap64_def int64_max_def)

text \<open>
  The guard rejects every overflowing count as soon as it rejects the least one, because the
  rounded product is monotone in the count.
\<close>

definition guard_rejects_overflow :: "nat \<Rightarrow> bool" where
  "guard_rejects_overflow k \<longleftrightarrow>
     to_double (nat int64_max - k) < to_double (to_double (nat int64_max div k + 1) * k)"

lemma accepted_no_overflow:
  assumes "guard_rejects_overflow k" "0 < k"
    and "to_double (to_double n * k) \<le> to_double (nat int64_max - k)"
  shows "n * k \<le> nat int64_max"
proof (rule ccontr)
  assume "\<not> n * k \<le> nat int64_max"
  then have "nat int64_max div k + 1 \<le> n"
    using assms(2) by (simp add: Suc_le_eq div_less_iff_less_mult)
  then have "to_double (to_double (nat int64_max div k + 1) * k) \<le> to_double (to_double n * k)"
    by (intro to_double_mono mult_le_mono1)
  with assms(1,3) show False by (simp add: guard_rejects_overflow_def)
qed

lemma to_double_exact: "n \<le> 2 ^ 53 \<Longrightarrow> to_double n = n"
proof (cases "n = 2 ^ 53")
  case True
  then show ?thesis by (simp add: double_eval)
next
  case False
  assume "n \<le> 2 ^ 53"
  with False have "bits n \<le> 53" by (intro bits_le) simp
  then show ?thesis by (simp add: to_double_def)
qed

text \<open>The standard duration types from nanoseconds to hours.\<close>

definition standard_ticks :: "nat list" where
  "standard_ticks = [1, 1000, 1000000, 1000000000, 60000000000, 3600000000000]"

lemma guards_reject:
  "guard_rejects_overflow 1000" "guard_rejects_overflow 1000000"
  "guard_rejects_overflow 1000000000" "guard_rejects_overflow 60000000000"
  "guard_rejects_overflow 3600000000000"
  by (simp_all add: guard_rejects_overflow_def double_eval)

lemma standard_ticks_guarded: "k \<in> set standard_ticks \<Longrightarrow> k = 1 \<or> guard_rejects_overflow k"
  by (auto simp: standard_ticks_def guards_reject)

lemma guarded_product:
  assumes "k \<in> set standard_ticks" "0 \<le> period" "period \<le> int64_max"
    and guard: "to_double (to_double (nat period) * k) \<le> to_double (nat int64_max - k)"
  shows "period * int k \<le> int64_max"
proof -
  have pos: "0 < k" using assms(1) by (auto simp: standard_ticks_def)
  have "nat period * k \<le> nat int64_max"
    using standard_ticks_guarded [OF assms(1)]
  proof
    assume "k = 1"
    then show ?thesis using assms(3) by (simp add: nat_mono)
  next
    assume "guard_rejects_overflow k"
    then show ?thesis using pos guard by (rule accepted_no_overflow)
  qed
  then have "int (nat period * k) \<le> int (nat int64_max)" by (simp only: of_nat_le_iff)
  then show ?thesis using assms(2) by (simp add: int64_max_def)
qed

section \<open>Registration of timers\<close>

lemma getTimers_registerTimer:
  "getTimers n (snd (registerTimer node t w)) = (if n = node then getTimers n w @ [t] else getTimers n w)"
  by (auto simp: getTimers_def registerTimer_def findEntity_def omap_at_def split: option.split)

lemma registerTimer_memory [simp]: "memory (snd (registerTimer node t w)) = memory w"
  by (simp add: registerTimer_def split: prod.split)

lemma getTimers_memory [simp]: "getTimers n (w\<lparr>memory := m\<rparr>) = getTimers n w"
  by (simp add: getTimers_def)

lemma lock_all_append [simp]: "lock_all m (xs @ ys) = lock_all m xs @ lock_all m ys"
  by (induction xs) (auto split: option.split)

lemma lock_all_new_shared:
  "Some c \<notin> set xs \<Longrightarrow> lock_all (new_shared c a x m) xs = lock_all m xs"
  by (induction xs) (auto simp: lock_def split: option.split)

lemma lock_new_shared [simp]: "lock (new_shared c a x m) (Some c) = Some c"
  by (simp add: lock_def)

section \<open>Properties\<close>

text \<open>C11: For every standard duration type and every 64-bit count, the period check either returns
  the exact number of nanoseconds, non-negative and in range, or throws one of its two
  \<open>invalid_argument\<close> errors (for a negative period, or when the rounded guard trips); the third
  check, against a wrapped product, is never reached.\<close>

theorem safe_cast_correct:
  assumes "k \<in> set standard_ticks" and "in_int64 period"
  shows "case safe_cast_to_period_in_ns k period of
      Inr ns \<Rightarrow> 0 \<le> period \<and> ns = period * int k \<and> ns \<le> int64_max
    | Inl e \<Rightarrow> (period < 0 \<and> e = Invalid_argument ''timer period cannot be negative'') \<or>
        (0 \<le> period \<and> to_double (nat int64_max - k) < to_double (to_double (nat period) * k) \<and>
         e = Invalid_argument ''timer period must be less than std::chrono::nanoseconds::max()'')"
proof (cases "0 \<le> period \<and> to_double (to_double (nat period) * k) \<le> to_double (nat int64_max - k)")
  case True
  with assms have "period * int k \<le> int64_max"
    by (intro guarded_product) (auto simp: in_int64_def)
  moreover have "\<not> period * int k < 0" using True by (simp add: not_less)
  ultimately show ?thesis
    using True by (simp add: safe_cast_to_period_in_ns_def Let_def wrap64_in_range)
next
  case False
  then show ?thesis by (auto simp: safe_cast_to_period_in_ns_def Let_def)
qed

theorem safe_cast_correct_witness:
  "case safe_cast_to_period_in_ns 1000000 500 of
      Inr ns \<Rightarrow> 0 \<le> (500::int) \<and> ns = 500 * int 1000000 \<and> ns \<le> int64_max
    | Inl e \<Rightarrow> ((500::int) < 0 \<and> e = Invalid_argument ''timer period cannot be negative'') \<or>
        (0 \<le> (500::int) \<and> to_double (nat int64_max - 1000000) < to_double (to_double (nat 500) * 1000000) \<and>
         e = Invalid_argument ''timer period must be less than std::chrono::nanoseconds::max()'')"
  by (rule safe_cast_correct) (simp_all add: standard_ticks_def in_int64_def int64_min_def int64_max_def)

text \<open>The guard is not too strict: every count up to \<open>2^53\<close> whose product stays one tick below the
  largest nanosecond count is accepted and converted exactly, whatever the tick.\<close>

lemma safe_cast_accepts:
  assumes "0 \<le> period" and "period \<le> 2 ^ 53" and "period * int k + int k \<le> int64_max"
  shows "safe_cast_to_period_in_ns k period = Inr (period * int k)"
proof -
  have n: "nat period \<le> 2 ^ 53" using assms(2) by simp
  have "nat (period * int k + int k) \<le> nat int64_max"
    using assms(3) by (rule nat_mono)
  then have le: "nat period * k \<le> nat int64_max - k"
    using assms(1) by (simp add: nat_mult_distrib nat_add_distrib)
  have "to_double (to_double (nat period) * k) \<le> to_double (nat int64_max - k)"
    unfolding to_double_exact [OF n] using le by (rule to_double_mono)
  moreover have "period * int k \<le> int64_max" using assms(3) by linarith
  moreover have "\<not> period * int k < 0" using assms(1) by (simp add: not_less)
  ultimately show ?thesis
    using assms(1) by (simp add: safe_cast_to_period_in_ns_def Let_def wrap64_in_range)
qed

text \<open>A tick of 100 nanoseconds shows why the third check is there: a count whose product
  overflows passes the rounded guard, and the wrapped negative product is caught as a
  \<open>runtime_error\<close>.\<close>

lemma safe_cast_guard_gap:
  "\<not> to_double (nat int64_max - 100) < to_double (to_double (nat 92233720368547759) * 100)
   \<and> safe_cast_to_period_in_ns 100 92233720368547759 =
      Inl (Runtime_error ''Casting timer period to nanoseconds resulted in integer overflow.'')"
  by (simp add: safe_cast_to_period_in_ns_def wrap64_def double_eval)

text \<open>A timer created with valid arguments is live, has the converted period, and is appended to
  the timers that a lookup by its own node returns; the timers of every other node stay the same.
  \<open>add_timer\<close> is assumed to succeed and to leave the registry and the memory alone, and the
  control block to be new to the timer table.\<close>

lemma create_timer_found:
  assumes "safe_cast_to_period_in_ns k period = Inr ns"
    and "\<And>v. add_timer c v = (Inr (), v)"
    and "\<And>n. Some c \<notin> set (getTimers n w)"
  shows "\<exists>w'. create_timer add_timer c a (Some clk) k period cb (Some node) (Some nt) w = (Inr c, w')
    \<and> findTimers node w' = findTimers node w @ [c]
    \<and> (\<forall>n. n \<noteq> node \<longrightarrow> findTimers n w' = findTimers n w)
    \<and> locked_obj (memory w') (Some c) =
        Some (Timer_obj \<lparr>timer_period = ns, timer_callback = cb, timer_node = Some node\<rparr>)"
  using assms
  by (simp add: create_timer_def add_and_register_def findTimers_def detail_findTimers_def
      getTimers_registerTimer lock_all_new_shared locked_obj_def locked_ptr_def at_ptr_def)

text \<open>A failing creation throws before anything is registered: whatever error \<open>create_timer\<close>
  reports (a null clock or node interface, a rejected period, an exception of \<open>add_timer\<close>), the
  registry is unchanged and no timer survives under the new control block.\<close>

lemma create_timer_failure:
  assumes "create_timer add_timer c a clock k period cb node_base node_timers w = (Inl e, w')"
    and "\<And>v. registry (snd (add_timer c v)) = registry v"
    and "owner (memory w) c = None"
  shows "registry w' = registry w \<and> lock (memory w') (Some c) = None"
proof -
  have keep: "registry v' = registry v" if "add_timer c v = (r, v')" for v r v'
    using assms(2) [of v] that by simp
  show ?thesis
    using assms(1,3)
    by (auto simp: create_timer_def add_and_register_def lock_def dest: keep
        split: if_splits option.splits sum.splits prod.splits)
qed

end
