(* ===== verification/World_Invariant.thy ===== *)
theory World_Invariant
  imports Subscription_Mock Action_Server_Mock Timer_Mock
begin

text \<open>
  Destruction of objects and the invariant of the world. \<open>release\<close> drops the last owner of a control
  block and runs the destructors with an effect on the registry. The invariant \<open>world_ok\<close> says what
  a reference held by the registry leads to when it still locks, that the queued lazy callbacks
  refer to objects that exist, and that every map is in key order. Each operation on the memory
  or on the registry has its preservation lemma here; the steps of the framework are built from
  them.

  A new object is placed at an address where nothing lives, possibly one used before, and gets a
  control block that no strong or weak pointer refers to. Nothing else is assumed about either.
\<close>

section \<open>Kinds of entities\<close>

datatype kind = Publishers | Subscriptions | Services | Service_clients | Action_servers | Action_clients

fun table :: "kind \<Rightarrow> static_mocks_registry \<Rightarrow> node_registry" where
  "table Publishers r = publishersRegistry r"
| "table Subscriptions r = subscriptionsRegistry r"
| "table Services r = servicesRegistry r"
| "table Service_clients r = serviceClientsRegistry r"
| "table Action_servers r = actionServersRegistry r"
| "table Action_clients r = actionClientsRegistry r"

text \<open>The kind, node and registered name of an object that is an entity.\<close>

fun entity_id :: "'m obj \<Rightarrow> (kind \<times> weak_ptr \<times> string) option" where
  "entity_id (Publisher_obj p) = Some (Publishers, publisher_node p, publisher_topic p)"
| "entity_id (Subscription_obj s) = Some (Subscriptions, subscription_node s, subscription_topic s)"
| "entity_id (Service_obj s) = Some (Services, service_node_id s, service_key (service_name s))"
| "entity_id (Client_obj s) = Some (Service_clients, client_node_id s, service_key (client_service_name s))"
| "entity_id (Action_server_obj s) = Some (Action_servers, server_node s, server_action_name s)"
| "entity_id (Action_client_obj s) = Some (Action_clients, aclient_node s, aclient_action_name s)"
| "entity_id _ = None"

fun timer_node_of :: "'m obj \<Rightarrow> weak_ptr option" where
  "timer_node_of (Timer_obj t) = Some (timer_node t)"
| "timer_node_of _ = None"

fun entity_type :: "'m obj \<Rightarrow> tyname option" where
  "entity_type (Publisher_obj p) = Some (publisher_type p)"
| "entity_type (Subscription_obj s) = Some (subscription_type s)"
| "entity_type (Service_obj s) = Some (service_type s)"
| "entity_type (Client_obj s) = Some (client_type s)"
| "entity_type (Action_server_obj s) = Some (server_type s)"
| "entity_type (Action_client_obj s) = Some (aclient_type s)"
| "entity_type _ = None"

fun mock_type :: "'m obj \<Rightarrow> (kind \<times> tyname) option" where
  "mock_type (Publisher_mock_obj k) = Some (Publishers, pm_type k)"
| "mock_type (Service_mock_obj k) = Some (Services, sm_type k)"
| "mock_type (Service_client_mock_obj k) = Some (Service_clients, cm_type k)"
| "mock_type (Action_client_mock_obj k) = Some (Action_clients, am_type k)"
| "mock_type (Action_server_mock_obj k) = Some (Action_servers, vm_type k)"
| "mock_type _ = None"

section \<open>Destruction\<close>

text \<open>The destructors with an effect outside the object.\<close>

fun destructor :: "addr \<Rightarrow> 'm obj \<Rightarrow> 'm world \<Rightarrow> 'm world" where
  "destructor this (Publisher_mock_obj k) w = delete_PublisherMock k w"
| "destructor this (Service_mock_obj k) w = delete_ServiceMock k w"
| "destructor this (Service_client_mock_obj k) w = delete_ServiceClientMock k w"
| "destructor this (Action_client_mock_obj k) w = delete_ActionClientMock k w"
| "destructor this (Action_server_mock_obj k) w = delete_ActionServerMock k w"
| "destructor this (Action_client_obj s) w = delete_action_client this w"
| "destructor this (Action_server_obj s) w = delete_action_server this w"
| "destructor this _ w = w"

definition run_destructor :: "addr \<Rightarrow> 'm world \<Rightarrow> 'm world" where
  "run_destructor a w = (case at_ptr (memory w) a of None \<Rightarrow> w
    | Some x \<Rightarrow> (let w1 = destructor a x w in w1\<lparr>memory := destroy a (memory w1)\<rparr>))"

text \<open>
  Release of the last \<open>shared_ptr\<close> of a control block: it expires first, then the destructor runs.
\<close>

definition release :: "ctrl \<Rightarrow> 'm world \<Rightarrow> 'm world" where
  "release c w = (case owner (memory w) c of None \<Rightarrow> w
    | Some a \<Rightarrow> run_destructor a (w\<lparr>memory := expire c (memory w)\<rparr>))"

section \<open>Fresh control blocks\<close>

definition unreferenced :: "ctrl \<Rightarrow> static_mocks_registry \<Rightarrow> bool" where
  "unreferenced c r \<longleftrightarrow>
     (\<forall>kd n k. entity_at (table kd r) n k \<noteq> Some c) \<and>
     (\<forall>n. Some c \<notin> set (findEntity (timersRegistry r) n [])) \<and>
     (\<forall>p. omap_find (mockRegistry r) p \<noteq> Some (Some c))"

definition unused :: "ctrl \<Rightarrow> 'm world \<Rightarrow> bool" where
  "unused c w \<longleftrightarrow> owner (memory w) c = None \<and> unreferenced c (registry w)"

text \<open>
  The registry refers to control blocks as keys too, and entities refer to the one of their node.
\<close>

definition fresh_ctrl :: "ctrl \<Rightarrow> 'm world \<Rightarrow> bool" where
  "fresh_ctrl c w \<longleftrightarrow> unused c w \<and> (\<forall>kd. omap_find (table kd (registry w)) (Some c) = None) \<and>
     omap_find (timersRegistry (registry w)) (Some c) = None \<and>
     (\<forall>a x. at_ptr (memory w) a = Some x \<longrightarrow>
        (\<forall>kd k. entity_id x \<noteq> Some (kd, Some c, k)) \<and> timer_node_of x \<noteq> Some (Some c))"

section \<open>The invariant\<close>

text \<open>What a reference of the registry that still locks leads to.\<close>

definition entries_ok :: "'m obj mem \<Rightarrow> static_mocks_registry \<Rightarrow> bool" where
  "entries_ok m r \<longleftrightarrow> (\<forall>kd n k x. locked_obj m (entity_at (table kd r) n k) = Some x
      \<longrightarrow> entity_id x = Some (kd, n, k))"

definition timers_ok :: "'m obj mem \<Rightarrow> static_mocks_registry \<Rightarrow> bool" where
  "timers_ok m r \<longleftrightarrow> (\<forall>n x. \<forall>w \<in> set (findEntity (timersRegistry r) n []).
      locked_obj m w = Some x \<longrightarrow> timer_node_of x = Some n)"

definition mocks_ok :: "'m obj mem \<Rightarrow> static_mocks_registry \<Rightarrow> bool" where
  "mocks_ok m r \<longleftrightarrow> (\<forall>p w x. omap_find (mockRegistry r) p = Some w \<longrightarrow> locked_obj m w = Some x
      \<longrightarrow> mock_target x = Some p)"

definition lazy_ok :: "'m obj mem \<Rightarrow> static_mocks_registry \<Rightarrow> bool" where
  "lazy_ok m r \<longleftrightarrow>
     (\<forall>e \<in> set (lazy_init_action_clients r). init_callback e = Post_init_setup (raw_ptr e)
        \<and> (\<exists>s. at_ptr m (raw_ptr e) = Some (Action_client_obj s))) \<and>
     (\<forall>e \<in> set (lazy_init_action_servers r). init_callback e = Post_init_setup (raw_ptr e)
        \<and> (\<exists>s. at_ptr m (raw_ptr e) = Some (Action_server_obj s)))"

definition sorted_ok :: "static_mocks_registry \<Rightarrow> bool" where
  "sorted_ok r \<longleftrightarrow>
     (\<forall>kd. omap_ok (table kd r) \<and> (\<forall>n m. omap_find (table kd r) n = Some m \<longrightarrow> omap_ok m)) \<and>
     omap_ok (timersRegistry r) \<and> omap_ok (mockRegistry r)"

definition world_ok :: "'m world \<Rightarrow> bool" where
  "world_ok w \<longleftrightarrow> mem_ok (memory w) \<and> entries_ok (memory w) (registry w) \<and>
     timers_ok (memory w) (registry w) \<and> mocks_ok (memory w) (registry w) \<and>
     lazy_ok (memory w) (registry w) \<and> sorted_ok (registry w)"

lemmas world_ok_defs = world_ok_def entries_ok_def timers_ok_def mocks_ok_def lazy_ok_def

lemma world_ok_init: "world_ok init_world"
proof -
  have "table kd empty_registry = []" for kd by (cases kd) (simp_all add: empty_registry_def)
  then show ?thesis
    by (simp add: world_ok_defs sorted_ok_def init_world_def entity_at_def findEntity_def
        locked_obj_def locked_ptr_def omap_ok_def)
       (simp add: empty_registry_def)
qed

section \<open>Changes of the memory alone\<close>

lemma locked_obj_Some:
  "locked_obj m w = Some x \<longleftrightarrow> (\<exists>c a. w = Some c \<and> owner m c = Some a \<and> at_ptr m a = Some x)"
  by (auto simp: locked_obj_def locked_ptr_def lock_def split: option.splits)

text \<open>
  The content of an object that the invariant does not depend on: what a mock recorded, what a
  goal handle holds, the goal table of an action client.
\<close>

fun ident :: "'m obj \<Rightarrow> 'm obj" where
  "ident (Publisher_mock_obj k) = Publisher_mock_obj (k\<lparr>subscriptions_count := 0, publish_calls := []\<rparr>)"
| "ident (Service_mock_obj k) = Service_mock_obj (k\<lparr>send_response_calls := []\<rparr>)"
| "ident (Service_client_mock_obj k) = Service_client_mock_obj (k\<lparr>client_calls := []\<rparr>)"
| "ident (Action_client_mock_obj k) = Action_client_mock_obj (k\<lparr>action_calls := []\<rparr>)"
| "ident (Goal_handle_obj h) = Goal_handle_obj (makeClientGoalHandle [])"
| "ident (Action_client_obj s) = Action_client_obj (s\<lparr>goal_handles := []\<rparr>)"
| "ident x = x"

lemma ident_classes:
  "entity_id (ident x) = entity_id x" "timer_node_of (ident x) = timer_node_of x"
  "mock_target (ident x) = mock_target x" "entity_type (ident x) = entity_type x"
  "mock_type (ident x) = mock_type x"
  by (cases x; simp)+

lemma ident_eq_classes:
  assumes "ident x = ident y"
  shows "entity_id x = entity_id y" "timer_node_of x = timer_node_of y"
    "mock_target x = mock_target y" "entity_type x = entity_type y" "mock_type x = mock_type y"
  by (metis assms ident_classes)+

lemma ident_Action_client: "ident x = ident (Action_client_obj s) \<Longrightarrow> \<exists>s'. x = Action_client_obj s'"
  by (cases x) auto

lemma ident_Action_server: "ident x = ident (Action_server_obj s) \<Longrightarrow> \<exists>s'. x = Action_server_obj s'"
  by (cases x) auto

text \<open>Two memories with the same ownership and the same objects up to \<open>ident\<close>.\<close>

definition same_shape :: "'m obj mem \<Rightarrow> 'm obj mem \<Rightarrow> bool" where
  "same_shape m m' \<longleftrightarrow> owner m' = owner m \<and>
     (\<forall>a. map_option ident (at_ptr m' a) = map_option ident (at_ptr m a))"

lemma same_shape_locked_obj:
  "same_shape m m' \<Longrightarrow> map_option ident (locked_obj m' w) = map_option ident (locked_obj m w)"
  by (auto simp: same_shape_def locked_obj_def locked_ptr_def lock_def split: option.split)

lemma same_shape_ok:
  assumes shape: "same_shape m m'"
    and ok: "entries_ok m r" "timers_ok m r" "mocks_ok m r" "lazy_ok m r"
  shows "entries_ok m' r \<and> timers_ok m' r \<and> mocks_ok m' r \<and> lazy_ok m' r"
proof -
  have obj: "\<exists>y. locked_obj m w = Some y \<and> ident y = ident x" if "locked_obj m' w = Some x" for w x
    using same_shape_locked_obj [OF shape, of w] that by (cases "locked_obj m w") auto
  have at: "\<exists>y. at_ptr m' a = Some y \<and> ident y = ident x" if "at_ptr m a = Some x" for a x
    using shape that unfolding same_shape_def by (metis map_option_eq_Some)
  have "entries_ok m' r"
    unfolding entries_ok_def using obj ok(1) ident_eq_classes(1) unfolding entries_ok_def by metis
  moreover have "timers_ok m' r"
    unfolding timers_ok_def using obj ok(2) ident_eq_classes(2) unfolding timers_ok_def by metis
  moreover have "mocks_ok m' r"
    unfolding mocks_ok_def using obj ok(3) ident_eq_classes(3) unfolding mocks_ok_def by metis
  moreover have "lazy_ok m' r"
    using ok(4) at unfolding lazy_ok_def by (metis ident_Action_client ident_Action_server)
  ultimately show ?thesis by simp
qed

lemma same_shape_modify: "(\<And>x. ident (f x) = ident x) \<Longrightarrow> same_shape m (modify a f m)"
  by (auto simp: same_shape_def modify_at_ptr option.map_comp comp_def)

lemma world_ok_modify [inv_intros]:
  "world_ok w \<Longrightarrow> (\<And>x. ident (f x) = ident x) \<Longrightarrow> world_ok (w\<lparr>memory := modify a f (memory w)\<rparr>)"
  using same_shape_ok [OF same_shape_modify, of f "memory w" "registry w" a]
  by (simp add: world_ok_def mem_ok_modify)

lemma locked_obj_new_shared:
  "locked_obj (new_shared c a x m) w =
     (if w = Some c then Some x
      else if locked_ptr m w = Some a then Some x else locked_obj m w)"
  by (auto simp: locked_obj_def locked_ptr_def lock_def at_ptr_def split: option.split)

text \<open>A memory in which no reference of the registry leads to anything new.\<close>

lemma refs_shrink_ok:
  assumes unref: "unreferenced c r"
    and shrink: "\<And>w x. w \<noteq> Some c \<Longrightarrow> locked_obj m' w = Some x \<Longrightarrow> locked_obj m w = Some x"
    and ok: "entries_ok m r" "timers_ok m r" "mocks_ok m r"
  shows "entries_ok m' r \<and> timers_ok m' r \<and> mocks_ok m' r"
proof (intro conjI)
  have "entity_at (table kd r) n k \<noteq> Some c" for kd n k
    using unref by (simp add: unreferenced_def)
  with shrink ok(1) show "entries_ok m' r" unfolding entries_ok_def by metis
  have "u \<in> set (findEntity (timersRegistry r) n []) \<Longrightarrow> u \<noteq> Some c" for u n
    using unref by (auto simp: unreferenced_def)
  with shrink ok(2) show "timers_ok m' r" unfolding timers_ok_def by metis
  have "omap_find (mockRegistry r) p = Some u \<Longrightarrow> u \<noteq> Some c" for u p
    using unref by (auto simp: unreferenced_def)
  with shrink ok(3) show "mocks_ok m' r" unfolding mocks_ok_def by metis
qed

lemma owner_dead_address: "mem_ok m \<Longrightarrow> objs m a = None \<Longrightarrow> locked_ptr m w \<noteq> Some a"
  unfolding mem_ok_def by (auto simp: locked_ptr_Some)

lemma lazy_ok_grow:
  assumes "lazy_ok m r" and "\<And>a x. at_ptr m a = Some x \<Longrightarrow> at_ptr m' a = Some x"
  shows "lazy_ok m' r"
  using assms unfolding lazy_ok_def by blast

lemma world_ok_new_shared:
  assumes ok: "world_ok w" and fresh: "unused c w" and dead: "objs (memory w) a = None"
  shows "world_ok (w\<lparr>memory := new_shared c a x (memory w)\<rparr>)"
proof -
  let ?m = "memory w"
  have mem: "mem_ok ?m" using ok by (simp add: world_ok_def)
  have "locked_obj ?m u = Some y" if "u \<noteq> Some c" "locked_obj (new_shared c a x ?m) u = Some y" for u y
    using that owner_dead_address [OF mem dead, of u] by (simp add: locked_obj_new_shared)
  then have "entries_ok (new_shared c a x ?m) (registry w) \<and> timers_ok (new_shared c a x ?m) (registry w)
      \<and> mocks_ok (new_shared c a x ?m) (registry w)"
    using ok fresh unfolding world_ok_def unused_def by - (rule refs_shrink_ok [of c _ _ ?m], auto)
  moreover have "lazy_ok (new_shared c a x ?m) (registry w)"
    using ok dead by - (rule lazy_ok_grow [of ?m], auto simp: world_ok_def at_ptr_def)
  moreover have "mem_ok (new_shared c a x ?m)"
    using mem dead fresh by (simp add: mem_ok_new_shared unused_def)
  ultimately show ?thesis using ok by (simp add: world_ok_def)
qed

lemma world_ok_construct:
  assumes ok: "world_ok w" and dead: "objs (memory w) a = None"
  shows "world_ok (w\<lparr>memory := construct a x (memory w)\<rparr>)"
proof -
  let ?m = "memory w"
  have mem: "mem_ok ?m" using ok by (simp add: world_ok_def)
  have same: "locked_obj (construct a x ?m) u = locked_obj ?m u" for u
    using owner_dead_address [OF mem dead, of u]
    by (auto simp: locked_obj_def locked_ptr_def lock_def at_ptr_def split: option.split)
  have "lazy_ok (construct a x ?m) (registry w)"
    using ok dead by - (rule lazy_ok_grow [of ?m], auto simp: world_ok_def at_ptr_def)
  then show ?thesis
    using ok mem_ok_construct [OF mem dead]
    by (simp add: world_ok_def entries_ok_def timers_ok_def mocks_ok_def same)
qed

lemma world_ok_adopt:
  assumes ok: "world_ok w" and fresh: "unused c w"
    and obj: "objs (memory w) a = Some x" "weak_this x = None"
  shows "world_ok (w\<lparr>memory := adopt c a (memory w)\<rparr>)"
proof -
  let ?m = "memory w"
  have mem: "mem_ok ?m" using ok by (simp add: world_ok_def)
  have at: "at_ptr (adopt c a ?m) b = at_ptr ?m b" for b
    using obj by (simp add: at_ptr_def adopt_def)
  have "locked_obj ?m u = Some y" if "u \<noteq> Some c" "locked_obj (adopt c a ?m) u = Some y" for u y
    using that obj by (auto simp: locked_obj_Some at adopt_def at_ptr_def split: if_splits)
  then have "entries_ok (adopt c a ?m) (registry w) \<and> timers_ok (adopt c a ?m) (registry w)
      \<and> mocks_ok (adopt c a ?m) (registry w)"
    using ok fresh unfolding world_ok_def unused_def by - (rule refs_shrink_ok [of c _ _ ?m], auto)
  moreover have "lazy_ok (adopt c a ?m) (registry w)"
    using ok by - (rule lazy_ok_grow [of ?m], auto simp: world_ok_def at)
  moreover have "mem_ok (adopt c a ?m)"
    using mem obj fresh by (simp add: mem_ok_adopt unused_def)
  ultimately show ?thesis using ok by (simp add: world_ok_def)
qed

section \<open>Changes of the registry alone\<close>

lemma world_ok_streams [inv_intros]:
  "world_ok w \<Longrightarrow> memory w' = memory w \<Longrightarrow> registry w' = registry w \<Longrightarrow> world_ok w'"
  by (simp add: world_ok_def)

text \<open>The tables of entities, with the rest of the registry left alone.\<close>

definition same_but_tables :: "static_mocks_registry \<Rightarrow> static_mocks_registry \<Rightarrow> bool" where
  "same_but_tables r r' \<longleftrightarrow> timersRegistry r' = timersRegistry r \<and> mockRegistry r' = mockRegistry r \<and>
     lazy_init_action_clients r' = lazy_init_action_clients r \<and>
     lazy_init_action_servers r' = lazy_init_action_servers r"

lemma world_ok_tables:
  assumes ok: "world_ok w" and mem: "memory w' = memory w"
    and rest: "same_but_tables (registry w) (registry w')"
    and entry: "\<And>kd n k x. entity_at (table kd (registry w')) n k \<noteq> entity_at (table kd (registry w)) n k
      \<Longrightarrow> locked_obj (memory w) (entity_at (table kd (registry w')) n k) = Some x \<Longrightarrow> entity_id x = Some (kd, n, k)"
    and sorted: "\<And>kd. omap_ok (table kd (registry w')) \<and>
      (\<forall>n m. omap_find (table kd (registry w')) n = Some m \<longrightarrow> omap_ok m)"
  shows "world_ok w'"
proof -
  have "entries_ok (memory w) (registry w')"
    unfolding entries_ok_def
  proof (intro allI impI)
    fix kd n k x
    assume x: "locked_obj (memory w) (entity_at (table kd (registry w')) n k) = Some x"
    have "entries_ok (memory w) (registry w)" using ok by (simp add: world_ok_def)
    then show "entity_id x = Some (kd, n, k)"
      using entry [OF _ x] x unfolding entries_ok_def by metis
  qed
  then show ?thesis
    using ok mem rest sorted
    by (simp add: world_ok_def timers_ok_def mocks_ok_def lazy_ok_def sorted_ok_def same_but_tables_def)
qed

lemma register_at_sorted:
  assumes "omap_ok nr" and "\<forall>n m. omap_find nr n = Some m \<longrightarrow> omap_ok m"
  shows "omap_ok (register_at mm node name e nr) \<and>
    (\<forall>n m. omap_find (register_at mm node name e nr) n = Some m \<longrightarrow> omap_ok m)"
proof -
  have "omap_ok (case omap_find nr node of Some v \<Rightarrow> v | None \<Rightarrow> [])"
    using assms(2) by (auto simp: om.ok_empty split: option.split)
  then show ?thesis
    using assms
    by (auto simp: register_at_def split_beta omap_at_fst omap_at_find om.ok_assign omap_at_ok
        registerEntity_ok split: if_splits)
qed

lemma get_at_sorted:
  assumes "omap_ok nr" and "\<forall>n m. omap_find nr n = Some m \<longrightarrow> omap_ok m"
  shows "omap_ok (snd (get_at node name nr)) \<and>
    (\<forall>n m. omap_find (snd (get_at node name nr)) n = Some m \<longrightarrow> omap_ok m)"
  using assms
  by (auto simp: get_at_def split_beta omap_at_find omap_at_ok om.ok_empty split: if_splits option.splits)

lemma list_at_sorted:
  assumes "omap_ok nr" and "\<forall>n m. omap_find nr n = Some m \<longrightarrow> omap_ok m"
  shows "omap_ok (snd (list_at node nr)) \<and>
    (\<forall>n m. omap_find (snd (list_at node nr)) n = Some m \<longrightarrow> omap_ok m)"
  using assms
  by (auto simp: list_at_def split_beta omap_at_find omap_at_ok om.ok_empty split: if_splits option.splits)

lemma world_ok_sorted:
  "world_ok w \<Longrightarrow> omap_ok (table kd (registry w)) \<and>
     (\<forall>n m. omap_find (table kd (registry w)) n = Some m \<longrightarrow> omap_ok m)"
  by (simp add: world_ok_def sorted_ok_def)

text \<open>What an operation on one table does to all tables.\<close>

definition registers :: "kind \<Rightarrow> weak_ptr \<Rightarrow> string \<Rightarrow> weak_ptr \<Rightarrow> 'm world \<Rightarrow> 'm world \<Rightarrow> bool" where
  "registers kd n k e w w' \<longleftrightarrow> memory w' = memory w \<and> same_but_tables (registry w) (registry w') \<and>
     (\<forall>kd'. table kd' (registry w') =
        (if kd' = kd then register_at (memory w) n k e (table kd (registry w)) else table kd' (registry w)))"

definition only_looks :: "'m world \<Rightarrow> 'm world \<Rightarrow> bool" where
  "only_looks w w' \<longleftrightarrow> memory w' = memory w \<and> same_but_tables (registry w) (registry w') \<and>
     (\<forall>kd. table kd (registry w') = table kd (registry w) \<or>
        (\<exists>n k. table kd (registry w') = snd (get_at n k (table kd (registry w)))) \<or>
        (\<exists>n. table kd (registry w') = snd (list_at n (table kd (registry w)))))"

lemma table_update:
  "table kd (r\<lparr>publishersRegistry := x\<rparr>) = (if kd = Publishers then x else table kd r)"
  "table kd (r\<lparr>subscriptionsRegistry := x\<rparr>) = (if kd = Subscriptions then x else table kd r)"
  "table kd (r\<lparr>servicesRegistry := x\<rparr>) = (if kd = Services then x else table kd r)"
  "table kd (r\<lparr>serviceClientsRegistry := x\<rparr>) = (if kd = Service_clients then x else table kd r)"
  "table kd (r\<lparr>actionServersRegistry := x\<rparr>) = (if kd = Action_servers then x else table kd r)"
  "table kd (r\<lparr>actionClientsRegistry := x\<rparr>) = (if kd = Action_clients then x else table kd r)"
  by (cases kd; simp)+

lemma registers_ops:
  "registers Publishers n k e w (registerPublisher T n k e w)"
  "registers Subscriptions n k e w (registerSubscription T n k e w)"
  "registers Services n (service_key k) e w (registerService T n k e w)"
  "registers Service_clients n (service_key k) e w (registerServiceClient T n k e w)"
  "registers Action_servers n k e w (registerActionServer T n k e w)"
  "registers Action_clients n k e w (registerActionClient T n k e w)"
  unfolding registers_def registry_entity_defs
  by (simp_all add: same_but_tables_def table_update)

lemma only_looks_ops:
  "only_looks w (snd (getPublisher n k w))" "only_looks w (snd (getSubscription n k w))"
  "only_looks w (snd (getService n k w))" "only_looks w (snd (getServiceClient n k w))"
  "only_looks w (snd (lookupActionServer n k w))" "only_looks w (snd (lookupActionClient n k w))"
  unfolding only_looks_def registry_entity_defs
  by (auto simp: same_but_tables_def split_beta table_update)

lemma only_looks_lists:
  "only_looks w (snd (getNodePublishers n w))" "only_looks w (snd (getNodeSubscriptions n w))"
  "only_looks w (snd (getNodeServices n w))" "only_looks w (snd (getNodeServiceClients n w))"
  unfolding only_looks_def getNodePublishers_def getNodeSubscriptions_def getNodeServices_def
    getNodeServiceClients_def
  by (auto simp: same_but_tables_def split_beta table_update)

lemma world_ok_registers:
  assumes "world_ok w" and reg: "registers kd n k e w w'"
    and entry: "\<And>x. locked_obj (memory w) e = Some x \<Longrightarrow> entity_id x = Some (kd, n, k)"
  shows "world_ok w'"
proof (rule world_ok_tables [OF assms(1)])
  show "memory w' = memory w" "same_but_tables (registry w) (registry w')"
    using reg by (simp_all add: registers_def)
  have tab: "table kd' (registry w') =
      (if kd' = kd then register_at (memory w) n k e (table kd (registry w)) else table kd' (registry w))" for kd'
    using reg by (simp add: registers_def)
  show "omap_ok (table kd' (registry w')) \<and>
      (\<forall>n m. omap_find (table kd' (registry w')) n = Some m \<longrightarrow> omap_ok m)" for kd'
  proof (cases "kd' = kd")
    case True
    then show ?thesis
      using register_at_sorted [of "table kd (registry w)"] world_ok_sorted [OF assms(1), of kd] by (simp add: tab)
  next
    case False
    then show ?thesis using world_ok_sorted [OF assms(1), of kd'] by (simp add: tab)
  qed
  show "entity_id x = Some (kd', n', k')"
    if "entity_at (table kd' (registry w')) n' k' \<noteq> entity_at (table kd' (registry w)) n' k'"
      "locked_obj (memory w) (entity_at (table kd' (registry w')) n' k') = Some x" for kd' n' k' x
    using that entry by (auto simp: tab entity_at_register_at split: if_splits)
qed

lemma only_looks_entity:
  assumes "only_looks w w'"
  shows "entity_at (table kd (registry w')) n k = entity_at (table kd (registry w)) n k"
proof -
  consider "table kd (registry w') = table kd (registry w)"
    | m j where "table kd (registry w') = snd (get_at m j (table kd (registry w)))"
    | m where "table kd (registry w') = snd (list_at m (table kd (registry w)))"
    using assms unfolding only_looks_def by blast
  then show ?thesis by cases simp_all
qed

lemma world_ok_only_looks [inv_intros]:
  assumes ok: "world_ok w" and looks: "only_looks w w'"
  shows "world_ok w'"
proof (rule world_ok_tables [OF ok])
  show "memory w' = memory w" "same_but_tables (registry w) (registry w')"
    using looks by (simp_all add: only_looks_def)
  show "omap_ok (table kd (registry w')) \<and>
      (\<forall>n m. omap_find (table kd (registry w')) n = Some m \<longrightarrow> omap_ok m)" for kd
  proof -
    consider "table kd (registry w') = table kd (registry w)"
      | m j where "table kd (registry w') = snd (get_at m j (table kd (registry w)))"
      | m where "table kd (registry w') = snd (list_at m (table kd (registry w)))"
      using looks unfolding only_looks_def by blast
    then show ?thesis
      using world_ok_sorted [OF ok, of kd]
      by cases (simp, metis get_at_sorted, metis list_at_sorted)
  qed
qed (simp add: only_looks_entity [OF looks])

lemma world_ok_registerTimer [inv_intros]:
  assumes "world_ok w" and "\<And>x. locked_obj (memory w) t = Some x \<Longrightarrow> timer_node_of x = Some n"
  shows "world_ok (snd (registerTimer n t w))"
proof -
  have tab: "table kd (registry (snd (registerTimer n t w))) = table kd (registry w)" for kd
    by (cases kd) (simp_all add: registerTimer_def split_beta)
  have fields: "memory (snd (registerTimer n t w)) = memory w"
    "mockRegistry (registry (snd (registerTimer n t w))) = mockRegistry (registry w)"
    "lazy_init_action_clients (registry (snd (registerTimer n t w))) = lazy_init_action_clients (registry w)"
    "lazy_init_action_servers (registry (snd (registerTimer n t w))) = lazy_init_action_servers (registry w)"
    by (simp_all add: registerTimer_def split_beta)
  have "findEntity (timersRegistry (registry (snd (registerTimer n t w)))) m [] =
      (if m = n then findEntity (timersRegistry (registry w)) n [] @ [t]
       else findEntity (timersRegistry (registry w)) m [])" for m
    using getTimers_registerTimer [of m n t w] by (simp add: getTimers_def)
  then have "timers_ok (memory w) (registry (snd (registerTimer n t w)))"
    using assms by (auto simp: timers_ok_def world_ok_def)
  moreover have "omap_ok (timersRegistry (registry (snd (registerTimer n t w))))"
    using assms(1) by (simp add: registerTimer_def split_beta om.ok_assign omap_at_ok world_ok_def sorted_ok_def)
  ultimately show ?thesis
    using assms(1) by (simp add: world_ok_def entries_ok_def mocks_ok_def lazy_ok_def sorted_ok_def tab fields)
qed

text \<open>Operations on the table of mocks and on the lazy lists.\<close>

lemma table_other_fields [simp]:
  "table kd (r\<lparr>mockRegistry := x\<rparr>) = table kd r"
  "table kd (r\<lparr>lazy_init_action_clients := y\<rparr>) = table kd r"
  "table kd (r\<lparr>lazy_init_action_servers := y\<rparr>) = table kd r"
  "table kd (r\<lparr>verbose := b\<rparr>) = table kd r"
  by (cases kd; simp)+

lemma world_ok_attachMock [inv_intros]:
  assumes "world_ok w" and "\<And>x. locked_obj (memory w) k = Some x \<Longrightarrow> mock_target x = Some p"
  shows "world_ok (attachMock p k w)"
  using assms
  by (auto simp: attachMock_def world_ok_defs sorted_ok_def om.ok_assign)

lemma world_ok_detachMock [inv_intros]: "world_ok w \<Longrightarrow> world_ok (detachMock p w)"
  by (auto simp: detachMock_def world_ok_defs sorted_ok_def om.ok_erase split: option.split if_splits)

lemma world_ok_enableVerboseLogs [inv_intros]: "world_ok w \<Longrightarrow> world_ok (enableVerboseLogs b w)"
  by (simp add: enableVerboseLogs_def world_ok_defs sorted_ok_def)

lemma table_reset: "table kd (registry (reset w)) = []"
  by (cases kd) (simp_all add: reset_def)

lemma world_ok_reset [inv_intros]: "world_ok w \<Longrightarrow> world_ok (reset w)"
  by (simp add: world_ok_defs sorted_ok_def table_reset entity_at_def findEntity_def om.ok_empty
      locked_obj_def locked_ptr_def)
     (simp add: reset_def om.ok_empty)

lemma registerLazyInit_fields [simp, reg_simps]:
  "memory (registerLazyInitClient a f n cb w) = memory w"
  "memory (registerLazyInitServer a f n cb w) = memory w"
  "registry (registerLazyInitClient a f n cb w) = (registry w)\<lparr>lazy_init_action_clients :=
     lazy_init_action_clients (registry w) @
       [\<lparr>raw_ptr = a, node_name = f, action_name = n, init_callback = cb\<rparr>]\<rparr>"
  "registry (registerLazyInitServer a f n cb w) = (registry w)\<lparr>lazy_init_action_servers :=
     lazy_init_action_servers (registry w) @
       [\<lparr>raw_ptr = a, node_name = f, action_name = n, init_callback = cb\<rparr>]\<rparr>"
  by (simp_all add: registerLazyInitClient_def registerLazyInitServer_def)

lemma removeLazyInit_fields [simp, reg_simps]:
  "memory (removeLazyInitClient a w) = memory w" "memory (removeLazyInitServer a w) = memory w"
  "registry (removeLazyInitClient a w) = (registry w)\<lparr>lazy_init_action_clients :=
     filter (\<lambda>e. \<not> raw_ptr e = a) (lazy_init_action_clients (registry w))\<rparr>"
  "registry (removeLazyInitServer a w) = (registry w)\<lparr>lazy_init_action_servers :=
     filter (\<lambda>e. \<not> raw_ptr e = a) (lazy_init_action_servers (registry w))\<rparr>"
  by (simp_all add: removeLazyInitClient_def removeLazyInitServer_def)

lemma world_ok_new_action_client [inv_intros]:
  assumes "world_ok w" and "objs (memory w) a = None"
  shows "world_ok (new_action_client a s fq w)"
  using world_ok_construct [OF assms, of "Action_client_obj s"]
  by (auto simp: new_action_client_def world_ok_defs sorted_ok_def at_ptr_def)

lemma world_ok_new_action_server [inv_intros]:
  assumes "world_ok w" and "objs (memory w) a = None"
  shows "world_ok (new_action_server a s fq w)"
  using world_ok_construct [OF assms, of "Action_server_obj s"]
  by (auto simp: new_action_server_def world_ok_defs sorted_ok_def at_ptr_def)

section \<open>Destruction keeps the invariant\<close>

text \<open>Everything but the liveness of the dying object: the state between \<open>expire\<close> and \<open>destroy\<close>.\<close>

lemmas destructor_defs = delete_PublisherMock_def delete_ServiceMock_def delete_ServiceClientMock_def
  delete_ActionClientMock_def delete_ActionServerMock_def delete_action_client_def delete_action_server_def

lemma destructor_memory [simp]: "memory (destructor a x w) = memory w"
  by (cases x) (simp_all add: destructor_defs)

lemma table_destructor [simp]: "table kd (registry (destructor a x w)) = table kd (registry w)"
  by (cases x) (simp_all add: destructor_defs
      detachMock_def split: option.split)

lemma destructor_timers [simp]: "timersRegistry (registry (destructor a x w)) = timersRegistry (registry w)"
  by (cases x) (simp_all add: destructor_defs
      detachMock_def split: option.split)

lemma destructor_mocks:
  "omap_find (mockRegistry (registry (destructor a x w))) p =
     (if mock_target x = Some p then None else omap_find (mockRegistry (registry w)) p)"
  by (cases x) (auto simp: destructor_defs
      detachMock_def split: option.split)

lemma destructor_mocks_sorted:
  "omap_ok (mockRegistry (registry w)) \<Longrightarrow> omap_ok (mockRegistry (registry (destructor a x w)))"
  by (cases x) (auto simp: destructor_defs
      detachMock_def om.ok_erase split: option.split)

lemma destructor_lazy_clients:
  "lazy_init_action_clients (registry (destructor a x w)) =
     (if \<exists>s. x = Action_client_obj s then filter (\<lambda>e. raw_ptr e \<noteq> a) (lazy_init_action_clients (registry w))
      else lazy_init_action_clients (registry w))"
  by (cases x) (simp_all add: destructor_defs
      detachMock_def split: option.split)

lemma destructor_lazy_servers:
  "lazy_init_action_servers (registry (destructor a x w)) =
     (if \<exists>s. x = Action_server_obj s then filter (\<lambda>e. raw_ptr e \<noteq> a) (lazy_init_action_servers (registry w))
      else lazy_init_action_servers (registry w))"
  by (cases x) (simp_all add: destructor_defs
      detachMock_def split: option.split)

lemma destructor_with_memory: "destructor a x (w\<lparr>memory := m\<rparr>) = (destructor a x w)\<lparr>memory := m\<rparr>"
  by (cases x) (simp_all add: destructor_defs detachMock_def removeLazyInitClient_def
      removeLazyInitServer_def upd_reg_def split: option.split)

lemma at_ptr_expire [simp]: "at_ptr (expire c m) a = at_ptr m a"
  by (simp add: at_ptr_def)

lemma destructor_lazy_ok:
  assumes ok: "lazy_ok m (registry w)" and x: "at_ptr m a = Some x"
    and others: "\<And>b. b \<noteq> a \<Longrightarrow> at_ptr m' b = at_ptr m b"
  shows "lazy_ok m' (registry (destructor a x w))"
proof -
  have "raw_ptr e \<noteq> a" if "e \<in> set (lazy_init_action_clients (registry (destructor a x w)))" for e
    using that ok x by (fastforce simp: destructor_lazy_clients lazy_ok_def split: if_splits)
  moreover have "raw_ptr e \<noteq> a" if "e \<in> set (lazy_init_action_servers (registry (destructor a x w)))" for e
    using that ok x by (fastforce simp: destructor_lazy_servers lazy_ok_def split: if_splits)
  moreover have "e \<in> set (lazy_init_action_clients (registry w))"
    if "e \<in> set (lazy_init_action_clients (registry (destructor a x w)))" for e
    using that by (auto simp: destructor_lazy_clients split: if_splits)
  moreover have "e \<in> set (lazy_init_action_servers (registry w))"
    if "e \<in> set (lazy_init_action_servers (registry (destructor a x w)))" for e
    using that by (auto simp: destructor_lazy_servers split: if_splits)
  ultimately show ?thesis using ok others unfolding lazy_ok_def by metis
qed

lemma world_ok_destroyed:
  assumes ok: "world_ok w" and x: "at_ptr (memory w) a = Some x"
    and mem: "mem_ok m'"
    and shrink: "\<And>u y. locked_obj m' u = Some y \<Longrightarrow> locked_obj (memory w) u = Some y"
    and others: "\<And>b. b \<noteq> a \<Longrightarrow> at_ptr m' b = at_ptr (memory w) b"
  shows "world_ok ((destructor a x w)\<lparr>memory := m'\<rparr>)"
proof -
  let ?r = "registry (destructor a x w)"
  have parts: "entries_ok (memory w) (registry w)" "timers_ok (memory w) (registry w)"
    "mocks_ok (memory w) (registry w)" "lazy_ok (memory w) (registry w)" "sorted_ok (registry w)"
    using ok by (simp_all add: world_ok_def)
  have "entries_ok m' ?r" using parts(1) shrink unfolding entries_ok_def table_destructor by blast
  moreover have "timers_ok m' ?r" using parts(2) shrink unfolding timers_ok_def destructor_timers by blast
  moreover have "mocks_ok m' ?r"
    using parts(3) shrink unfolding mocks_ok_def destructor_mocks by (metis option.distinct(1))
  moreover have "lazy_ok m' ?r" using destructor_lazy_ok [OF parts(4) x others] by simp
  moreover have "sorted_ok ?r"
    using parts(5) by (simp add: sorted_ok_def destructor_mocks_sorted)
  ultimately show ?thesis using mem by (simp add: world_ok_def)
qed

lemma world_ok_release [inv_intros]: "world_ok w \<Longrightarrow> world_ok (release c w)"
proof (cases "owner (memory w) c")
  case None
  then show "world_ok w \<Longrightarrow> world_ok (release c w)" by (simp add: release_def)
next
  case (Some a)
  assume ok: "world_ok w"
  then have mem: "mem_ok (memory w)" by (simp add: world_ok_def)
  then obtain x where x: "at_ptr (memory w) a = Some x"
    using Some mem_ok_locked_obj [of "memory w" "Some c" a] by (auto simp: locked_ptr_Some)
  let ?m = "destroy a (expire c (memory w))"
  have "world_ok ((destructor a x w)\<lparr>memory := ?m\<rparr>)"
  proof (rule world_ok_destroyed [OF ok x])
    show "mem_ok ?m" using mem Some by (rule mem_ok_release)
    show "locked_obj (memory w) u = Some y" if "locked_obj ?m u = Some y" for u y
      using that by (auto simp: locked_obj_Some at_ptr_def split: if_splits)
    show "at_ptr ?m b = at_ptr (memory w) b" if "b \<noteq> a" for b
      using that by (simp add: at_ptr_def)
  qed
  moreover have "release c w = (destructor a x w)\<lparr>memory := ?m\<rparr>"
    using Some x by (simp add: release_def run_destructor_def destructor_with_memory)
  ultimately show "world_ok (release c w)" by simp
qed

end
