(* ===== verification/Lazy_Registration.thy ===== *)
theory Lazy_Registration
  imports World_Invariant
begin

text \<open>
  Creation of entities, and the lazy registration of action clients and servers. The constructor
  of an action client or server cannot register the object, since no \<open>shared_ptr\<close> owns it yet; it
  queues a callback instead, and every lookup first runs the queue. The locale states what one
  kind of entity provides (its \<open>post_init_setup\<close>) and proves once what running its queue does.
\<close>

section \<open>Creation keeps the invariant\<close>

lemma world_ok_create_publisher [inv_intros]:
  assumes "world_ok w" "unused c w" "objs (memory w) a = None"
  shows "world_ok (create_publisher c a p w)"
  unfolding create_publisher_def publisher_post_init_setup_def
  by (rule world_ok_registers [OF world_ok_new_shared [OF assms] registers_ops(1)])
     (auto simp: locked_obj_new_shared)

lemma world_ok_create_subscription [inv_intros]:
  assumes "world_ok w" "unused c w" "objs (memory w) a = None"
  shows "world_ok (snd (create_subscription u k d c a s w))"
proof -
  have "world_ok (subscription_post_init_setup s (Some c)
      (w\<lparr>memory := new_shared c a (Subscription_obj s) (memory w)\<rparr>))"
    unfolding subscription_post_init_setup_def
    by (rule world_ok_registers [OF world_ok_new_shared [OF assms] registers_ops(2)])
       (auto simp: locked_obj_new_shared)
  with assms(1) show ?thesis by (simp add: create_subscription_def split: sum.split)
qed

lemma world_ok_make_shared_service [inv_intros]:
  assumes "world_ok w" "unused c w" "objs (memory w) a = None"
  shows "world_ok (make_shared_service c a s w)"
  unfolding make_shared_service_def service_post_init_setup_def
  by (rule world_ok_registers [OF world_ok_new_shared [OF assms] registers_ops(3)])
     (auto simp: locked_obj_new_shared)

lemma world_ok_make_shared_client [inv_intros]:
  assumes "world_ok w" "unused c w" "objs (memory w) a = None"
  shows "world_ok (make_shared_client c a s w)"
  unfolding make_shared_client_def client_post_init_setup_def
  by (rule world_ok_registers [OF world_ok_new_shared [OF assms] registers_ops(4)])
     (auto simp: locked_obj_new_shared)

text \<open>\<open>add_timer\<close> is rclcpp's; as a step it accepts or refuses the timer and does nothing else here.\<close>

lemma world_ok_add_and_register:
  assumes ok: "world_ok w" and fresh: "unused c w" and dead: "objs (memory w) a = None"
    and "timer_node t = Some n"
  shows "world_ok (snd (add_and_register (\<lambda>_ v. (r, v)) c a n t w))"
proof -
  let ?w = "w\<lparr>memory := new_shared c a (Timer_obj t) (memory w)\<rparr>"
  have new: "world_ok ?w" using ok fresh dead by (rule world_ok_new_shared)
  have "world_ok (snd (registerTimer (Some n) (Some c) ?w))"
    using new assms(4) by (intro world_ok_registerTimer) (auto simp: locked_obj_new_shared)
  moreover have "world_ok (w\<lparr>memory := destroy a (expire c (memory ?w))\<rparr>)"
    using world_ok_release [OF new, of c]
    by (simp add: release_def run_destructor_def at_ptr_def)
  ultimately show ?thesis by (cases r) (simp_all add: add_and_register_def)
qed

lemma world_ok_create_timer [inv_intros]:
  assumes "world_ok w" "unused c w" "objs (memory w) a = None"
  shows "world_ok (snd (create_timer (\<lambda>_ v. (r, v)) c a clk k period cb nb nt w))"
    and "world_ok (snd (create_wall_timer (\<lambda>_ v. (r, v)) c a k period cb nb nt w))"
  using assms(1) world_ok_add_and_register [OF assms]
  by (auto simp: create_timer_def create_wall_timer_def split: option.split sum.split)

section \<open>Lazy registration\<close>

text \<open>An entry whose object a \<open>shared_ptr\<close> owns by now.\<close>

definition owned :: "'m obj mem \<Rightarrow> lazy_init_entry \<Rightarrow> bool" where
  "owned m e \<longleftrightarrow> \<not> isl (shared_from_this m (raw_ptr e))"

text \<open>What running the queue once leaves: no error, the unowned entries, and every owned object known.\<close>

definition lazy_done :: "kind \<Rightarrow> lazy_init_entry list \<Rightarrow> 'm world \<Rightarrow> 'm world \<Rightarrow> bool" where
  "lazy_done kd es w w' \<longleftrightarrow> memory w' = memory w \<and> same_but_tables (registry w) (registry w') \<and>
     (\<forall>kd'. kd' \<noteq> kd \<longrightarrow> table kd' (registry w') = table kd' (registry w)) \<and>
     (\<forall>n k. lock (memory w) (entity_at (table kd (registry w)) n k) \<noteq> None \<longrightarrow>
        entity_at (table kd (registry w')) n k = entity_at (table kd (registry w)) n k) \<and>
     (\<forall>n k. entity_at (table kd (registry w')) n k \<noteq> entity_at (table kd (registry w)) n k \<longrightarrow>
        lock (memory w) (entity_at (table kd (registry w')) n k) \<noteq> None \<and> (\<exists>e \<in> set es. owned (memory w) e)) \<and>
     (\<forall>e x n k. e \<in> set es \<longrightarrow> owned (memory w) e \<longrightarrow> at_ptr (memory w) (raw_ptr e) = Some x \<longrightarrow>
        entity_id x = Some (kd, n, k) \<longrightarrow> lock (memory w) (entity_at (table kd (registry w')) n k) \<noteq> None)"

lemma lazy_done_refl: "\<forall>e \<in> set es. \<not> owned (memory w) e \<Longrightarrow> lazy_done kd es w w"
  by (auto simp: lazy_done_def same_but_tables_def)

lemma shared_from_this_live:
  "at_ptr m a = Some x \<Longrightarrow> shared_from_this m a = Inl e \<Longrightarrow> e = Bad_weak_ptr"
  by (auto simp: shared_from_this_def at_ptr_def split: option.splits)

lemma shared_from_this_locks:
  assumes "shared_from_this m a = Inr c" and "mem_ok m"
  shows "owner m c = Some a" and "lock m (Some c) = Some c"
proof -
  obtain y where y: "objs m a = Some y" "lock m (weak_this y) = Some c"
    using assms(1) by (auto simp: shared_from_this_def split: option.splits)
  then have "weak_this y = Some c" by (simp add: lock_Some)
  with y(1) assms(2) show "owner m c = Some a" unfolding mem_ok_def by blast
  then show "lock m (Some c) = Some c" by (simp add: lock_def)
qed

locale lazy_entities =
  fixes kd :: kind
    and post_init :: "closure \<Rightarrow> 'm world \<Rightarrow> ('m world, unit) res"
    and mine :: "'m obj \<Rightarrow> bool"
  assumes mine_id: "mine x \<Longrightarrow> \<exists>n k. entity_id x = Some (kd, n, k)"
    and post_owned: "at_ptr (memory w) a = Some x \<Longrightarrow> mine x \<Longrightarrow> entity_id x = Some (kd, n, k) \<Longrightarrow>
      shared_from_this (memory w) a = Inr c \<Longrightarrow>
      \<exists>w'. post_init (Post_init_setup a) w = (Inr (), w') \<and> registers kd n k (Some c) w w'"
    and post_unowned: "at_ptr (memory w) a = Some x \<Longrightarrow> mine x \<Longrightarrow>
      shared_from_this (memory w) a = Inl e \<Longrightarrow> post_init (Post_init_setup a) w = (Inl e, w)"
begin

lemma unowned_kept:
  assumes "init_callback e = Post_init_setup (raw_ptr e)" and "at_ptr (memory w) (raw_ptr e) = Some x"
    and "mine x" and "\<not> owned (memory w) e"
  shows "post_init (init_callback e) w = (Inl Bad_weak_ptr, w)"
proof -
  obtain y where "shared_from_this (memory w) (raw_ptr e) = Inl y"
    using assms(4) by (auto simp: owned_def isl_def)
  with assms show ?thesis by (metis post_unowned shared_from_this_live)
qed

lemma owned_registered:
  assumes "init_callback e = Post_init_setup (raw_ptr e)" and x: "at_ptr (memory w) (raw_ptr e) = Some x"
    and "mine x" and "owned (memory w) e" and ok: "world_ok w"
  obtains n k c w' where "post_init (init_callback e) w = (Inr (), w')"
    and "entity_id x = Some (kd, n, k)" and "registers kd n k (Some c) w w'"
    and "lock (memory w) (Some c) = Some c" and "world_ok w'"
proof -
  obtain c where c: "shared_from_this (memory w) (raw_ptr e) = Inr c"
    using assms(4) by (cases "shared_from_this (memory w) (raw_ptr e)") (auto simp: owned_def)
  obtain n k where id: "entity_id x = Some (kd, n, k)" using mine_id assms(3) by blast
  obtain w' where w': "post_init (Post_init_setup (raw_ptr e)) w = (Inr (), w')" "registers kd n k (Some c) w w'"
    using post_owned [OF x assms(3) id c] by blast
  have mem: "mem_ok (memory w)" using ok by (simp add: world_ok_def)
  have "locked_obj (memory w) (Some c) = Some x"
    using shared_from_this_locks(1) [OF c mem] x by (simp add: locked_obj_Some)
  then have "world_ok w'" using world_ok_registers [OF ok w'(2)] id by simp
  with that w' id shared_from_this_locks(2) [OF c mem] assms(1) show thesis by simp
qed

lemma registers_then_done:
  assumes reg: "registers kd n k (Some c) w w1" and c: "lock (memory w) (Some c) = Some c"
    and x: "at_ptr (memory w) (raw_ptr e) = Some x" "entity_id x = Some (kd, n, k)"
    and e: "owned (memory w) e" and don: "lazy_done kd es w1 w2"
  shows "lazy_done kd (e # es) w w2"
proof -
  have mem: "memory w1 = memory w" and tab: "table kd (registry w1) = register_at (memory w) n k (Some c) (table kd (registry w))"
    using reg by (simp_all add: registers_def)
  have live: "lock (memory w) (entity_at (table kd (registry w1)) n k) \<noteq> None"
    using c by (simp add: tab entity_at_register_at)
  have keep: "entity_at (table kd (registry w1)) n' k' = entity_at (table kd (registry w)) n' k'"
    if "lock (memory w) (entity_at (table kd (registry w)) n' k') \<noteq> None" for n' k'
    using that by (auto simp: tab entity_at_register_at)
  have new: "lock (memory w) (entity_at (table kd (registry w1)) n' k') \<noteq> None"
    if "entity_at (table kd (registry w1)) n' k' \<noteq> entity_at (table kd (registry w)) n' k'" for n' k'
    using that c by (auto simp: tab entity_at_register_at split: if_splits)
  have rest: "same_but_tables (registry w) (registry w1)"
    "\<And>kd'. kd' \<noteq> kd \<Longrightarrow> table kd' (registry w1) = table kd' (registry w)"
    using reg by (simp_all add: registers_def)
  show ?thesis
    unfolding lazy_done_def
  proof (intro conjI allI impI)
    show "memory w2 = memory w" "same_but_tables (registry w) (registry w2)"
      using don rest(1) mem by (simp_all add: lazy_done_def same_but_tables_def)
    show "table kd' (registry w2) = table kd' (registry w)" if "kd' \<noteq> kd" for kd'
      using don rest(2) that by (simp add: lazy_done_def)
    show keep2: "entity_at (table kd (registry w2)) n' k' = entity_at (table kd (registry w)) n' k'"
      if "lock (memory w) (entity_at (table kd (registry w)) n' k') \<noteq> None" for n' k'
      using don keep [OF that] that mem unfolding lazy_done_def by metis
    show "lock (memory w) (entity_at (table kd (registry w2)) n' k') \<noteq> None"
      if "entity_at (table kd (registry w2)) n' k' \<noteq> entity_at (table kd (registry w)) n' k'" for n' k'
      using don new that mem unfolding lazy_done_def by metis
    show "\<exists>e' \<in> set (e # es). owned (memory w) e'" using e by simp
    show "lock (memory w) (entity_at (table kd (registry w2)) n' k') \<noteq> None"
      if "e' \<in> set (e # es)" "owned (memory w) e'" "at_ptr (memory w) (raw_ptr e') = Some x'"
        "entity_id x' = Some (kd, n', k')" for e' x' n' k'
    proof (cases "e' \<in> set es")
      case True
      with don that mem show ?thesis unfolding lazy_done_def by metis
    next
      case False
      with that x have "n' = n" "k' = k" by auto
      then show ?thesis using don live mem unfolding lazy_done_def by metis
    qed
  qed
qed

lemma run_lazy:
  assumes "world_ok w"
    and "\<forall>e \<in> set es. init_callback e = Post_init_setup (raw_ptr e) \<and>
      (\<exists>x. at_ptr (memory w) (raw_ptr e) = Some x \<and> mine x)"
  shows "\<exists>w'. tryLazyInit post_init es w = (Inr (), filter (\<lambda>e. \<not> owned (memory w) e) es, w')
    \<and> world_ok w' \<and> lazy_done kd es w w'"
  using assms
proof (induction es arbitrary: w)
  case Nil
  then show ?case by (simp add: lazy_done_refl)
next
  case (Cons e es)
  then obtain x where cb: "init_callback e = Post_init_setup (raw_ptr e)"
    and x: "at_ptr (memory w) (raw_ptr e) = Some x" "mine x" by auto
  show ?case
  proof (cases "owned (memory w) e")
    case False
    obtain w' where w': "tryLazyInit post_init es w = (Inr (), filter (\<lambda>e. \<not> owned (memory w) e) es, w')"
      "world_ok w'" "lazy_done kd es w w'" using Cons by auto
    moreover have "lazy_done kd (e # es) w w'"
      using w'(3) False by (auto simp: lazy_done_def)
    ultimately show ?thesis
      using False unowned_kept [OF cb x False] by simp
  next
    case True
    obtain n k c w1 where w1: "post_init (init_callback e) w = (Inr (), w1)"
      "entity_id x = Some (kd, n, k)" "registers kd n k (Some c) w w1"
      "lock (memory w) (Some c) = Some c" "world_ok w1"
      by (rule owned_registered [OF cb x True \<open>world_ok w\<close>])
    have mem: "memory w1 = memory w" using w1(3) by (simp add: registers_def)
    obtain w' where w': "tryLazyInit post_init es w1 = (Inr (), filter (\<lambda>e. \<not> owned (memory w1) e) es, w')"
      "world_ok w'" "lazy_done kd es w1 w'" using Cons.IH [OF w1(5)] Cons.prems(2) by (auto simp: mem)
    have "lazy_done kd (e # es) w w'"
      by (rule registers_then_done [OF w1(3,4) x(1) w1(2) True w'(3)])
    with w' True w1(1) show ?thesis by (simp add: mem)
  qed
qed

text \<open>A queue without owned entries is left as it is, and nothing is registered.\<close>

lemma run_lazy_idle:
  assumes "\<forall>e \<in> set es. init_callback e = Post_init_setup (raw_ptr e) \<and>
      (\<exists>x. at_ptr (memory w) (raw_ptr e) = Some x \<and> mine x) \<and> \<not> owned (memory w) e"
  shows "tryLazyInit post_init es w = (Inr (), es, w)"
  using assms
proof (induction es)
  case (Cons e es)
  then obtain x where "init_callback e = Post_init_setup (raw_ptr e)" "at_ptr (memory w) (raw_ptr e) = Some x"
    "mine x" "\<not> owned (memory w) e" by auto
  then have "post_init (init_callback e) w = (Inl Bad_weak_ptr, w)" by (rule unowned_kept)
  with Cons show ?case by simp
qed simp

end

fun is_action_client :: "'m obj \<Rightarrow> bool" where
  "is_action_client (Action_client_obj s) = True"
| "is_action_client _ = False"

fun is_action_server :: "'m obj \<Rightarrow> bool" where
  "is_action_server (Action_server_obj s) = True"
| "is_action_server _ = False"

interpretation lazy_clients: lazy_entities Action_clients action_client_post_init_setup is_action_client
proof unfold_locales
  fix x :: "'a obj"
  show "is_action_client x \<Longrightarrow> \<exists>n k. entity_id x = Some (Action_clients, n, k)" by (cases x) auto
next
  fix w :: "'a world" and a x n k c
  assume "at_ptr (memory w) a = Some x" "is_action_client x" "entity_id x = Some (Action_clients, n, k)"
    "shared_from_this (memory w) a = Inr c"
  then show "\<exists>w'. action_client_post_init_setup (Post_init_setup a) w = (Inr (), w')
      \<and> registers Action_clients n k (Some c) w w'"
    by (cases x) (auto simp: action_client_post_init_setup_def registers_ops)
next
  fix w :: "'a world" and a x e
  assume "at_ptr (memory w) a = Some x" "is_action_client x" "shared_from_this (memory w) a = Inl e"
  then show "action_client_post_init_setup (Post_init_setup a) w = (Inl e, w)"
    by (cases x) (auto simp: action_client_post_init_setup_def)
qed

interpretation lazy_servers: lazy_entities Action_servers action_server_post_init_setup is_action_server
proof unfold_locales
  fix x :: "'a obj"
  show "is_action_server x \<Longrightarrow> \<exists>n k. entity_id x = Some (Action_servers, n, k)" by (cases x) auto
next
  fix w :: "'a world" and a x n k c
  assume "at_ptr (memory w) a = Some x" "is_action_server x" "entity_id x = Some (Action_servers, n, k)"
    "shared_from_this (memory w) a = Inr c"
  then show "\<exists>w'. action_server_post_init_setup (Post_init_setup a) w = (Inr (), w')
      \<and> registers Action_servers n k (Some c) w w'"
    by (cases x) (auto simp: action_server_post_init_setup_def registers_ops)
next
  fix w :: "'a world" and a x e
  assume "at_ptr (memory w) a = Some x" "is_action_server x" "shared_from_this (memory w) a = Inl e"
  then show "action_server_post_init_setup (Post_init_setup a) w = (Inl e, w)"
    by (cases x) (auto simp: action_server_post_init_setup_def)
qed

section \<open>The two lookups\<close>

lemma world_ok_lazy_subset:
  assumes "world_ok w" and "set cs \<subseteq> set (lazy_init_action_clients (registry w))"
    and "set ss \<subseteq> set (lazy_init_action_servers (registry w))"
  shows "world_ok (upd_reg (\<lambda>r. r\<lparr>lazy_init_action_clients := cs, lazy_init_action_servers := ss\<rparr>) w)"
  using assms by (auto simp: world_ok_defs sorted_ok_def)

text \<open>
  The outcome of a lookup that first runs the queue of its kind: it never fails, and changes only
  the table of that kind and the queue.
\<close>

definition lazy_lookup ::
  "kind \<Rightarrow> (static_mocks_registry \<Rightarrow> lazy_init_entry list) \<Rightarrow> weak_ptr \<Rightarrow> string \<Rightarrow> 'm world
     \<Rightarrow> ('m world, weak_ptr) res \<Rightarrow> bool" where
  "lazy_lookup kd queue n k w r \<longleftrightarrow> (\<exists>w1 w'. r = (Inr (entity_at (table kd (registry w')) n k), w') \<and>
     world_ok w' \<and> lazy_done kd (queue (registry w)) w w1 \<and> memory w' = memory w \<and>
     mockRegistry (registry w') = mockRegistry (registry w) \<and>
     timersRegistry (registry w') = timersRegistry (registry w) \<and>
     (\<forall>kd' n' k'. entity_at (table kd' (registry w')) n' k' = entity_at (table kd' (registry w1)) n' k') \<and>
     queue (registry w') = filter (\<lambda>e. \<not> owned (memory w) e) (queue (registry w)))"

lemma getActionClient_lookup:
  assumes ok: "world_ok w"
  shows "lazy_lookup Action_clients lazy_init_action_clients n k w
    (getActionClient action_client_post_init_setup n k w)"
proof -
  let ?es = "lazy_init_action_clients (registry w)"
  have entries: "\<forall>e \<in> set ?es. init_callback e = Post_init_setup (raw_ptr e) \<and>
      (\<exists>x. at_ptr (memory w) (raw_ptr e) = Some x \<and> is_action_client x)"
    using ok by (fastforce simp: world_ok_def lazy_ok_def)
  obtain w1 where w1: "tryLazyInit action_client_post_init_setup ?es w =
      (Inr (), filter (\<lambda>e. \<not> owned (memory w) e) ?es, w1)" "world_ok w1" "lazy_done Action_clients ?es w w1"
    using lazy_clients.run_lazy [OF ok entries] by blast
  define w2 where "w2 = upd_reg (\<lambda>r. r\<lparr>lazy_init_action_clients := filter (\<lambda>e. \<not> owned (memory w) e) ?es\<rparr>) w1"
  have same: "lazy_init_action_clients (registry w1) = ?es"
    using w1(3) by (simp add: lazy_done_def same_but_tables_def)
  have "world_ok w2"
    using world_ok_lazy_subset [OF w1(2), of "filter (\<lambda>e. \<not> owned (memory w) e) ?es"
        "lazy_init_action_servers (registry w1)"]
    by (simp add: same w2_def upd_reg_def)
  then have "world_ok (snd (lookupActionClient n k w2))"
    by (rule world_ok_only_looks [OF _ only_looks_ops(6)])
  moreover have "getActionClient action_client_post_init_setup n k w =
      (Inr (entity_at (table Action_clients (registry (snd (lookupActionClient n k w2)))) n k),
       snd (lookupActionClient n k w2))"
    by (simp add: getActionClient_def w1(1) w2_def lookupActionClient_def split_beta get_at_entity)
  moreover have "mockRegistry (registry (snd (lookupActionClient n k w2))) = mockRegistry (registry w)"
    "timersRegistry (registry (snd (lookupActionClient n k w2))) = timersRegistry (registry w)"
    "memory (snd (lookupActionClient n k w2)) = memory w"
    "lazy_init_action_clients (registry (snd (lookupActionClient n k w2))) = filter (\<lambda>e. \<not> owned (memory w) e) ?es"
    using w1(3) by (simp_all add: lookupActionClient_def split_beta w2_def lazy_done_def same_but_tables_def)
  moreover have "entity_at (table kd' (registry (snd (lookupActionClient n k w2)))) n' k' =
      entity_at (table kd' (registry w1)) n' k'" for kd' n' k'
    unfolding only_looks_entity [OF only_looks_ops(6)] by (simp add: w2_def)
  ultimately show ?thesis unfolding lazy_lookup_def using w1(3) by blast
qed

lemma getActionServer_lookup:
  assumes ok: "world_ok w"
  shows "lazy_lookup Action_servers lazy_init_action_servers n k w
    (getActionServer action_server_post_init_setup n k w)"
proof -
  let ?es = "lazy_init_action_servers (registry w)"
  have entries: "\<forall>e \<in> set ?es. init_callback e = Post_init_setup (raw_ptr e) \<and>
      (\<exists>x. at_ptr (memory w) (raw_ptr e) = Some x \<and> is_action_server x)"
    using ok by (fastforce simp: world_ok_def lazy_ok_def)
  obtain w1 where w1: "tryLazyInit action_server_post_init_setup ?es w =
      (Inr (), filter (\<lambda>e. \<not> owned (memory w) e) ?es, w1)" "world_ok w1" "lazy_done Action_servers ?es w w1"
    using lazy_servers.run_lazy [OF ok entries] by blast
  define w2 where "w2 = upd_reg (\<lambda>r. r\<lparr>lazy_init_action_servers := filter (\<lambda>e. \<not> owned (memory w) e) ?es\<rparr>) w1"
  have same: "lazy_init_action_servers (registry w1) = ?es"
    using w1(3) by (simp add: lazy_done_def same_but_tables_def)
  have "world_ok w2"
    using world_ok_lazy_subset [OF w1(2), of "lazy_init_action_clients (registry w1)"
        "filter (\<lambda>e. \<not> owned (memory w) e) ?es"]
    by (simp add: same w2_def upd_reg_def)
  then have "world_ok (snd (lookupActionServer n k w2))"
    by (rule world_ok_only_looks [OF _ only_looks_ops(5)])
  moreover have "getActionServer action_server_post_init_setup n k w =
      (Inr (entity_at (table Action_servers (registry (snd (lookupActionServer n k w2)))) n k),
       snd (lookupActionServer n k w2))"
    by (simp add: getActionServer_def w1(1) w2_def lookupActionServer_def split_beta get_at_entity)
  moreover have "mockRegistry (registry (snd (lookupActionServer n k w2))) = mockRegistry (registry w)"
    "timersRegistry (registry (snd (lookupActionServer n k w2))) = timersRegistry (registry w)"
    "memory (snd (lookupActionServer n k w2)) = memory w"
    "lazy_init_action_servers (registry (snd (lookupActionServer n k w2))) = filter (\<lambda>e. \<not> owned (memory w) e) ?es"
    using w1(3) by (simp_all add: lookupActionServer_def split_beta w2_def lazy_done_def same_but_tables_def)
  moreover have "entity_at (table kd' (registry (snd (lookupActionServer n k w2)))) n' k' =
      entity_at (table kd' (registry w1)) n' k'" for kd' n' k'
    unfolding only_looks_entity [OF only_looks_ops(5)] by (simp add: w2_def)
  ultimately show ?thesis unfolding lazy_lookup_def using w1(3) by blast
qed

lemma lazy_lookup_result:
  assumes "lazy_lookup kd queue n k w r"
  obtains x w' where "r = (Inr x, w')"
    and "queue (registry w') = filter (\<lambda>e. \<not> owned (memory w) e) (queue (registry w))"
    and "\<And>e y m j. e \<in> set (queue (registry w)) \<Longrightarrow> owned (memory w) e \<Longrightarrow>
      at_ptr (memory w) (raw_ptr e) = Some y \<Longrightarrow> entity_id y = Some (kd, m, j) \<Longrightarrow>
      lock (memory w') (entity_at (table kd (registry w')) m j) \<noteq> None"
proof -
  from assms obtain w1 w' where r: "r = (Inr (entity_at (table kd (registry w')) n k), w')"
    and don: "lazy_done kd (queue (registry w)) w w1" and mem: "memory w' = memory w"
    and tab: "\<And>kd' n' k'. entity_at (table kd' (registry w')) n' k' = entity_at (table kd' (registry w1)) n' k'"
    and queue: "queue (registry w') = filter (\<lambda>e. \<not> owned (memory w) e) (queue (registry w))"
    unfolding lazy_lookup_def by blast
  show thesis
    by (rule that [OF r queue]) (use don in \<open>simp add: lazy_done_def mem tab\<close>)
qed

end
