(* ===== verification/Mock_Finders.thy ===== *)
theory Mock_Finders
  imports Lazy_Registration
begin

text \<open>
  The contract of the five lookups that attach a mock: \<open>findPublisher\<close>, \<open>findService\<close>,
  \<open>findServiceClient\<close>, \<open>findActionClient\<close> and \<open>findActionServer\<close>. The locale states what each lookup
  provides; the consequences (one live mock per entity, a new one after the old one is gone, the
  mock is made for the entity asked for) are proved once inside it.
\<close>

section \<open>What a lookup sees\<close>

fun lookup_key :: "kind \<Rightarrow> string \<Rightarrow> string" where
  "lookup_key Publishers s = topic_key s"
| "lookup_key Subscriptions s = topic_key s"
| "lookup_key Services s = strip_slash s"
| "lookup_key Service_clients s = strip_slash s"
| "lookup_key Action_servers s = s"
| "lookup_key Action_clients s = s"

text \<open>The kinds whose lookup compares the type of the entity with the template argument.\<close>

fun checks_type :: "kind \<Rightarrow> bool" where
  "checks_type Service_clients = False"
| "checks_type Action_clients = False"
| "checks_type _ = True"

fun name_allowed :: "kind \<Rightarrow> string \<Rightarrow> bool" where
  "name_allowed Publishers s = (s \<noteq> [])"
| "name_allowed Subscriptions s = (s \<noteq> [])"
| "name_allowed _ s = True"

text \<open>The live entity a lookup finds, when it may use it.\<close>

definition sees :: "kind \<Rightarrow> tyname \<Rightarrow> ctrl \<Rightarrow> string \<Rightarrow> 'm world \<Rightarrow> addr option" where
  "sees kd T n s w = (if name_allowed kd s then
     (case locked_ptr (memory w) (entity_at (table kd (registry w)) (Some n) (lookup_key kd s)) of
        None \<Rightarrow> None
      | Some p \<Rightarrow> (case at_ptr (memory w) p of
            None \<Rightarrow> None
          | Some x \<Rightarrow> if checks_type kd \<longrightarrow> entity_type x = Some T then Some p else None))
     else None)"

text \<open>The queue of a kind holds only entries that cannot be registered yet.\<close>

fun lazy_queue :: "kind \<Rightarrow> static_mocks_registry \<Rightarrow> lazy_init_entry list" where
  "lazy_queue Action_servers r = lazy_init_action_servers r"
| "lazy_queue Action_clients r = lazy_init_action_clients r"
| "lazy_queue _ r = []"

definition settled :: "kind \<Rightarrow> 'm world \<Rightarrow> bool" where
  "settled kd w \<longleftrightarrow> (\<forall>e \<in> set (lazy_queue kd (registry w)). \<not> owned (memory w) e)"

text \<open>From a world to the one in which the lookup decides.\<close>

definition looks :: "kind \<Rightarrow> 'm world \<Rightarrow> 'm world \<Rightarrow> bool" where
  "looks kd w w1 \<longleftrightarrow> world_ok w1 \<and> memory w1 = memory w \<and> (\<forall>q. getMock q w1 = getMock q w) \<and>
     settled kd w1 \<and> (\<forall>c. unused c w \<longrightarrow> unused c w1) \<and>
     (settled kd w \<longrightarrow>
        (\<forall>n k. entity_at (table kd (registry w1)) n k = entity_at (table kd (registry w)) n k))"

lemma unused_change:
  assumes "unused c w" and "memory w' = memory w"
    and "mockRegistry (registry w') = mockRegistry (registry w)"
    and "timersRegistry (registry w') = timersRegistry (registry w)"
    and "\<And>kd n k. entity_at (table kd (registry w')) n k \<noteq> entity_at (table kd (registry w)) n k
      \<Longrightarrow> lock (memory w) (entity_at (table kd (registry w')) n k) \<noteq> None"
  shows "unused c w'"
proof -
  have "lock (memory w) (Some c) = None" using assms(1) by (simp add: unused_def lock_def)
  then have "entity_at (table kd (registry w')) n k \<noteq> Some c" for kd n k
    using assms(1) assms(5) [of kd n k] unfolding unused_def unreferenced_def by metis
  with assms(1-4) show ?thesis by (simp add: unused_def unreferenced_def)
qed

lemma looks_plain:
  assumes ok: "world_ok w" and looks: "only_looks w w1" and "\<And>r. lazy_queue kd r = []"
  shows "looks kd w w1"
proof -
  have "getMock q w1 = getMock q w" for q
    using looks by (simp add: getMock_def only_looks_def same_but_tables_def)
  moreover have "unused c w \<Longrightarrow> unused c w1" for c
    using looks by (rule_tac unused_change)
      (auto simp: only_looks_entity [OF looks] only_looks_def same_but_tables_def)
  ultimately show ?thesis
    using world_ok_only_looks [OF ok looks] looks assms(3)
    by (simp add: looks_def settled_def only_looks_entity [OF looks]) (simp add: only_looks_def)
qed

lemma looks_lazy:
  assumes ok: "world_ok w" and lazy: "lazy_lookup kd (lazy_queue kd) n k w (r, w')"
  shows "looks kd w w' \<and> r = Inr (entity_at (table kd (registry w')) n k)"
proof -
  from lazy obtain w1 where r: "r = Inr (entity_at (table kd (registry w')) n k)" and "world_ok w'"
    and don: "lazy_done kd (lazy_queue kd (registry w)) w w1" and mem: "memory w' = memory w"
    and mocks: "mockRegistry (registry w') = mockRegistry (registry w)"
    and timers: "timersRegistry (registry w') = timersRegistry (registry w)"
    and tabs: "\<And>kd' n' k'. entity_at (table kd' (registry w')) n' k' = entity_at (table kd' (registry w1)) n' k'"
    and queue: "lazy_queue kd (registry w') = filter (\<lambda>e. \<not> owned (memory w) e) (lazy_queue kd (registry w))"
    unfolding lazy_lookup_def by blast
  have new: "lock (memory w) (entity_at (table kd' (registry w')) n' k') \<noteq> None"
    if "entity_at (table kd' (registry w')) n' k' \<noteq> entity_at (table kd' (registry w)) n' k'" for kd' n' k'
    using don that tabs unfolding lazy_done_def by metis
  have "unused c w \<Longrightarrow> unused c w'" for c
    using mem mocks timers new by (rule_tac unused_change) auto
  moreover have "settled kd w'" by (simp add: settled_def queue mem)
  moreover have "getMock q w' = getMock q w" for q using mocks by (simp add: getMock_def)
  moreover have "entity_at (table kd (registry w')) n' k' = entity_at (table kd (registry w)) n' k'"
    if "settled kd w" for n' k'
    using don that tabs unfolding lazy_done_def settled_def by metis
  ultimately show ?thesis using r mem \<open>world_ok w'\<close> by (simp add: looks_def)
qed

section \<open>The contract\<close>

definition attached :: "ctrl \<Rightarrow> addr \<Rightarrow> 'm obj \<Rightarrow> addr \<Rightarrow> 'm world \<Rightarrow> 'm world" where
  "attached c a k p w = attachMock p (Some c) (w\<lparr>memory := new_shared c a k (memory w)\<rparr>)"

text \<open>
  The decision in world \<open>w1\<close>: no entity, no mock; an entity with a live mock, no mock and nothing
  changed; an entity without one, a new mock of the right class, attached.
\<close>

definition decides :: "kind \<Rightarrow> ctrl \<Rightarrow> addr \<Rightarrow> tyname \<Rightarrow> ctrl \<Rightarrow> string \<Rightarrow> 'm world
    \<Rightarrow> ('m world, ctrl option) res \<Rightarrow> bool" where
  "decides kd c a T n s w1 r \<longleftrightarrow>
     (case sees kd T n s w1 of
        None \<Rightarrow> (\<forall>x. fst r \<noteq> Inr (Some x)) \<and> memory (snd r) = memory w1 \<and> registry (snd r) = registry w1
      | Some p \<Rightarrow>
          if lock (memory w1) (getMock p w1) \<noteq> None
          then fst r = Inr None \<and> memory (snd r) = memory w1 \<and> registry (snd r) = registry w1
          else \<exists>k. mock_target k = Some p \<and> mock_type k = Some (kd, T) \<and> r = (Inr (Some c), attached c a k p w1))"

locale mock_finder =
  fixes kd :: kind
    and find :: "ctrl \<Rightarrow> addr \<Rightarrow> tyname \<Rightarrow> ctrl \<Rightarrow> string \<Rightarrow> 'm world \<Rightarrow> ('m world, ctrl option) res"
  assumes find_decides: "world_ok w \<Longrightarrow> \<exists>w1. looks kd w w1 \<and> decides kd c a T n s w1 (find c a T n s w)"
begin

lemma find_attaches:
  assumes "world_ok w" and "find c a T n s w = (Inr (Some c'), w')"
  obtains w1 p k where "looks kd w w1" and "sees kd T n s w1 = Some p" and "c' = c"
    and "lock (memory w1) (getMock p w1) = None" and "mock_target k = Some p"
    and "mock_type k = Some (kd, T)" and "w' = attached c a k p w1"
proof -
  obtain w1 where w1: "looks kd w w1" "decides kd c a T n s w1 (Inr (Some c'), w')"
    using find_decides [OF assms(1), of c a T n s] assms(2) by auto
  with that show thesis
    by (auto simp: decides_def split: option.splits if_splits)
qed

end

lemma looks_refl: "world_ok w \<Longrightarrow> (\<And>r. lazy_queue kd r = []) \<Longrightarrow> looks kd w w"
  by (simp add: looks_def settled_def)

lemma fst_get_ops:
  "fst (getPublisher n k w) = entity_at (table Publishers (registry w)) n k"
  "fst (getService n k w) = entity_at (table Services (registry w)) n k"
  "fst (getServiceClient n k w) = entity_at (table Service_clients (registry w)) n k"
  by (simp_all add: getPublisher_def getService_def getServiceClient_def split_beta get_at_entity)

lemma attachedI:
  "mock_target k = Some p \<Longrightarrow> mock_type k = Some (kd, T) \<Longrightarrow>
   \<exists>k'. mock_target k' = Some p \<and> mock_type k' = Some (kd, T) \<and> attached c a k p w = attached c a k' p w"
  by blast

lemma looks_ok: "looks kd w w1 \<Longrightarrow> world_ok w1"
  by (simp add: looks_def)

text \<open>What a lookup by key finds, when it finds anything, is an entity of the kind.\<close>

lemma world_ok_found:
  assumes "world_ok w" and "locked_ptr (memory w) (entity_at (table kd (registry w)) n k) = Some p"
  obtains x where "at_ptr (memory w) p = Some x" and "entity_id x = Some (kd, n, k)"
proof -
  have "mem_ok (memory w)" using assms(1) by (simp add: world_ok_def)
  from mem_ok_locked_obj [OF this assms(2)] obtain x
    where "locked_obj (memory w) (entity_at (table kd (registry w)) n k) = Some x" "at_ptr (memory w) p = Some x"
    by blast
  with assms(1) that show thesis by (simp add: world_ok_def entries_ok_def)
qed

text \<open>The entity a lookup sees is the one asked for.\<close>

lemma seen_entity:
  assumes "world_ok w" and "sees kd T n s w = Some p"
  obtains x where "at_ptr (memory w) p = Some x" and "entity_id x = Some (kd, Some n, lookup_key kd s)"
    and "checks_type kd \<longrightarrow> entity_type x = Some T"
    and "locked_ptr (memory w) (entity_at (table kd (registry w)) (Some n) (lookup_key kd s)) = Some p"
proof -
  have p: "locked_ptr (memory w) (entity_at (table kd (registry w)) (Some n) (lookup_key kd s)) = Some p"
    using assms(2) by (auto simp: sees_def split: option.splits if_splits)
  obtain x where "at_ptr (memory w) p = Some x" "entity_id x = Some (kd, Some n, lookup_key kd s)"
    by (rule world_ok_found [OF assms(1) p])
  then show thesis using that p assms(2) by (auto simp: sees_def split: option.splits if_splits)
qed

section \<open>Consequences\<close>

lemma attached_fields [simp]:
  "memory (attached c a k p w) = new_shared c a k (memory w)"
  "table kd (registry (attached c a k p w)) = table kd (registry w)"
  "lazy_queue kd (registry (attached c a k p w)) = lazy_queue kd (registry w)"
  "getMock q (attached c a k p w) = (if q = p then Some c else getMock q w)"
  by (simp_all add: attached_def mocks.get_attach)
     (simp_all add: attachMock_def, cases kd, simp_all)

lemma attached_ok:
  assumes "world_ok w" "unused c w" "objs (memory w) a = None" "mock_target k = Some p"
  shows "world_ok (attached c a k p w)"
  unfolding attached_def
  by (rule world_ok_attachMock [OF world_ok_new_shared [OF assms(1-3)]])
     (use assms(4) in \<open>auto simp: locked_obj_new_shared\<close>)

lemma sees_cong:
  assumes "\<And>n k. entity_at (table kd (registry w')) n k = entity_at (table kd (registry w)) n k"
    and "\<And>n k. locked_ptr (memory w') (entity_at (table kd (registry w)) n k) =
      locked_ptr (memory w) (entity_at (table kd (registry w)) n k)"
    and "\<And>n k p. locked_ptr (memory w) (entity_at (table kd (registry w)) n k) = Some p \<Longrightarrow>
      at_ptr (memory w') p = at_ptr (memory w) p"
  shows "sees kd T n s w' = sees kd T n s w"
  using assms(3) [of "Some n" "lookup_key kd s"]
  by (auto simp: sees_def assms(1,2) split: option.split)

lemma looks_sees: "looks kd w w1 \<Longrightarrow> settled kd w \<Longrightarrow> sees kd T n s w1 = sees kd T n s w"
  by (rule sees_cong) (simp_all add: looks_def)

lemma attached_sees:
  assumes ok: "world_ok w" and c: "unused c w" and a: "objs (memory w) a = None"
  shows "sees kd T n s (attached c a k p w) = sees kd T n s w"
proof (rule sees_cong)
  fix n k
  have ne: "entity_at (table kd (registry w)) n k \<noteq> Some c"
    using c by (simp add: unused_def unreferenced_def)
  then show "locked_ptr (memory (attached c a k' p w)) (entity_at (table kd (registry w)) n k) =
      locked_ptr (memory w) (entity_at (table kd (registry w)) n k)" for k'
    by (auto simp: locked_ptr_def lock_def split: option.split)
  fix q
  assume "locked_ptr (memory w) (entity_at (table kd (registry w)) n k) = Some q"
  then have "q \<noteq> a" using ok a owner_dead_address by (auto simp: world_ok_def)
  then show "at_ptr (memory (attached c a k' p w)) q = at_ptr (memory w) q" for k'
    by (simp add: at_ptr_def)
qed simp

text \<open>An object without an owner stays without one until a \<open>shared_ptr\<close> takes it.\<close>

lemma not_owned_weak_this:
  assumes "mem_ok m" and "at_ptr m (raw_ptr e) = Some x" and "\<not> owned m e"
  shows "\<exists>y. objs m (raw_ptr e) = Some y \<and> weak_this y = None"
proof -
  obtain y where y: "objs m (raw_ptr e) = Some y" using assms(2) by (auto simp: at_ptr_def)
  have "lock m (weak_this y) = None"
    using assms(3) y by (auto simp: owned_def shared_from_this_def split: option.splits)
  moreover have "owner m d = Some (raw_ptr e)" if "weak_this y = Some d" for d
    using assms(1) y that unfolding mem_ok_def by blast
  ultimately have "weak_this y = None" by (cases "weak_this y") (auto simp: lock_def)
  with y show ?thesis by blast
qed

lemma lazy_queue_at:
  assumes "world_ok w" and "e \<in> set (lazy_queue kd (registry w))"
  shows "\<exists>x. at_ptr (memory w) (raw_ptr e) = Some x \<and> mock_target x = None"
  using assms by (cases kd) (fastforce simp: world_ok_def lazy_ok_def)+

lemma settled_cong:
  assumes ok: "world_ok w" and "settled kd w" and "lazy_queue kd (registry w') = lazy_queue kd (registry w)"
    and "\<And>b x. objs (memory w) b = Some x \<Longrightarrow> mock_target (payload x) = None \<Longrightarrow> objs (memory w') b = Some x"
  shows "settled kd w'"
  unfolding settled_def assms(3)
proof
  fix e
  assume e: "e \<in> set (lazy_queue kd (registry w))"
  with ok obtain x where x: "at_ptr (memory w) (raw_ptr e) = Some x" "mock_target x = None"
    using lazy_queue_at by blast
  have "mem_ok (memory w)" using ok by (simp add: world_ok_def)
  moreover have "\<not> owned (memory w) e" using assms(2) e by (simp add: settled_def)
  ultimately obtain y where y: "objs (memory w) (raw_ptr e) = Some y" "weak_this y = None"
    using not_owned_weak_this x(1) by blast
  then have "objs (memory w') (raw_ptr e) = Some y" using assms(4) x by (auto simp: at_ptr_def)
  with y(2) show "\<not> owned (memory w') e" by (simp add: owned_def shared_from_this_def)
qed

lemma attached_settled:
  assumes "world_ok w" "objs (memory w) a = None" "settled kd w"
  shows "settled kd (attached c a k p w)"
  by (rule settled_cong [OF assms(1,3)]) (use assms(2) in auto)

subsection \<open>The release of a mock\<close>

lemma release_mock_fields:
  assumes "owner (memory w) c = Some a" and "at_ptr (memory w) a = Some k" and "mock_target k = Some p"
  shows "memory (release c w) = destroy a (expire c (memory w))"
    and "table kd (registry (release c w)) = table kd (registry w)"
    and "lazy_queue kd (registry (release c w)) = lazy_queue kd (registry w)"
    and "getMock q (release c w) = (if q = p then None else getMock q w)"
proof -
  have eq: "release c w = (destructor a k w)\<lparr>memory := destroy a (expire c (memory w))\<rparr>"
    using assms by (simp add: release_def run_destructor_def destructor_with_memory)
  show "memory (release c w) = destroy a (expire c (memory w))"
    "table kd (registry (release c w)) = table kd (registry w)" by (simp_all add: eq)
  show "lazy_queue kd (registry (release c w)) = lazy_queue kd (registry w)"
    using assms(3) by (cases kd) (auto simp: eq destructor_lazy_clients destructor_lazy_servers)
  show "getMock q (release c w) = (if q = p then None else getMock q w)"
    using assms(3) by (auto simp: eq getMock_def destructor_mocks)
qed

lemma release_mock_sees:
  assumes ok: "world_ok w" and c: "owner (memory w) c = Some a" and k: "at_ptr (memory w) a = Some k"
    and p: "mock_target k = Some p"
  shows "sees kd T n s (release c w) = sees kd T n s w"
proof (rule sees_cong)
  note fields = release_mock_fields [OF c k p]
  have no_entity: "entity_id k = None" using p by (cases k) auto
  fix n j
  show "entity_at (table kd (registry (release c w))) n j = entity_at (table kd (registry w)) n j"
    by (simp add: fields)
  have "entity_at (table kd (registry w)) n j \<noteq> Some c"
  proof
    assume "entity_at (table kd (registry w)) n j = Some c"
    moreover have "locked_obj (memory w) (Some c) = Some k" using c k by (simp add: locked_obj_Some)
    ultimately have "entity_id k = Some (kd, n, j)" using ok by (simp add: world_ok_def entries_ok_def)
    with no_entity show False by simp
  qed
  then show "locked_ptr (memory (release c w)) (entity_at (table kd (registry w)) n j) =
      locked_ptr (memory w) (entity_at (table kd (registry w)) n j)"
    by (auto simp: fields locked_ptr_def lock_def split: option.split)
  fix q
  assume "locked_ptr (memory w) (entity_at (table kd (registry w)) n j) = Some q"
  then obtain x where "at_ptr (memory w) q = Some x" "entity_id x = Some (kd, n, j)"
    by (rule world_ok_found [OF ok])
  then have "q \<noteq> a" using k no_entity by auto
  then show "at_ptr (memory (release c w)) q = at_ptr (memory w) q" by (simp add: fields at_ptr_def)
qed

lemma release_mock_settled:
  assumes "world_ok w" and c: "owner (memory w) c = Some a" and k: "at_ptr (memory w) a = Some k"
    and p: "mock_target k = Some p" and "settled kd w"
  shows "settled kd (release c w)"
  by (rule settled_cong [OF assms(1,5)])
     (use k p in \<open>auto simp: release_mock_fields [OF c k p] at_ptr_def\<close>)

subsection \<open>Consequences of the contract\<close>

context mock_finder
begin

lemma find_refused:
  assumes "world_ok w" "settled kd w" "sees kd T n s w = Some p" "lock (memory w) (getMock p w) \<noteq> None"
  shows "fst (find c a T n s w) = Inr None"
proof -
  obtain w1 where w1: "looks kd w w1" "decides kd c a T n s w1 (find c a T n s w)"
    using find_decides [OF assms(1)] by blast
  moreover have "sees kd T n s w1 = Some p" using looks_sees [OF w1(1) assms(2)] assms(3) by simp
  moreover have "memory w1 = memory w" "getMock p w1 = getMock p w" using w1(1) by (simp_all add: looks_def)
  ultimately show ?thesis using assms(4) by (auto simp: decides_def)
qed

lemma find_granted:
  assumes "world_ok w" "settled kd w" "sees kd T n s w = Some p" "lock (memory w) (getMock p w) = None"
  shows "fst (find c a T n s w) = Inr (Some c)"
proof -
  obtain w1 where w1: "looks kd w w1" "decides kd c a T n s w1 (find c a T n s w)"
    using find_decides [OF assms(1)] by blast
  moreover have "sees kd T n s w1 = Some p" using looks_sees [OF w1(1) assms(2)] assms(3) by simp
  moreover have "memory w1 = memory w" "getMock p w1 = getMock p w" using w1(1) by (simp_all add: looks_def)
  ultimately show ?thesis using assms(4) by (auto simp: decides_def)
qed

text \<open>The world after a successful lookup.\<close>

lemma find_success:
  assumes ok: "world_ok w" and c: "unused c w" and a: "objs (memory w) a = None"
    and find: "find c a T n s w = (Inr (Some c'), w')"
  obtains p k where "c' = c" and "world_ok w'" and "settled kd w'" and "sees kd T n s w' = Some p"
    and "getMock p w' = Some c" and "owner (memory w') c = Some a" and "at_ptr (memory w') a = Some k"
    and "mock_target k = Some p" and "mock_type k = Some (kd, T)"
proof -
  obtain w1 p k where w1: "looks kd w w1" "sees kd T n s w1 = Some p" "c' = c"
    "lock (memory w1) (getMock p w1) = None" "mock_target k = Some p" "mock_type k = Some (kd, T)"
    "w' = attached c a k p w1" by (rule find_attaches [OF ok find])
  have ok1: "world_ok w1" "unused c w1" "objs (memory w1) a = None" "settled kd w1"
    using w1(1) c a by (simp_all add: looks_def)
  show thesis
    by (rule that [of p k])
       (use w1 ok1 attached_ok [OF ok1(1-3) w1(5)] attached_settled [OF ok1(1,3,4)]
          attached_sees [OF ok1(1-3)] in \<open>simp_all add: at_ptr_def\<close>)
qed

lemma find_keeps_sees:
  assumes "world_ok w" and "settled kd w" and "unused c w" and "objs (memory w) a = None"
    and "find c a T n s w = (Inr (Some c'), w')"
  shows "sees kd T n s w' = sees kd T n s w"
proof -
  obtain w1 p k where w1: "looks kd w w1" "w' = attached c a k p w1" by (rule find_attaches [OF assms(1,5)])
  have ok1: "world_ok w1" "unused c w1" "objs (memory w1) a = None"
    using w1(1) assms(3,4) by (simp_all add: looks_def)
  show ?thesis unfolding w1(2) attached_sees [OF ok1] by (rule looks_sees [OF w1(1) assms(2)])
qed

lemma find_world_ok:
  assumes ok: "world_ok w" and "unused c w" "objs (memory w) a = None"
  shows "world_ok (snd (find c a T n s w))"
proof -
  obtain w1 where w1: "looks kd w w1" "decides kd c a T n s w1 (find c a T n s w)"
    using find_decides [OF ok] by blast
  have ok1: "world_ok w1" "unused c w1" "objs (memory w1) a = None"
    using w1(1) assms by (simp_all add: looks_def)
  show ?thesis
    using w1(2) ok1 attached_ok [OF ok1] world_ok_streams [OF ok1(1), of "snd (find c a T n s w)"]
    by (auto simp: decides_def split: option.splits if_splits)
qed

text \<open>An object no \<open>shared_ptr\<close> owns is never found.\<close>

lemma find_needs_owner:
  assumes ok: "world_ok w"
    and unowned: "\<And>q x d. at_ptr (memory w) q = Some x \<Longrightarrow> entity_id x = Some (kd, Some n, lookup_key kd s) \<Longrightarrow>
      owner (memory w) d \<noteq> Some q"
  shows "fst (find c a T n s w) \<noteq> Inr (Some c')"
proof
  assume "fst (find c a T n s w) = Inr (Some c')"
  then obtain w' where "find c a T n s w = (Inr (Some c'), w')" by (metis prod.collapse)
  then obtain v p where v: "looks kd w v" "sees kd T n s v = Some p" by (rule find_attaches [OF ok])
  then have locked: "locked_ptr (memory v) (entity_at (table kd (registry v)) (Some n) (lookup_key kd s)) = Some p"
    by (auto simp: sees_def split: option.splits if_splits)
  obtain x where "at_ptr (memory v) p = Some x" "entity_id x = Some (kd, Some n, lookup_key kd s)"
    by (rule world_ok_found [OF looks_ok [OF v(1)] locked])
  with locked v(1) unowned show False by (auto simp: locked_ptr_Some looks_def)
qed

lemma second_find_refused:
  assumes "world_ok w" "unused c w" "objs (memory w) a = None"
    and "find c a T n s w = (Inr (Some c'), w')"
  shows "fst (find c2 a2 T n s w') = Inr None"
proof -
  obtain p k where "world_ok w'" "settled kd w'" "sees kd T n s w' = Some p" "getMock p w' = Some c"
    "owner (memory w') c = Some a" by (rule find_success [OF assms])
  then show ?thesis by (intro find_refused [of w' T n s p]) (auto simp: lock_def)
qed

lemma find_after_release:
  assumes "world_ok w" "unused c w" "objs (memory w) a = None"
    and "find c a T n s w = (Inr (Some c'), w')"
  shows "fst (find c2 a2 T n s (release c w')) = Inr (Some c2)"
proof -
  obtain p k where w': "world_ok w'" "settled kd w'" "sees kd T n s w' = Some p" "getMock p w' = Some c"
    "owner (memory w') c = Some a" "at_ptr (memory w') a = Some k" "mock_target k = Some p"
    by (rule find_success [OF assms])
  note mock = w'(5-7)
  show ?thesis
    using find_granted [OF world_ok_release [OF w'(1)] release_mock_settled [OF w'(1) mock w'(2)], of T n s p]
    by (simp add: release_mock_sees [OF w'(1) mock] w'(3) release_mock_fields(4) [OF mock])
qed

lemma found_entity:
  assumes ok: "world_ok w" and "unused c w" "objs (memory w) a = None"
    and "find c a T n s w = (Inr (Some c'), w')"
  shows "\<exists>k p x. locked_obj (memory w') (Some c') = Some k \<and> mock_target k = Some p \<and>
    mock_type k = Some (kd, T) \<and> at_ptr (memory w') p = Some x \<and>
    entity_id x = Some (kd, Some n, lookup_key kd s) \<and> (checks_type kd \<longrightarrow> entity_type x = Some T)"
proof -
  obtain p k where w': "c' = c" "world_ok w'" "sees kd T n s w' = Some p"
    "owner (memory w') c = Some a" "at_ptr (memory w') a = Some k" "mock_target k = Some p"
    "mock_type k = Some (kd, T)" by (rule find_success [OF assms])
  obtain x where "at_ptr (memory w') p = Some x" "entity_id x = Some (kd, Some n, lookup_key kd s)"
    "checks_type kd \<longrightarrow> entity_type x = Some T" by (rule seen_entity [OF w'(2,3)])
  with w' show ?thesis by (auto simp: locked_obj_Some)
qed

text \<open>A lookup leaves every other object and unused control block alone.\<close>

lemma find_memory:
  assumes "world_ok w" and "find c a T n s w = (Inr (Some c'), w')"
  shows "\<exists>k. memory w' = new_shared c a k (memory w)"
proof -
  obtain w1 p k where "looks kd w w1" "w' = attached c a k p w1" by (rule find_attaches [OF assms])
  then show ?thesis by (auto simp: looks_def attached_def attachMock_def)
qed

lemma find_unused:
  assumes "world_ok w" and "find c a T n s w = (Inr (Some c'), w')" and "unused d w" and "d \<noteq> c"
  shows "unused d w'"
proof -
  obtain w1 p k where "looks kd w w1" "w' = attached c a k p w1" by (rule find_attaches [OF assms(1,2)])
  then have "unused d w1" "w' = attached c a k p w1" using assms(3) by (simp_all add: looks_def)
  then show ?thesis using assms(4) by (auto simp: attached_def attachMock_def unused_def unreferenced_def)
qed

end

section \<open>The five lookups keep the contract\<close>

interpretation find_pub: mock_finder Publishers findPublisher
proof unfold_locales
  fix w :: "'a world" and c a T n s
  assume ok: "world_ok w"
  let ?w1 = "snd (getPublisher (Some n) (topic_key s) w)"
  have looks: "looks Publishers w ?w1" by (rule looks_plain [OF ok only_looks_ops(1)]) simp
  have ref: "entity_at (table Publishers (registry ?w1)) (Some n) (topic_key s) =
      fst (getPublisher (Some n) (topic_key s) w)"
    unfolding fst_get_ops only_looks_entity [OF only_looks_ops(1)] ..
  show "\<exists>w1. looks Publishers w w1 \<and> decides Publishers c a T n s w1 (findPublisher c a T n s w)"
  proof (cases "s = []")
    case True
    then show ?thesis
      using looks_refl [OF ok, of Publishers]
      by (intro exI [of _ w]) (simp add: decides_def sees_def findPublisher_def)
  next
    case False
    have "decides Publishers c a T n s ?w1 (findPublisher c a T n s w)"
    proof (cases "locked_ptr (memory ?w1) (fst (getPublisher (Some n) (topic_key s) w))")
      case None
      then show ?thesis
        using False ref by (simp add: decides_def sees_def findPublisher_def split_beta Let_def)
    next
      case (Some p)
      then obtain x where "at_ptr (memory ?w1) p = Some x" "entity_id x = Some (Publishers, Some n, topic_key s)"
        using world_ok_found [OF looks_ok [OF looks]] ref by metis
      then show ?thesis
        using False Some ref
        by (cases x) (auto simp: decides_def sees_def findPublisher_def split_beta Let_def new_PublisherMock_def
            simp flip: attached_def intro!: attachedI)
    qed
    with looks show ?thesis by blast
  qed
qed

interpretation find_srv: mock_finder Services findService
proof unfold_locales
  fix w :: "'a world" and c a T n s
  assume ok: "world_ok w"
  let ?w1 = "snd (getService (Some n) (strip_slash s) w)"
  have looks: "looks Services w ?w1" by (rule looks_plain [OF ok only_looks_ops(3)]) simp
  have ref: "entity_at (table Services (registry ?w1)) (Some n) (strip_slash s) =
      fst (getService (Some n) (strip_slash s) w)"
    unfolding fst_get_ops only_looks_entity [OF only_looks_ops(3)] ..
  have "decides Services c a T n s ?w1 (findService c a T n s w)"
  proof (cases "locked_ptr (memory ?w1) (fst (getService (Some n) (strip_slash s) w))")
    case None
    then show ?thesis
      using ref by (simp add: decides_def sees_def findService_def split_beta Let_def)
  next
    case (Some p)
    then obtain x where "at_ptr (memory ?w1) p = Some x" "entity_id x = Some (Services, Some n, strip_slash s)"
      using world_ok_found [OF looks_ok [OF looks]] ref by metis
    then show ?thesis
      using Some ref
      by (cases x) (auto simp: decides_def sees_def findService_def split_beta Let_def new_ServiceMock_def
            simp flip: attached_def intro!: attachedI)
  qed
  with looks show "\<exists>w1. looks Services w w1 \<and> decides Services c a T n s w1 (findService c a T n s w)" by blast
qed

interpretation find_cli: mock_finder Service_clients findServiceClient
proof unfold_locales
  fix w :: "'a world" and c a T n s
  assume ok: "world_ok w"
  let ?w1 = "snd (getServiceClient (Some n) (strip_slash s) w)"
  have looks: "looks Service_clients w ?w1" by (rule looks_plain [OF ok only_looks_ops(4)]) simp
  have ref: "entity_at (table Service_clients (registry ?w1)) (Some n) (strip_slash s) =
      fst (getServiceClient (Some n) (strip_slash s) w)"
    unfolding fst_get_ops only_looks_entity [OF only_looks_ops(4)] ..
  have "decides Service_clients c a T n s ?w1 (findServiceClient c a T n s w)"
  proof (cases "locked_ptr (memory ?w1) (fst (getServiceClient (Some n) (strip_slash s) w))")
    case None
    then show ?thesis
      using ref by (simp add: decides_def sees_def findServiceClient_def split_beta Let_def)
  next
    case (Some p)
    then obtain x where "at_ptr (memory ?w1) p = Some x"
      using world_ok_found [OF looks_ok [OF looks]] ref by metis
    then show ?thesis
      using Some ref
      by (auto simp: decides_def sees_def findServiceClient_def split_beta Let_def new_ServiceClientMock_def
            simp flip: attached_def intro!: attachedI)
  qed
  with looks show "\<exists>w1. looks Service_clients w w1 \<and>
      decides Service_clients c a T n s w1 (findServiceClient c a T n s w)" by blast
qed

lemma lazy_queue_fun:
  "lazy_queue Action_clients = lazy_init_action_clients" "lazy_queue Action_servers = lazy_init_action_servers"
  by (simp_all add: fun_eq_iff)

interpretation find_acli: mock_finder Action_clients findActionClient
proof unfold_locales
  fix w :: "'a world" and c a T n s
  assume ok: "world_ok w"
  obtain r w1 where get: "getActionClient action_client_post_init_setup (Some n) s w = (r, w1)" by fastforce
  have looks: "looks Action_clients w w1" and r: "r = Inr (entity_at (table Action_clients (registry w1)) (Some n) s)"
    using looks_lazy [OF ok, of Action_clients "Some n" s r w1] getActionClient_lookup [OF ok, of "Some n" s]
    by (simp_all add: get lazy_queue_fun)
  have "decides Action_clients c a T n s w1 (findActionClient c a T n s w)"
  proof (cases "locked_ptr (memory w1) (entity_at (table Action_clients (registry w1)) (Some n) s)")
    case None
    then show ?thesis using r by (simp add: decides_def sees_def findActionClient_def get)
  next
    case (Some p)
    then obtain x where "at_ptr (memory w1) p = Some x"
      using world_ok_found [OF looks_ok [OF looks]] by metis
    then show ?thesis
      using Some r
      by (auto simp: decides_def sees_def findActionClient_def get new_ActionClientMock_def
          simp flip: attached_def intro!: attachedI)
  qed
  with looks show "\<exists>w1. looks Action_clients w w1 \<and>
      decides Action_clients c a T n s w1 (findActionClient c a T n s w)" by blast
qed

interpretation find_asrv: mock_finder Action_servers findActionServer
proof unfold_locales
  fix w :: "'a world" and c a T n s
  assume ok: "world_ok w"
  obtain r w1 where get: "getActionServer action_server_post_init_setup (Some n) s w = (r, w1)" by fastforce
  have looks: "looks Action_servers w w1" and r: "r = Inr (entity_at (table Action_servers (registry w1)) (Some n) s)"
    using looks_lazy [OF ok, of Action_servers "Some n" s r w1] getActionServer_lookup [OF ok, of "Some n" s]
    by (simp_all add: get lazy_queue_fun)
  have "decides Action_servers c a T n s w1 (findActionServer c a T n s w)"
  proof (cases "locked_ptr (memory w1) (entity_at (table Action_servers (registry w1)) (Some n) s)")
    case None
    then show ?thesis using r by (simp add: decides_def sees_def findActionServer_def get)
  next
    case (Some p)
    then obtain x where "at_ptr (memory w1) p = Some x" "entity_id x = Some (Action_servers, Some n, s)"
      using world_ok_found [OF looks_ok [OF looks]] by metis
    then show ?thesis
      using Some r
      by (cases x) (auto simp: decides_def sees_def findActionServer_def get new_ActionServerMock_def
          simp flip: attached_def intro!: attachedI)
  qed
  with looks show "\<exists>w1. looks Action_servers w w1 \<and>
      decides Action_servers c a T n s w1 (findActionServer c a T n s w)" by blast
qed

text \<open>The lookup of each kind; \<open>findSubscription\<close> returns the subscription itself and makes no mock.\<close>

fun find_mock ::
  "kind \<Rightarrow> ctrl \<Rightarrow> addr \<Rightarrow> tyname \<Rightarrow> ctrl \<Rightarrow> string \<Rightarrow> 'm world \<Rightarrow> ('m world, ctrl option) res" where
  "find_mock Publishers = findPublisher"
| "find_mock Subscriptions = (\<lambda>c a. findSubscription)"
| "find_mock Services = findService"
| "find_mock Service_clients = findServiceClient"
| "find_mock Action_servers = findActionServer"
| "find_mock Action_clients = findActionClient"

lemma find_mock_finder: "kd \<noteq> Subscriptions \<Longrightarrow> mock_finder kd (find_mock kd)"
  by (cases kd) (simp_all add: find_pub.mock_finder_axioms find_srv.mock_finder_axioms
      find_cli.mock_finder_axioms find_acli.mock_finder_axioms find_asrv.mock_finder_axioms)

lemma findSubscription_looks:
  "\<exists>w1. only_looks w w1 \<and> memory (snd (findSubscription T n s w)) = memory w1 \<and>
     registry (snd (findSubscription T n s w)) = registry w1"
proof (cases "s = []")
  case True
  then show ?thesis
    by (intro exI [of _ w]) (simp add: findSubscription_def only_looks_def same_but_tables_def)
next
  case False
  then show ?thesis
    by (intro exI [of _ "snd (getSubscription (Some n) (topic_key s) w)"])
       (auto simp: findSubscription_def split_beta Let_def only_looks_ops split: option.split)
qed

lemma world_ok_find_mock [inv_intros]:
  assumes "world_ok w" "unused c w" "objs (memory w) a = None"
  shows "world_ok (snd (find_mock kd c a T n s w))"
proof (cases "kd = Subscriptions")
  case True
  then show ?thesis
    using findSubscription_looks [of w T n s] world_ok_only_looks [OF assms(1)] world_ok_streams
    by auto
next
  case False
  then show ?thesis by (intro mock_finder.find_world_ok [OF find_mock_finder assms])
qed

end
