(* ===== verification/Test_Clock.thy ===== *)
theory Test_Clock
  imports Timer_Mock
begin

text \<open>
  \<open>TestClock\<close> and \<open>TriggeringTestClock\<close> (test_clock.hpp): simulated time for a node. The state is the
  member \<open>now_\<close> of the clock and an environment \<open>'e\<close> that holds everything the code reaches through
  rcl and rclcpp: the ROS clock, the timers and the state of user callbacks. What rcl and rclcpp do
  is the record \<open>rcl_api\<close> of functions on that environment; the list of timers comes from the
  registry of this development.

  Durations are counts of ticks of \<open>k\<close> nanoseconds; a 64-bit overflow is undefined behaviour. The
  loop of \<open>TriggeringTestClock::advance\<close> need not end, so it is a partial function: \<open>None\<close> is "does
  not return".
\<close>

record ('e, 'd) rcl_api =
  set_ros_time_override :: "int \<Rightarrow> 'e \<Rightarrow> bool \<times> 'e"
  timer_get_period :: "ctrl \<Rightarrow> 'e \<Rightarrow> int option"
  timer_is_ready :: "ctrl \<Rightarrow> 'e \<Rightarrow> bool"
  timer_call :: "ctrl \<Rightarrow> 'e \<Rightarrow> 'd option \<times> 'e"
  timer_execute_callback :: "ctrl \<Rightarrow> 'd \<Rightarrow> 'e \<Rightarrow> ('e, unit) res"

section \<open>Null checks\<close>

definition checkedDeref :: "string \<Rightarrow> 'p option \<Rightarrow> exn + 'p" where
  "checkedDeref message ptr = (case ptr of None \<Rightarrow> Inl (Invalid_argument message) | Some x \<Rightarrow> Inr x)"

section \<open>TestClock\<close>

definition resetClock :: "('e, 'd) rcl_api \<Rightarrow> int \<Rightarrow> int \<times> 'e \<Rightarrow> (int \<times> 'e, unit) res" where
  "resetClock api tv st =
     (case set_ros_time_override api tv (snd st) of (ok, e) \<Rightarrow>
        if ok then (Inr (), (fst st, e))
        else (Inl (Runtime_error ''TestClock::advanceMs() error''), (fst st, e)))"

text \<open>
  The constructor: whether the two interfaces are present, and the outcome of reading the
  parameter \<open>use_sim_time\<close> as a boolean.
\<close>

definition new_TestClock ::
  "('e, 'd) rcl_api \<Rightarrow> bool \<Rightarrow> bool \<Rightarrow> exn + bool \<Rightarrow> 'e \<Rightarrow> (int \<times> 'e, unit) res" where
  "new_TestClock api has_parameters has_clock use_sim_time e =
     (if \<not> has_parameters \<or> \<not> has_clock
      then (Inl (Invalid_argument ''TestClock - invalid node interface ptr''), (0, e))
      else case use_sim_time of
        Inl x \<Rightarrow> (Inl x, (0, e))
      | Inr b \<Rightarrow>
          if \<not> b then (Inl (Invalid_argument ''TestClock - The node must be set with use_sim_time = true''), (0, e))
          else resetClock api 0 (0, e))"

definition new_TestClock_node ::
  "('e, 'd) rcl_api \<Rightarrow> (bool \<times> bool \<times> (exn + bool)) option \<Rightarrow> 'e \<Rightarrow> (int \<times> 'e, unit) res" where
  "new_TestClock_node api node e =
     (case checkedDeref ''TestClock - invalid node ptr'' node of
        Inl x \<Rightarrow> (Inl x, (0, e))
      | Inr (has_parameters, has_clock, use_sim_time) \<Rightarrow>
          new_TestClock api has_parameters has_clock use_sim_time e)"

definition clock_now :: "int \<times> 'e \<Rightarrow> int" where
  "clock_now st = fst st"

definition advance :: "('e, 'd) rcl_api \<Rightarrow> int \<Rightarrow> int \<Rightarrow> int \<times> 'e \<Rightarrow> (int \<times> 'e, unit) res" where
  "advance api k duration st =
     (case checked64 (duration * k) of
        Inl x \<Rightarrow> (Inl x, st)
      | Inr ns \<Rightarrow>
          (case checked64 (fst st + ns) of
             Inl x \<Rightarrow> (Inl x, st)
           | Inr now \<Rightarrow>
               (case set_ros_time_override api now (snd st) of (ok, e) \<Rightarrow>
                  if ok then (Inr (), (now, e))
                  else (Inl (Runtime_error ''TestClock::advance() error''), (now, e)))))"

definition advanceMs :: "('e, 'd) rcl_api \<Rightarrow> int \<Rightarrow> int \<times> 'e \<Rightarrow> (int \<times> 'e, unit) res" where
  "advanceMs api milliseconds st = advance api 1000000 milliseconds st"

section \<open>TriggeringTestClock\<close>

definition new_TriggeringTestClock ::
  "('e, 'd) rcl_api \<Rightarrow> bool \<Rightarrow> bool \<Rightarrow> exn + bool \<Rightarrow> ctrl option \<Rightarrow> 'e \<Rightarrow> (int \<times> 'e, weak_ptr) res" where
  "new_TriggeringTestClock api has_parameters has_clock use_sim_time base_interface e =
     andthen (new_TestClock api has_parameters has_clock use_sim_time e)
       (\<lambda>_ st. case base_interface of
          None \<Rightarrow> (Inl (Invalid_argument ''TriggeringTestClock - invalid node base_interface ptr''), st)
        | Some node \<Rightarrow> (Inr (Some node), st))"

definition new_TriggeringTestClock_node ::
  "('e, 'd) rcl_api \<Rightarrow> (bool \<times> bool \<times> (exn + bool) \<times> ctrl option) option \<Rightarrow> 'e \<Rightarrow> (int \<times> 'e, weak_ptr) res" where
  "new_TriggeringTestClock_node api node e =
     (case checkedDeref ''TriggeringTestClock - invalid node ptr'' node of
        Inl x \<Rightarrow> (Inl x, (0, e))
      | Inr (has_parameters, has_clock, use_sim_time, base_interface) \<Rightarrow>
          new_TriggeringTestClock api has_parameters has_clock use_sim_time base_interface e)"

definition triggering_now :: "int \<times> 'e \<Rightarrow> int" where
  "triggering_now st = clock_now st"

text \<open>The least period, from the largest 64-bit value down.\<close>

fun timers_min_period :: "('e, 'd) rcl_api \<Rightarrow> int \<Rightarrow> ctrl list \<Rightarrow> 'e \<Rightarrow> exn + int" where
  "timers_min_period api acc [] e = Inr acc"
| "timers_min_period api acc (t # ts) e =
     (case timer_get_period api t e of
        None \<Rightarrow> Inl (Runtime_error ''TriggeringTestClock: rcl_timer_get_period() error'')
      | Some p \<Rightarrow> timers_min_period api (min acc p) ts e)"

definition get_timers_min_period :: "('e, 'd) rcl_api \<Rightarrow> ctrl list \<Rightarrow> 'e \<Rightarrow> exn + int" where
  "get_timers_min_period api timers e = timers_min_period api int64_max timers e"

fun fire_all_timer_callbacks :: "('e, 'd) rcl_api \<Rightarrow> ctrl list \<Rightarrow> 'e \<Rightarrow> ('e, unit) res" where
  "fire_all_timer_callbacks api [] e = (Inr (), e)"
| "fire_all_timer_callbacks api (t # ts) e =
     (if timer_is_ready api t e then
        (case timer_call api t e of
           (None, e1) \<Rightarrow> fire_all_timer_callbacks api ts e1
         | (Some data, e1) \<Rightarrow>
             andthen (timer_execute_callback api t data e1)
               (\<lambda>_ e2. fire_all_timer_callbacks api ts e2))
      else fire_all_timer_callbacks api ts e)"

text \<open>The loop: \<open>start\<close> is \<open>start_point\<close>, \<open>target\<close> the duration in nanoseconds.\<close>

partial_function (option) advance_loop ::
  "('e, 'd) rcl_api \<Rightarrow> ctrl list \<Rightarrow> int \<Rightarrow> int \<Rightarrow> int \<Rightarrow> int \<times> 'e \<Rightarrow> (int \<times> 'e, unit) res option" where
  "advance_loop api timers time_step target start st =
     (if start < target then
        (case advance api 1 (min time_step (target - start)) st of
           (Inl x, st1) \<Rightarrow> Some (Inl x, st1)
         | (Inr _, st1) \<Rightarrow>
             (case fire_all_timer_callbacks api timers (snd st1) of
                (Inl x, e2) \<Rightarrow> Some (Inl x, (fst st1, e2))
              | (Inr _, e2) \<Rightarrow>
                  advance_loop api timers time_step target
                    (start + min time_step (target - start)) (fst st1, e2)))
      else Some (Inr (), st))"

definition triggering_advance_timers ::
  "('e, 'd) rcl_api \<Rightarrow> ctrl list \<Rightarrow> int \<Rightarrow> int \<Rightarrow> int \<times> 'e \<Rightarrow> (int \<times> 'e, unit) res option" where
  "triggering_advance_timers api timers k target_time st =
     (if timers \<noteq> [] then
        (case get_timers_min_period api timers (snd st) of
           Inl x \<Rightarrow> Some (Inl x, st)
         | Inr time_step \<Rightarrow>
             (case checked64 (target_time * k) of
                Inl x \<Rightarrow> Some (Inl x, st)
              | Inr target \<Rightarrow> advance_loop api timers time_step target 0 st))
      else Some (advance api k target_time st))"

text \<open>With the timers the registry knows for the node; \<open>world_of\<close> reads the registry's world off the environment.\<close>

definition triggering_advance ::
  "('e, 'd) rcl_api \<Rightarrow> ('e \<Rightarrow> 'm world) \<Rightarrow> weak_ptr \<Rightarrow> int \<Rightarrow> int \<Rightarrow> int \<times> 'e
     \<Rightarrow> (int \<times> 'e, unit) res option" where
  "triggering_advance api world_of node k target_time st =
     triggering_advance_timers api (detail_findTimers node (world_of (snd st))) k target_time st"

definition triggering_resetClock :: "('e, 'd) rcl_api \<Rightarrow> int \<Rightarrow> int \<times> 'e \<Rightarrow> (int \<times> 'e, unit) res" where
  "triggering_resetClock api tv st = resetClock api tv st"

section \<open>What rcl documents about timers\<close>

text \<open>
  \<open>time\<close> is the ROS time of the clock, \<open>next_call t\<close> the time at which \<open>t\<close> is due and \<open>fired t\<close> how
  often its callback ran. Setting the time forward succeeds and touches no timer; a timer is ready from
  its due time on; a call moves the due time one period on, provided it is not late by more than
  a period; a callback returns and leaves the clock and the timers alone. \<open>good\<close> is what the
  callbacks rely on in the state of the program and keep.
\<close>

definition rcl_timer_laws ::
  "('e, 'd) rcl_api \<Rightarrow> ('e \<Rightarrow> bool) \<Rightarrow> ctrl list \<Rightarrow> (ctrl \<Rightarrow> int) \<Rightarrow> ('e \<Rightarrow> int) \<Rightarrow> (ctrl \<Rightarrow> 'e \<Rightarrow> int)
     \<Rightarrow> (ctrl \<Rightarrow> 'e \<Rightarrow> nat) \<Rightarrow> bool" where
  "rcl_timer_laws api good ts period time next_call fired \<longleftrightarrow>
     (\<forall>v e. good e \<longrightarrow> time e \<le> v \<longrightarrow> (\<exists>e'. set_ros_time_override api v e = (True, e') \<and> good e' \<and> time e' = v \<and>
        (\<forall>t \<in> set ts. next_call t e' = next_call t e \<and> fired t e' = fired t e))) \<and>
     (\<forall>t \<in> set ts. \<forall>e. good e \<longrightarrow> timer_get_period api t e = Some (period t)) \<and>
     (\<forall>t \<in> set ts. \<forall>e. good e \<longrightarrow> timer_is_ready api t e = (next_call t e \<le> time e)) \<and>
     (\<forall>t \<in> set ts. \<forall>e. good e \<longrightarrow> (\<exists>d e'. timer_call api t e = (Some d, e') \<and> good e' \<and> time e' = time e \<and>
        (\<forall>u \<in> set ts. fired u e' = fired u e \<and> (u \<noteq> t \<longrightarrow> next_call u e' = next_call u e)) \<and>
        (time e \<le> next_call t e + period t \<longrightarrow> next_call t e' = next_call t e + period t))) \<and>
     (\<forall>t \<in> set ts. \<forall>d e. good e \<longrightarrow> (\<exists>e'. timer_execute_callback api t d e = (Inr (), e') \<and> good e' \<and> time e' = time e \<and>
        (\<forall>u \<in> set ts. next_call u e' = next_call u e \<and>
           fired u e' = (if u = t then Suc (fired u e) else fired u e))))"

text \<open>How many due times \<open>nx, nx + p, nx + 2 p, \<dots>\<close> lie at or before \<open>T\<close>.\<close>

definition due_times :: "int \<Rightarrow> int \<Rightarrow> int \<Rightarrow> nat" where
  "due_times p nx T = (if T < nx then 0 else nat ((T - nx) div p + 1))"

section \<open>A simulated rcl\<close>

text \<open>A clock and timers with fixed periods: the time, the due times and the counts of calls.\<close>

type_synonym sim_env = "int \<times> (ctrl \<Rightarrow> int) \<times> (ctrl \<Rightarrow> nat)"

definition sim_api :: "(ctrl \<Rightarrow> int) \<Rightarrow> (sim_env, unit) rcl_api" where
  "sim_api period = \<lparr>
     set_ros_time_override = (\<lambda>v (t, nx, n). (True, (v, nx, n))),
     timer_get_period = (\<lambda>c e. Some (period c)),
     timer_is_ready = (\<lambda>c (t, nx, n). nx c \<le> t),
     timer_call = (\<lambda>c (t, nx, n). (Some (), (t, nx(c := nx c + period c), n))),
     timer_execute_callback = (\<lambda>c d (t, nx, n). (Inr (), (t, nx, n(c := Suc (n c)))))\<rparr>"

text \<open>A world whose registry holds the timers \<open>cs\<close> of node \<open>node\<close>.\<close>

definition timers_world :: "ctrl \<Rightarrow> ctrl list \<Rightarrow> nat world" where
  "timers_world node cs = fold (\<lambda>c w. snd (registerTimer (Some node) (Some c)
     (w\<lparr>memory := new_shared c (100 + c) (Timer_obj \<lparr>timer_period = 0, timer_callback = None, timer_node = Some node\<rparr>)
        (memory w)\<rparr>))) cs init_world"

section \<open>The loop\<close>

lemma timers_min_period_le:
  "timers_min_period api acc ts e = Inr m \<Longrightarrow>
     m \<le> acc \<and> (\<forall>t \<in> set ts. \<exists>p. timer_get_period api t e = Some p \<and> m \<le> p)"
  by (induction ts arbitrary: acc) (fastforce split: option.splits)+

lemma timers_min_period_attained:
  "timers_min_period api acc ts e = Inr m \<Longrightarrow>
     m = acc \<or> (\<exists>t \<in> set ts. timer_get_period api t e = Some m)"
proof (induction ts arbitrary: acc)
  case (Cons t ts)
  then obtain p where p: "timer_get_period api t e = Some p"
    and "timers_min_period api (min acc p) ts e = Inr m"
    by (auto split: option.splits)
  with Cons.IH [of "min acc p"] have "m = min acc p \<or> (\<exists>t \<in> set ts. timer_get_period api t e = Some m)"
    by blast
  with p show ?case by (auto simp: min_def split: if_splits)
qed simp

lemma timers_min_period_known:
  "\<forall>t \<in> set ts. timer_get_period api t e = Some (period t) \<Longrightarrow>
     timers_min_period api acc ts e = Inr (fold (\<lambda>t m. min m (period t)) ts acc)"
  by (induction ts arbitrary: acc) auto

lemma advance_loop_done: "\<not> start < target \<Longrightarrow> advance_loop api ts s target start st = Some (Inr (), st)"
  by (simp add: advance_loop.simps)

lemma advance_loop_step:
  assumes "start < target"
    and "advance api 1 (min s (target - start)) st = (Inr (), st1)"
    and "fire_all_timer_callbacks api ts (snd st1) = (Inr (), e2)"
  shows "advance_loop api ts s target start st =
    advance_loop api ts s target (start + min s (target - start)) (fst st1, e2)"
  using assms by (subst advance_loop.simps) simp

lemma advance_loop_returns:
  "0 < s \<Longrightarrow> \<exists>r. advance_loop api ts s target start st = Some r"
proof (induction "nat (target - start)" arbitrary: start st rule: less_induct)
  case less
  show ?case
  proof (cases "start < target")
    case False
    then show ?thesis by (simp add: advance_loop_done)
  next
    case True
    let ?next = "start + min s (target - start)"
    have "nat (target - ?next) < nat (target - start)" using True less.prems by auto
    then have rec: "\<exists>r. advance_loop api ts s target ?next st' = Some r" for st'
      using less by blast
    show ?thesis
      by (subst advance_loop.simps) (use rec in \<open>auto split: prod.split sum.split\<close>)
  qed
qed

text \<open>With a zero step the loop makes no progress: it can only end by an exception.\<close>

lemma advance_loop_body_stuck:
  assumes IH: "\<And>start st r. f start st = Some r \<Longrightarrow> start < target \<Longrightarrow> isl (fst r)"
    and body: "(case advance api 1 0 st of
           (Inl x, st1) \<Rightarrow> Some (Inl x, st1)
         | (Inr _, st1) \<Rightarrow>
             (case fire_all_timer_callbacks api ts (snd st1) of
                (Inl x, e2) \<Rightarrow> Some (Inl x, (fst st1, e2))
              | (Inr _, e2) \<Rightarrow> f start (fst st1, e2))) = Some r"
    and "start < target"
  shows "isl (fst r)"
proof -
  obtain v now e1 where adv: "advance api 1 0 st = (v, now, e1)" by (metis prod_cases3)
  obtain u e2 where fire: "fire_all_timer_callbacks api ts e1 = (u, e2)" by fastforce
  show ?thesis
  proof (cases v)
    case (Inl x)
    with adv body show ?thesis by auto
  next
    case v: (Inr y)
    show ?thesis
    proof (cases u)
      case (Inl x)
      with adv fire body v show ?thesis by auto
    next
      case (Inr z)
      with adv fire body v have "f start (now, e2) = Some r" by simp
      then show ?thesis using IH assms(3) by blast
    qed
  qed
qed

lemma advance_loop_stuck:
  assumes ret: "advance_loop api ts s target start st = Some r"
    and zero: "s = 0" and "start < target"
  shows "isl (fst r)"
proof -
  have "s = 0 \<longrightarrow> start < target \<longrightarrow> isl (fst r)"
  proof (rule advance_loop.raw_induct
      [where P = "\<lambda>api ts s target start st r. s = 0 \<longrightarrow> start < target \<longrightarrow> isl (fst r)", OF _ ret],
      intro impI)
    fix f api ts s target start st r
    assume IH: "\<And>api ts s target start st r.
        f api ts s target start st = Some r \<Longrightarrow> s = 0 \<longrightarrow> start < target \<longrightarrow> isl (fst r)"
      and body: "(if start < target then
        (case advance api 1 (min s (target - start)) st of
           (Inl x, st1) \<Rightarrow> Some (Inl x, st1)
         | (Inr _, st1) \<Rightarrow>
             (case fire_all_timer_callbacks api ts (snd st1) of
                (Inl x, e2) \<Rightarrow> Some (Inl x, (fst st1, e2))
              | (Inr _, e2) \<Rightarrow>
                  f api ts s target (start + min s (target - start)) (fst st1, e2)))
      else Some (Inr (), st)) = Some r"
      and "s = 0" "start < target"
    have rec: "f api ts s target start' st' = Some r' \<Longrightarrow> start' < target \<Longrightarrow> isl (fst r')" for start' st' r'
      using IH [of api ts s target start' st' r'] \<open>s = 0\<close> by simp
    have zero: "min s (target - start) = 0" "(start < target) = True" using \<open>s = 0\<close> \<open>start < target\<close> by simp_all
    show "isl (fst r)"
      by (rule advance_loop_body_stuck [where f = "f api ts s target",
          OF rec body [unfolded zero if_True add_0_right] \<open>start < target\<close>])
  qed
  with assms show ?thesis by simp
qed

section \<open>Firing under the documented behaviour of rcl\<close>

lemma rcl_timer_laws_override:
  "rcl_timer_laws api good ts period time next_call fired \<Longrightarrow> good e \<Longrightarrow> time e \<le> v \<Longrightarrow>
   \<exists>e'. set_ros_time_override api v e = (True, e') \<and> good e' \<and> time e' = v \<and>
        (\<forall>t \<in> set ts. next_call t e' = next_call t e \<and> fired t e' = fired t e)"
  by (simp add: rcl_timer_laws_def)

lemma rcl_timer_laws_call:
  "rcl_timer_laws api good ts period time next_call fired \<Longrightarrow> t \<in> set ts \<Longrightarrow> good e \<Longrightarrow>
   time e \<le> next_call t e + period t \<Longrightarrow>
   \<exists>d e'. timer_call api t e = (Some d, e') \<and> good e' \<and> time e' = time e \<and>
        (\<forall>u \<in> set ts. fired u e' = fired u e \<and> (u \<noteq> t \<longrightarrow> next_call u e' = next_call u e)) \<and>
        next_call t e' = next_call t e + period t"
  unfolding rcl_timer_laws_def by (elim conjE, drule (1) bspec, drule (1) bspec, drule (1) bspec, blast)

lemma rcl_timer_laws_execute:
  "rcl_timer_laws api good ts period time next_call fired \<Longrightarrow> t \<in> set ts \<Longrightarrow> good e \<Longrightarrow>
   \<exists>e'. timer_execute_callback api t d e = (Inr (), e') \<and> good e' \<and> time e' = time e \<and>
        (\<forall>u \<in> set ts. next_call u e' = next_call u e \<and>
           fired u e' = (if u = t then Suc (fired u e) else fired u e))"
  by (simp add: rcl_timer_laws_def)

lemma due_times_step:
  assumes "0 < p" "nx \<le> T"
  shows "due_times p nx T = Suc (due_times p (nx + p) T)"
proof (cases "T < nx + p")
  case True
  with assms show ?thesis by (simp add: due_times_def)
next
  case False
  have "(T - nx) div p = (T - (nx + p)) div p + 1"
    using assms by (simp add: div_pos_pos_trivial flip: div_add_self2) 
  moreover have "0 \<le> (T - (nx + p)) div p"
    using False assms by (simp add: pos_imp_zdiv_nonneg_iff)
  ultimately show ?thesis using False assms by (simp add: due_times_def)
qed

text \<open>One timer that is due: its callback runs once and its next call moves by a period.\<close>

lemma fire_one_laws:
  assumes laws: "rcl_timer_laws api good ts period time next_call fired" and t: "t \<in> set ts"
    and good: "good e" and due: "next_call t e \<le> time e" "time e \<le> next_call t e + period t"
  shows "\<exists>e'. fire_all_timer_callbacks api (t # us) e = fire_all_timer_callbacks api us e' \<and> good e' \<and> time e' = time e \<and>
    (\<forall>u \<in> set ts. next_call u e' = (if u = t then next_call u e + period u else next_call u e) \<and>
       fired u e' = (if u = t then Suc (fired u e) else fired u e))"
proof -
  obtain d e1 where call: "timer_call api t e = (Some d, e1)" "good e1" "time e1 = time e"
    "\<forall>u \<in> set ts. fired u e1 = fired u e \<and> (u \<noteq> t \<longrightarrow> next_call u e1 = next_call u e)"
    "next_call t e1 = next_call t e + period t"
    using rcl_timer_laws_call [OF laws t good due(2)] by blast
  obtain e2 where exec: "timer_execute_callback api t d e1 = (Inr (), e2)" "good e2" "time e2 = time e1"
    "\<forall>u \<in> set ts. next_call u e2 = next_call u e1 \<and> fired u e2 = (if u = t then Suc (fired u e1) else fired u e1)"
    using rcl_timer_laws_execute [OF laws t call(2)] by blast
  have "timer_is_ready api t e" using laws t good due(1) by (simp add: rcl_timer_laws_def)
  with call exec show ?thesis by (intro exI [of _ e2]) simp
qed

lemma fire_all_laws:
  assumes laws: "rcl_timer_laws api good ts period time next_call fired"
    and "set us \<subseteq> set ts" "distinct us"
    and "\<forall>t \<in> set us. time e \<le> next_call t e + period t" and "good e"
  shows "\<exists>e'. fire_all_timer_callbacks api us e = (Inr (), e') \<and> good e' \<and> time e' = time e \<and>
    (\<forall>t \<in> set ts.
       next_call t e' = (if t \<in> set us \<and> next_call t e \<le> time e then next_call t e + period t else next_call t e) \<and>
       fired t e' = (if t \<in> set us \<and> next_call t e \<le> time e then Suc (fired t e) else fired t e))"
  using assms(2-)
proof (induction us arbitrary: e)
  case (Cons t us)
  have t: "t \<in> set ts" "t \<notin> set us" and sub: "set us \<subseteq> set ts" "distinct us"
    and due: "time e \<le> next_call t e + period t" using Cons.prems by simp_all
  obtain e1 where e1: "fire_all_timer_callbacks api (t # us) e = fire_all_timer_callbacks api us e1" "time e1 = time e"
    "good e1" "\<forall>u \<in> set ts. next_call u e1 = (if u = t \<and> next_call t e \<le> time e then next_call u e + period u else next_call u e) \<and>
       fired u e1 = (if u = t \<and> next_call t e \<le> time e then Suc (fired u e) else fired u e)"
  proof (cases "next_call t e \<le> time e")
    case True
    with fire_one_laws [OF laws t(1) Cons.prems(4) True due, of us] that show thesis by auto
  next
    case False
    then have "\<not> timer_is_ready api t e" using laws t(1) Cons.prems(4) by (simp add: rcl_timer_laws_def)
    with False Cons.prems(4) that [of e] show thesis by simp
  qed
  have same: "next_call u e1 = next_call u e \<and> fired u e1 = fired u e" if "u \<in> set us" for u
    using e1(4) that sub(1) t(2) by (metis subsetD)
  have "\<forall>u \<in> set us. time e1 \<le> next_call u e1 + period u" using same Cons.prems(3) e1(2) by simp
  from Cons.IH [OF sub this e1(3)] obtain e' where e': "fire_all_timer_callbacks api us e1 = (Inr (), e')" "time e' = time e1"
    "good e'" "\<forall>u \<in> set ts.
       next_call u e' = (if u \<in> set us \<and> next_call u e1 \<le> time e1 then next_call u e1 + period u else next_call u e1) \<and>
       fired u e' = (if u \<in> set us \<and> next_call u e1 \<le> time e1 then Suc (fired u e1) else fired u e1)" by blast
  have "next_call u e' = (if u \<in> set (t # us) \<and> next_call u e \<le> time e then next_call u e + period u else next_call u e) \<and>
      fired u e' = (if u \<in> set (t # us) \<and> next_call u e \<le> time e then Suc (fired u e) else fired u e)" if u: "u \<in> set ts" for u
    using bspec [OF e'(4) u] bspec [OF e1(4) u] e1(2) t(2) by (cases "u = t") auto
  then show ?case using e1(1,2) e'(1-3) by (intro exI [of _ e']) auto
qed simp

text \<open>One round of the loop: the time moves by \<open>d\<close> and every timer due by then is called once.\<close>

lemma advance_round_laws:
  assumes laws: "rcl_timer_laws api good ts period time next_call fired" and "distinct ts"
    and d: "0 < d" "\<forall>t \<in> set ts. d \<le> period t" and now: "\<forall>t \<in> set ts. now < next_call t e"
    and range: "in_int64 d" "in_int64 (now + d)" and good: "good e" and start: "time e = now"
  shows "\<exists>e1 e2. advance api 1 d (now, e) = (Inr (), (now + d, e1)) \<and>
    fire_all_timer_callbacks api ts e1 = (Inr (), e2) \<and> good e2 \<and> time e2 = now + d \<and>
    (\<forall>t \<in> set ts.
       next_call t e2 = (if next_call t e \<le> now + d then next_call t e + period t else next_call t e) \<and>
       fired t e2 = (if next_call t e \<le> now + d then Suc (fired t e) else fired t e)) \<and>
    (\<forall>t \<in> set ts. now + d < next_call t e2)"
proof -
  obtain e1 where e1: "set_ros_time_override api (now + d) e = (True, e1)" "time e1 = now + d"
    "\<forall>t \<in> set ts. next_call t e1 = next_call t e \<and> fired t e1 = fired t e" "good e1"
    using rcl_timer_laws_override [OF laws good, of "now + d"] start d(1) by auto
  have "\<forall>t \<in> set ts. time e1 \<le> next_call t e1 + period t" using e1 now d by fastforce
  with fire_all_laws [OF laws subset_refl assms(2) _ e1(4)] obtain e2 where e2:
    "fire_all_timer_callbacks api ts e1 = (Inr (), e2)" "time e2 = now + d" "good e2"
    "\<forall>t \<in> set ts.
       next_call t e2 = (if next_call t e \<le> now + d then next_call t e + period t else next_call t e) \<and>
       fired t e2 = (if next_call t e \<le> now + d then Suc (fired t e) else fired t e)"
    using e1 by auto
  have "\<forall>t \<in> set ts. now + d < next_call t e2" using e2(4) now d by fastforce
  with e1(1) e2 range show ?thesis by (auto simp: advance_def checked64_def)
qed

lemma advance_loop_laws:
  assumes laws: "rcl_timer_laws api good ts period time next_call fired" and "distinct ts"
    and pos: "0 < s" and le: "\<forall>t \<in> set ts. s \<le> period t"
  shows "time e = now \<Longrightarrow> \<forall>t \<in> set ts. now < next_call t e \<Longrightarrow> start \<le> target \<Longrightarrow>
     in_int64 now \<Longrightarrow> in_int64 (now + (target - start)) \<Longrightarrow> 0 \<le> start \<Longrightarrow> in_int64 target \<Longrightarrow> good e \<Longrightarrow>
     \<exists>e'. advance_loop api ts s target start (now, e) = Some (Inr (), (now + (target - start), e')) \<and>
       good e' \<and> time e' = now + (target - start) \<and>
       (\<forall>t \<in> set ts. fired t e' = fired t e + due_times (period t) (next_call t e) (now + (target - start))
          \<and> next_call t e' = next_call t e + period t * int (due_times (period t) (next_call t e) (now + (target - start)))
          \<and> now + (target - start) < next_call t e')"
proof (induction "nat (target - start)" arbitrary: start now e rule: less_induct)
  case less
  show ?case
  proof (cases "start < target")
    case False
    with less.prems show ?thesis by (auto simp: advance_loop_done due_times_def)
  next
    case True
    define d where "d = min s (target - start)"
    have d: "0 < d" "d \<le> s" "start + d \<le> target" using True pos by (auto simp: d_def)
    have range: "in_int64 d" "in_int64 (now + d)"
      using d less.prems by (auto simp: in_int64_def int64_min_def)
    obtain e1 e2 where round: "advance api 1 d (now, e) = (Inr (), (now + d, e1))"
      "fire_all_timer_callbacks api ts e1 = (Inr (), e2)" "time e2 = now + d"
      "good e2" "\<forall>t \<in> set ts. next_call t e2 = (if next_call t e \<le> now + d then next_call t e + period t else next_call t e) \<and>
         fired t e2 = (if next_call t e \<le> now + d then Suc (fired t e) else fired t e)"
      "\<forall>t \<in> set ts. now + d < next_call t e2"
      using advance_round_laws [OF laws assms(2) d(1) _ less.prems(2) range less.prems(8,1)] d(2) le by fastforce
    have end_time: "now + d + (target - (start + d)) = now + (target - start)" by simp
    obtain e' where e': "advance_loop api ts s target (start + d) (now + d, e2) = Some (Inr (), (now + (target - start), e'))"
       "time e' = now + (target - start)" "good e'"
       "\<forall>t \<in> set ts. fired t e' = fired t e2 + due_times (period t) (next_call t e2) (now + (target - start))
          \<and> next_call t e' = next_call t e2 + period t * int (due_times (period t) (next_call t e2) (now + (target - start)))
          \<and> now + (target - start) < next_call t e'"
      using less.hyps [of "start + d" e2 "now + d", unfolded end_time] less.prems d range round(3,4,6) by auto
    have "advance_loop api ts s target start (now, e) = Some (Inr (), (now + (target - start), e'))"
      using advance_loop_step [OF True round(1) [unfolded d_def]] round(2) e'(1) by (simp add: d_def)
    moreover have "fired t e' = fired t e + due_times (period t) (next_call t e) (now + (target - start)) \<and>
        next_call t e' = next_call t e + period t * int (due_times (period t) (next_call t e) (now + (target - start)))"
      if t: "t \<in> set ts" for t
    proof -
      have "0 < period t" using le t pos by fastforce
      then show ?thesis using e'(4) round(5) t d(3) by (auto simp: due_times_step algebra_simps)
    qed
    ultimately show ?thesis using e' by auto
  qed
qed

lemma sim_api_laws:
  "rcl_timer_laws (sim_api period) (\<lambda>_. True) ts period fst (\<lambda>t e. fst (snd e) t) (\<lambda>t e. snd (snd e) t)"
  by (auto simp: rcl_timer_laws_def sim_api_def)

lemma min_period_pos:
  assumes "get_timers_min_period api ts e = Inr s"
    and "\<forall>t \<in> set ts. \<forall>p. timer_get_period api t e = Some p \<longrightarrow> 0 < p"
  shows "0 < s"
  using timers_min_period_attained [OF assms(1) [unfolded get_timers_min_period_def]] assms(2)
  by (auto simp: int64_max_def)

lemma min_period_bounds:
  assumes "rcl_timer_laws api good ts period time next_call fired" and "\<forall>t \<in> set ts. 0 < period t" and "good e"
  shows "\<exists>s. get_timers_min_period api ts e = Inr s \<and> 0 < s \<and> (\<forall>t \<in> set ts. s \<le> period t)"
proof -
  have known: "\<forall>t \<in> set ts. timer_get_period api t e = Some (period t)"
    using assms(1,3) by (simp add: rcl_timer_laws_def)
  obtain s where s: "get_timers_min_period api ts e = Inr s"
    using timers_min_period_known [OF known] by (auto simp: get_timers_min_period_def)
  with timers_min_period_le [of api int64_max ts e s] known min_period_pos [OF s] assms(2) show ?thesis
    by (auto simp: get_timers_min_period_def)
qed

lemma timers_world_find:
  "detail_findTimers (Some 1) (timers_world 1 [5, 6]) = [5, 6]"
  "detail_findTimers (Some 1) (timers_world 1 [5]) = [5]"
  by code_simp+

text \<open>The effect of \<open>advance\<close>, with what the callbacks keep.\<close>

lemma advance_fires:
  assumes "detail_findTimers node (world_of e) = timers" and "timers \<noteq> []" and "distinct timers"
    and "rcl_timer_laws api good timers period time next_call fired"
    and "\<forall>t \<in> set timers. 0 < period t"
    and "time e = now" and "\<forall>t \<in> set timers. now < next_call t e"
    and "in_int64 now" and "0 \<le> d * k" and "in_int64 (d * k)" and "in_int64 (now + d * k)" and "good e"
  shows "\<exists>e'. triggering_advance api world_of node k d (now, e) = Some (Inr (), (now + d * k, e'))
    \<and> good e' \<and> time e' = now + d * k
    \<and> (\<forall>t \<in> set timers. fired t e' = fired t e + due_times (period t) (next_call t e) (now + d * k)
         \<and> next_call t e' = next_call t e + period t * int (due_times (period t) (next_call t e) (now + d * k))
         \<and> now + d * k < next_call t e')"
proof -
  obtain s where s: "get_timers_min_period api timers e = Inr s" "0 < s" "\<forall>t \<in> set timers. s \<le> period t"
    using min_period_bounds [OF assms(4,5,12)] by blast
  show ?thesis
    using advance_loop_laws [OF assms(4,3) s(2,3) assms(6,7), of 0 "d * k"] assms s(1)
    by (simp add: triggering_advance_def triggering_advance_timers_def checked64_def)
qed

section \<open>Properties\<close>

text \<open>C8: What \<open>TriggeringTestClock::advance\<close> promises: it returns, the clock has moved by exactly the
  target, and in between the callback of every timer of the node ran once for each of its due
  times, those that fall on the final instant included; each timer is then due at the next of these
  times, in the future.
  The timers are those the registry lists for the node, with positive periods and none overdue at
  the start; rcl behaves as documented.\<close>

theorem advance_fires_due_timers:
  assumes "detail_findTimers node (world_of e) = timers" and "timers \<noteq> []" and "distinct timers"
    and "rcl_timer_laws api good timers period time next_call fired"
    and "\<forall>t \<in> set timers. 0 < period t"
    and "time e = now" and "\<forall>t \<in> set timers. now < next_call t e"
    and "in_int64 now" and "0 \<le> d * k" and "in_int64 (d * k)" and "in_int64 (now + d * k)" and "good e"
  shows "\<exists>e'. triggering_advance api world_of node k d (now, e) = Some (Inr (), (now + d * k, e'))
    \<and> time e' = now + d * k
    \<and> (\<forall>t \<in> set timers. fired t e' = fired t e + due_times (period t) (next_call t e) (now + d * k)
         \<and> next_call t e' = next_call t e + period t * int (due_times (period t) (next_call t e) (now + d * k))
         \<and> now + d * k < next_call t e')"
  using advance_fires [where node = node and world_of = world_of and e = e and d = d and k = k, OF assms] by blast

theorem advance_fires_due_timers_witness:
  "\<exists>e'. triggering_advance (sim_api (\<lambda>c. if c = 5 then 3000000 else 5000000)) (\<lambda>_. timers_world 1 [5, 6])
        (Some 1) 1000000 10 (0, (0, (\<lambda>c. if c = 5 then 3000000 else 5000000), (\<lambda>_. 0))) =
        Some (Inr (), (0 + 10 * 1000000, e'))
    \<and> fst e' = 0 + 10 * 1000000
    \<and> (\<forall>t \<in> set [5, 6]. snd (snd e') t = 0 + due_times (if t = 5 then 3000000 else 5000000)
            (if t = 5 then 3000000 else 5000000) (0 + 10 * 1000000)
         \<and> fst (snd e') t = (if t = 5 then 3000000 else 5000000) + (if t = 5 then 3000000 else 5000000) *
            int (due_times (if t = 5 then 3000000 else 5000000) (if t = 5 then 3000000 else 5000000) (0 + 10 * 1000000))
         \<and> 0 + 10 * 1000000 < fst (snd e') t)"
  using advance_fires_due_timers [where api = "sim_api (\<lambda>c. if c = 5 then 3000000 else 5000000)"
      and world_of = "\<lambda>_. timers_world 1 [5, 6]" and timers = "[5, 6]" and node = "Some 1"
      and period = "\<lambda>c. if c = 5 then 3000000 else 5000000" and time = fst and good = "\<lambda>_. True"
      and next_call = "\<lambda>t e. fst (snd e) t" and fired = "\<lambda>t e. snd (snd e) t"
      and now = 0 and d = 10 and k = 1000000
      and e = "(0, (\<lambda>c. if c = 5 then 3000000 else 5000000), (\<lambda>_. 0))"]
  by (simp add: sim_api_laws in_int64_def int64_min_def int64_max_def timers_world_find [simplified])

text \<open>C9: \<open>advance\<close> returns, normally or with an exception, whatever rcl and the callbacks do, when
  no timer of the node reports a period of zero or less.\<close>

theorem advance_returns:
  assumes "\<forall>t \<in> set (detail_findTimers node (world_of (snd st))).
      \<forall>p. timer_get_period api t (snd st) = Some p \<longrightarrow> 0 < p"
  shows "\<exists>r. triggering_advance api world_of node k d st = Some r"
proof (cases "get_timers_min_period api (detail_findTimers node (world_of (snd st))) (snd st)")
  case (Inl x)
  then show ?thesis
    by (cases "advance api k d st") (simp add: triggering_advance_def triggering_advance_timers_def)
next
  case (Inr s)
  then have "\<exists>r. advance_loop api (detail_findTimers node (world_of (snd st))) s (d * k) 0 st = Some r"
    using min_period_pos [OF _ assms] advance_loop_returns by blast
  with Inr show ?thesis
    by (cases "advance api k d st")
       (simp add: triggering_advance_def triggering_advance_timers_def checked64_def)
qed

theorem advance_returns_witness:
  "\<exists>r. triggering_advance (sim_api (\<lambda>_. 7)) (\<lambda>_. timers_world 1 [5]) (Some 1) 1 20
     (0, (0, (\<lambda>_. 0), (\<lambda>_. 0))) = Some r"
  by (rule advance_returns) (simp add: sim_api_def)

text \<open>C27: A timer with period zero, which \<open>create_timer\<close> accepts, makes \<open>advance\<close> by any positive time
  useless: it never completes. The step of the loop is zero, so the loop ends only if something
  throws.\<close>

theorem zero_period_blocks_advance:
  assumes "t \<in> set (detail_findTimers node (world_of (snd st)))"
    and "timer_get_period api t (snd st) = Some 0"
    and "\<forall>u \<in> set (detail_findTimers node (world_of (snd st))).
      \<forall>p. timer_get_period api u (snd st) = Some p \<longrightarrow> 0 \<le> p"
    and "0 < d * k"
  shows "triggering_advance api world_of node k d st \<noteq> Some (Inr (), st')"
proof -
  let ?ts = "detail_findTimers node (world_of (snd st))"
  have zero: "s = 0" if "get_timers_min_period api ?ts (snd st) = Inr s" for s
    using timers_min_period_le [OF that [unfolded get_timers_min_period_def]]
      timers_min_period_attained [OF that [unfolded get_timers_min_period_def]] assms(1-3)
    by (fastforce simp: int64_max_def)
  show ?thesis
    using assms(1,4) zero advance_loop_stuck [of api ?ts 0 "d * k" 0 st "(Inr (), st')"]
    by (auto simp: triggering_advance_def triggering_advance_timers_def split: sum.split)
qed

theorem zero_period_blocks_advance_witness:
  "\<forall>st'. triggering_advance (sim_api (\<lambda>_. 0)) (\<lambda>_. timers_world 1 [5]) (Some 1) 1000000 1
     (0, (0, (\<lambda>_. 0), (\<lambda>_. 0))) \<noteq> Some (Inr (), st')"
  by (intro allI zero_period_blocks_advance [where t = 5])
     (simp_all add: sim_api_def timers_world_find [simplified])

text \<open>With timers present, \<open>advance\<close> by zero or less does nothing at all, while without timers
  the same call moves the clock back.\<close>

lemma advance_not_forward:
  assumes "d * k \<le> 0" and "in_int64 (d * k)"
    and "\<forall>t \<in> set (detail_findTimers node (world_of (snd st))). timer_get_period api t (snd st) \<noteq> None"
  shows "triggering_advance api world_of node k d st =
    (if detail_findTimers node (world_of (snd st)) = [] then Some (advance api k d st)
     else Some (Inr (), st))"
proof -
  let ?ts = "detail_findTimers node (world_of (snd st))"
  have "\<forall>t \<in> set ?ts. timer_get_period api t (snd st) = Some (the (timer_get_period api t (snd st)))"
    using assms(3) by auto
  from timers_min_period_known [OF this] show ?thesis
    using assms(1,2)
    by (simp add: triggering_advance_def triggering_advance_timers_def get_timers_min_period_def
        checked64_def advance_loop_done)
qed

text \<open>C28: \<open>resetClock\<close> overrides the ROS time but not the member \<open>now_\<close>: \<open>now()\<close> keeps its value and
  the next \<open>advance\<close> continues from the time before the reset.\<close>

theorem reset_forgotten_by_advance:
  assumes "resetClock api tv (now, e) = (Inr (), st1)"
    and "advance api k d st1 = (Inr (), st2)"
  shows "clock_now st1 = now \<and> clock_now st2 = now + d * k
    \<and> set_ros_time_override api tv e = (True, snd st1)
    \<and> set_ros_time_override api (now + d * k) (snd st1) = (True, snd st2)"
  using assms
  by (auto simp: resetClock_def advance_def clock_now_def checked64_def split: if_splits prod.splits)

theorem reset_forgotten_by_advance_witness:
  "\<exists>st1 st2. resetClock (sim_api (\<lambda>_. 1)) 1000 (50, (50, (\<lambda>_. 0), (\<lambda>_. 0))) = (Inr (), st1)
    \<and> advance (sim_api (\<lambda>_. 1)) 1 5 st1 = (Inr (), st2)
    \<and> clock_now st1 = 50 \<and> clock_now st2 = 50 + 5 * 1 \<and> fst (snd st1) = 1000 \<and> fst (snd st2) = 55"
proof -
  have a: "resetClock (sim_api (\<lambda>_. 1)) 1000 (50, (50, (\<lambda>_. 0), (\<lambda>_. 0))) =
      (Inr (), (50, (1000, (\<lambda>_. 0), (\<lambda>_. 0))))"
    by (simp add: resetClock_def sim_api_def)
  have b: "advance (sim_api (\<lambda>_. 1)) 1 5 (50, (1000, (\<lambda>_. 0), (\<lambda>_. 0))) =
      (Inr (), (55, (55, (\<lambda>_. 0), (\<lambda>_. 0))))"
    by (simp add: advance_def sim_api_def checked64_def in_int64_def int64_min_def int64_max_def)
  show ?thesis using a b reset_forgotten_by_advance [OF a b] by auto
qed

text \<open>A \<open>TestClock\<close> exists only for a node with both interfaces whose \<open>use_sim_time\<close> is true and
  whose clock accepts the override; it then starts at time zero. Any other construction throws.\<close>

lemma TestClock_construction:
  "new_TestClock_node api node e = (Inr (), st) \<longleftrightarrow>
     (node = Some (True, True, Inr True) \<and> fst (set_ros_time_override api 0 e)
      \<and> st = (0, snd (set_ros_time_override api 0 e)))"
  by (auto simp: new_TestClock_node_def checkedDeref_def new_TestClock_def resetClock_def
      split: option.splits sum.splits prod.splits if_splits)

end
