(* ===== verification/Framework.thy ===== *)
theory Framework
  imports Mock_Finders Test_Clock
begin

text \<open>
  The framework as a state machine: the steps by which a test and the code under test change the
  world, in any order, and what holds in every reachable world. An address may be used again as
  soon as its object is gone; a control block only when nothing refers to it any more.
\<close>

section \<open>Steps\<close>

inductive step :: "'m world \<Rightarrow> 'm world \<Rightarrow> bool" where
  Create_node: "fresh_ctrl c w \<Longrightarrow> objs (memory w) a = None \<Longrightarrow>
    step w (w\<lparr>memory := new_shared c a (Node_obj name) (memory w)\<rparr>)"
| Create_publisher: "fresh_ctrl c w \<Longrightarrow> objs (memory w) a = None \<Longrightarrow> step w (create_publisher c a p w)"
| Create_subscription: "fresh_ctrl c w \<Longrightarrow> objs (memory w) a = None \<Longrightarrow>
    step w (snd (create_subscription ip kl d c a s w))"
| Create_timer: "fresh_ctrl c w \<Longrightarrow> objs (memory w) a = None \<Longrightarrow>
    step w (snd (create_timer (\<lambda>_ v. (r, v)) c a (clk :: unit option) k period cb nb (nt :: unit option) w))"
| Create_wall_timer: "fresh_ctrl c w \<Longrightarrow> objs (memory w) a = None \<Longrightarrow>
    step w (snd (create_wall_timer (\<lambda>_ v. (r, v)) c a k period cb nb (nt :: unit option) w))"
| Create_service: "fresh_ctrl c w \<Longrightarrow> objs (memory w) a = None \<Longrightarrow> step w (make_shared_service c a srv w)"
| Create_client: "fresh_ctrl c w \<Longrightarrow> objs (memory w) a = None \<Longrightarrow> step w (make_shared_client c a cli w)"
| Construct_action_client: "objs (memory w) a = None \<Longrightarrow> step w (new_action_client a ac fq w)"
| Construct_action_server: "objs (memory w) a = None \<Longrightarrow> step w (new_action_server a as fq w)"
| Take_ownership: "fresh_ctrl c w \<Longrightarrow> objs (memory w) a = Some x \<Longrightarrow> weak_this x = None \<Longrightarrow>
    step w (w\<lparr>memory := adopt c a (memory w)\<rparr>)"
| Create_goal_handle: "fresh_ctrl c w \<Longrightarrow> objs (memory w) a = None \<Longrightarrow>
    step w (w\<lparr>memory := new_shared c a (Goal_handle_obj (makeClientGoalHandle garbage)) (memory w)\<rparr>)"
| Find: "fresh_ctrl c w \<Longrightarrow> objs (memory w) a = None \<Longrightarrow> step w (snd (find_mock kd c a T n name w))"
| Publish: "step w (snd (publish_sink p T msg w))"
| Set_count: "step w (w\<lparr>memory := modify a (on_publisher_mock (setSubscriptionCount sz)) (memory w)\<rparr>)"
| Respond: "step w (send_response a hdr rsp w)"
| Client_call: "step w (w\<lparr>memory := modify a (record_client_call cc) (memory w)\<rparr>)"
| Action_call: "step w (w\<lparr>memory := modify a (record_action_call ac) (memory w)\<rparr>)"
| Update_goal_handle: "step w (w\<lparr>memory := modify a (on_goal_handle f) (memory w)\<rparr>)"
| Stop_callbacks: "step w (snd (stop_callbacks_unmocked p g w))"
| Release: "step w (release c w)"
| Destroy_unowned: "objs (memory w) a = Some x \<Longrightarrow> weak_this x = None \<Longrightarrow> step w (run_destructor a w)"
| Look: "only_looks w w' \<Longrightarrow> step w w'"
| Dump: "step w (dumpRegistry nd w)"
| Verbose: "step w (enableVerboseLogs b w)"
| End_of_suite: "step w (OnTestSuiteEnd w)"

inductive reachable :: "'m world \<Rightarrow> bool" where
  start: "reachable init_world"
| move: "reachable w \<Longrightarrow> step w w' \<Longrightarrow> reachable w'"

section \<open>The invariant\<close>

lemma ident_updates [simp]:
  "ident (on_publisher_mock (mock_publish m) x) = ident x"
  "ident (on_publisher_mock (setSubscriptionCount n) x) = ident x"
  "ident (record_response h r x) = ident x"
  "ident (record_client_call cc x) = ident x"
  "ident (record_action_call ac x) = ident x"
  "ident (on_goal_handle f x) = ident x"
  "ident (erase_goal g x) = ident x"
  by (cases x; simp add: mock_publish_def setSubscriptionCount_def)+

lemma world_ok_publish [inv_intros]: "world_ok w \<Longrightarrow> world_ok (snd (publish_sink p T m w))"
  by (auto simp: publish_sink_def intro: world_ok_modify split: sum.split option.split)

lemma world_ok_stop_callbacks [inv_intros]:
  "world_ok w \<Longrightarrow> world_ok (snd (stop_callbacks_unmocked p g w))"
proof -
  assume ok: "world_ok w"
  have mod: "world_ok v \<Longrightarrow> world_ok (v\<lparr>memory := modify b f (memory v)\<rparr>)"
    if "\<And>x. ident (f x) = ident x" for v :: "'a world" and b f
    using that by (rule world_ok_modify [rotated])
  have twice: "world_ok (w\<lparr>memory := modify a f (modify b h (memory w))\<rparr>)"
    if "\<And>x. ident (f x) = ident x" "\<And>x. ident (h x) = ident x" for a b f h
    using mod [OF that(1) mod [OF that(2) ok], of a b] by simp
  show ?thesis
    unfolding stop_callbacks_unmocked_def Let_def
    by (auto intro!: mod twice ok split: option.split obj.split)
qed

lemma world_ok_run_destructor [inv_intros]:
  assumes ok: "world_ok w" and x: "objs (memory w) a = Some x" "weak_this x = None"
  shows "world_ok (run_destructor a w)"
proof -
  have mem: "mem_ok (memory w)" using ok by (simp add: world_ok_def)
  then have unowned: "owner (memory w) c \<noteq> Some a" for c using x unfolding mem_ok_def by auto
  have "world_ok ((destructor a (payload x) w)\<lparr>memory := destroy a (memory w)\<rparr>)"
  proof (rule world_ok_destroyed [OF ok])
    show "at_ptr (memory w) a = Some (payload x)" using x by (simp add: at_ptr_def)
    show "mem_ok (destroy a (memory w))" using mem x unowned unfolding mem_ok_def by auto
  qed (auto simp: locked_obj_Some at_ptr_def split: if_splits)
  then show ?thesis using x by (simp add: run_destructor_def at_ptr_def)
qed

lemma fresh_unused: "fresh_ctrl c w \<Longrightarrow> unused c w"
  by (simp add: fresh_ctrl_def)

lemma step_world_ok: "step w w' \<Longrightarrow> world_ok w \<Longrightarrow> world_ok w'"
proof (induction rule: step.induct)
  case (Respond w a hdr rsp)
  then show ?case by (simp add: send_response_def world_ok_modify)
next
  case (Dump w nd)
  then show ?case by (rule world_ok_streams) simp_all
next
  case (End_of_suite w)
  then show ?case by (simp add: OnTestSuiteEnd_def world_ok_reset)
qed (auto intro: inv_intros fresh_unused world_ok_new_shared world_ok_adopt)

lemma reachable_world_ok: "reachable w \<Longrightarrow> world_ok w"
  by (induction rule: reachable.induct) (simp_all add: world_ok_init step_world_ok)

inductive_cases step_from: "step w w'"

section \<open>Freshness along a run\<close>

lemma fresh_empty:
  assumes r: "registry w = empty_registry" and c: "owner (memory w) c = None"
    and "\<And>a x. at_ptr (memory w) a = Some x \<Longrightarrow> entity_id x = None \<and> timer_node_of x = None"
  shows "fresh_ctrl c w"
proof -
  have "table kd empty_registry = []" for kd by (cases kd) (simp_all add: empty_registry_def)
  then have "unused c w" "\<forall>kd. omap_find (table kd (registry w)) (Some c) = None"
    using c by (simp_all add: unused_def unreferenced_def r entity_at_def findEntity_def)
      (simp add: empty_registry_def)
  with assms show ?thesis by (auto simp: fresh_ctrl_def empty_registry_def)
qed

lemma fresh_new_shared:
  assumes "fresh_ctrl c w" and "d \<noteq> c"
    and "\<And>kd k. entity_id x \<noteq> Some (kd, Some c, k)" and "timer_node_of x \<noteq> Some (Some c)"
  shows "fresh_ctrl c (w\<lparr>memory := new_shared d a x (memory w)\<rparr>)"
  using assms by (auto simp: fresh_ctrl_def unused_def at_ptr_def)

lemma find_register_at_other: "n' \<noteq> n \<Longrightarrow> omap_find (register_at m n k e nr) n' = omap_find nr n'"
  by (simp add: register_at_def split_beta omap_at_find)

lemma fresh_registers:
  assumes "fresh_ctrl c w" and reg: "registers kd n k e w w'" and "e \<noteq> Some c" and "n \<noteq> Some c"
  shows "fresh_ctrl c w'"
proof -
  have tab: "table kd' (registry w') =
      (if kd' = kd then register_at (memory w) n k e (table kd (registry w)) else table kd' (registry w))" for kd'
    using reg by (simp add: registers_def)
  show ?thesis
    using assms
    by (auto simp: fresh_ctrl_def unused_def unreferenced_def tab entity_at_register_at find_register_at_other
        registers_def same_but_tables_def)
qed

lemma fresh_create_publisher:
  "fresh_ctrl c w \<Longrightarrow> d \<noteq> c \<Longrightarrow> publisher_node p \<noteq> Some c \<Longrightarrow> fresh_ctrl c (create_publisher d a p w)"
  unfolding create_publisher_def publisher_post_init_setup_def
  by (rule fresh_registers [OF fresh_new_shared registers_ops(1)]) auto

lemma fresh_new_action_client:
  assumes "fresh_ctrl c w" and "aclient_node s \<noteq> Some c"
  shows "fresh_ctrl c (new_action_client a s fq w)"
proof -
  have "table kd (registry (new_action_client a s fq w)) = table kd (registry w)" for kd
    by (cases kd) (simp_all add: new_action_client_def registerLazyInitClient_def)
  moreover have "at_ptr (memory (new_action_client a s fq w)) q =
      (if q = a then Some (Action_client_obj s) else at_ptr (memory w) q)" for q
    by (simp add: new_action_client_def at_ptr_def)
  moreover have "owner (memory (new_action_client a s fq w)) = owner (memory w)"
    "timersRegistry (registry (new_action_client a s fq w)) = timersRegistry (registry w)"
    "mockRegistry (registry (new_action_client a s fq w)) = mockRegistry (registry w)"
    by (simp_all add: new_action_client_def registerLazyInitClient_def)
  ultimately show ?thesis
    using assms by (auto simp: fresh_ctrl_def unused_def unreferenced_def)
qed

lemma fresh_release: "fresh_ctrl c w \<Longrightarrow> fresh_ctrl c (release d w)"
proof (cases "\<exists>a x. owner (memory w) d = Some a \<and> at_ptr (memory w) a = Some x")
  case True
  assume fresh: "fresh_ctrl c w"
  from True obtain a x where d: "owner (memory w) d = Some a" "at_ptr (memory w) a = Some x" by blast
  let ?m = "destroy a (expire d (memory w))"
  have eq: "release d w = (destructor a x w)\<lparr>memory := ?m\<rparr>"
    using d by (simp add: release_def run_destructor_def destructor_with_memory)
  have keep: "at_ptr ?m b = Some y \<Longrightarrow> at_ptr (memory w) b = Some y" for b y
    by (auto simp: at_ptr_def split: if_splits)
  show ?thesis
    using fresh by (auto simp: eq fresh_ctrl_def unused_def unreferenced_def destructor_mocks dest!: keep)
next
  case False
  assume fresh: "fresh_ctrl c w"
  show ?thesis
    using fresh False
    by (auto simp: release_def run_destructor_def fresh_ctrl_def unused_def split: option.split)
qed

lemma fresh_OnTestSuiteEnd: "fresh_ctrl c w \<Longrightarrow> fresh_ctrl c (OnTestSuiteEnd w)"
proof -
  assume fresh: "fresh_ctrl c w"
  have "table kd (registry (OnTestSuiteEnd w)) = []" for kd
    by (cases kd) (simp_all add: OnTestSuiteEnd_def reset_def upd_reg_def)
  with fresh show ?thesis
    by (simp add: fresh_ctrl_def unused_def unreferenced_def entity_at_def findEntity_def)
       (simp add: OnTestSuiteEnd_def reset_def upd_reg_def)
qed

lemma fresh_cong:
  "fresh_ctrl c w \<Longrightarrow> memory w' = memory w \<Longrightarrow> registry w' = registry w \<Longrightarrow> fresh_ctrl c w'"
  by (simp add: fresh_ctrl_def unused_def)

lemma fresh_attached:
  assumes "fresh_ctrl c w" and "d \<noteq> c" and "mock_target k = Some p"
  shows "fresh_ctrl c (attached d a k p w)"
proof -
  have k: "entity_id k = None" "timer_node_of k = None" using assms(3) by (cases k; simp)+
  have "omap_find (mockRegistry (registry (attached d a k p w))) q =
      (if q = p then Some (Some d) else omap_find (mockRegistry (registry w)) q)" for q
    by (simp add: attached_def attachMock_def)
  moreover have "timersRegistry (registry (attached d a k p w)) = timersRegistry (registry w)"
    by (simp add: attached_def attachMock_def)
  ultimately show ?thesis
    using assms(1,2) k by (auto simp: fresh_ctrl_def unused_def unreferenced_def at_ptr_def)
qed

lemma fresh_getPublisher:
  assumes "fresh_ctrl c w" and "n \<noteq> c"
  shows "fresh_ctrl c (snd (getPublisher (Some n) k w))"
proof -
  have look: "only_looks w (snd (getPublisher (Some n) k w))" by (rule only_looks_ops(1))
  have "omap_find (table kd (registry w)) (Some c) = None" for kd
    using assms(1) by (simp add: fresh_ctrl_def)
  then have "omap_find (table kd (registry (snd (getPublisher (Some n) k w)))) (Some c) = None" for kd
    using assms(2) by (simp add: getPublisher_def split_beta get_at_def omap_at_find table_update flip: table.simps)
  with look assms(1) show ?thesis
    by (simp add: fresh_ctrl_def unused_def unreferenced_def only_looks_entity [OF look])
       (simp add: only_looks_def same_but_tables_def)
qed

lemma fresh_findPublisher:
  assumes "fresh_ctrl c w" and "n \<noteq> c" and "d \<noteq> c"
  shows "fresh_ctrl c (snd (findPublisher d a T n s w))"
proof -
  let ?w1 = "snd (getPublisher (Some n) (topic_key s) w)"
  have fresh: "fresh_ctrl c ?w1" using assms(1,2) by (rule fresh_getPublisher)
  have att: "fresh_ctrl c (attached d a (Publisher_mock_obj (new_PublisherMock T p)) p ?w1)" for p
    by (rule fresh_attached [OF fresh assms(3)]) (simp add: new_PublisherMock_def)
  show ?thesis
    using assms(1) att [unfolded attached_def] fresh
    by (auto simp: findPublisher_def split_beta Let_def intro: fresh_cong [OF fresh]
        split: option.split obj.split)
qed

section \<open>A lookup finds only what the node created\<close>

lemma fst_getSubscription:
  "fst (getSubscription n k w) = entity_at (table Subscriptions (registry (snd (getSubscription n k w)))) n k"
  unfolding only_looks_entity [OF only_looks_ops(2)] by (simp add: getSubscription_def split_beta get_at_entity)

lemma find_mock_entity:
  assumes ok: "world_ok w" and "fst (find_mock kd c a T n s w) = Inr (Some c')"
  shows "\<exists>p x k. at_ptr (memory w) p = Some x \<and> entity_id x = Some (kd, Some n, k)"
proof (cases "kd = Subscriptions")
  case True
  let ?w1 = "snd (getSubscription (Some n) (topic_key s) w)"
  have "world_ok ?w1" "memory ?w1 = memory w"
    using world_ok_only_looks [OF ok only_looks_ops(2)] by (simp_all add: subs.get_memory)
  obtain sub where "locked_obj (memory ?w1) (fst (getSubscription (Some n) (topic_key s) w)) = Some (Subscription_obj sub)"
    using assms(2) True
    by (auto simp: findSubscription_def split_beta Let_def split: if_splits option.splits obj.splits)
  then have sub: "locked_obj (memory ?w1) (entity_at (table Subscriptions (registry ?w1)) (Some n) (topic_key s))
      = Some (Subscription_obj sub)" by (simp add: fst_getSubscription)
  then have "entity_id (Subscription_obj sub :: 'a obj) = Some (Subscriptions, Some n, topic_key s)"
    using \<open>world_ok ?w1\<close> unfolding world_ok_def entries_ok_def by blast
  moreover obtain p where "at_ptr (memory w) p = Some (Subscription_obj sub)"
    using sub \<open>memory ?w1 = memory w\<close> by (auto simp: locked_obj_Some)
  ultimately show ?thesis using True by blast
next
  case False
  obtain w' where "find_mock kd c a T n s w = (Inr (Some c'), w')"
    using assms(2) by (cases "find_mock kd c a T n s w") auto
  then obtain w1 p where w1: "looks kd w w1" "sees kd T n s w1 = Some p"
    by (rule mock_finder.find_attaches [OF find_mock_finder [OF False] ok])
  have "world_ok w1" "memory w1 = memory w" using w1(1) by (simp_all add: looks_def)
  moreover have "locked_ptr (memory w1) (entity_at (table kd (registry w1)) (Some n) (lookup_key kd s)) = Some p"
    using w1(2) by (auto simp: sees_def split: if_splits option.splits)
  ultimately show ?thesis by (metis world_ok_found)
qed

section \<open>An owned action client is found\<close>

lemma owned_client_found:
  assumes ok: "world_ok w" and e: "e \<in> set (lazy_init_action_clients (registry w))" "owned (memory w) e"
    and s: "at_ptr (memory w) (raw_ptr e) = Some y" "entity_id y = Some (Action_clients, Some n, k)"
    and only: "\<And>q x. at_ptr (memory w) q = Some x \<Longrightarrow> entity_id x = Some (Action_clients, Some n, k) \<Longrightarrow> q = raw_ptr e"
    and mock: "lock (memory w) (getMock (raw_ptr e) w) = None"
  shows "fst (findActionClient m b T n k w) = Inr (Some m)"
proof -
  obtain r w' where get: "getActionClient action_client_post_init_setup (Some n) k w = (r, w')" by fastforce
  note lookup = getActionClient_lookup [OF ok, of "Some n" k, unfolded get]
  have looks: "looks Action_clients w w'" and r: "r = Inr (entity_at (table Action_clients (registry w')) (Some n) k)"
    using looks_lazy [OF ok, of Action_clients "Some n" k r w'] lookup by (simp_all add: lazy_queue_fun)
  have "lock (memory w') (entity_at (table Action_clients (registry w')) (Some n) k) \<noteq> None"
    by (rule lazy_lookup_result [OF lookup]) (use e s in blast)
  then obtain p where p: "locked_ptr (memory w') (entity_at (table Action_clients (registry w')) (Some n) k) = Some p"
    by (auto simp: lock_locked_ptr)
  obtain x where "at_ptr (memory w') p = Some x" "entity_id x = Some (Action_clients, Some n, k)"
    by (rule world_ok_found [OF looks_ok [OF looks] p])
  then have "p = raw_ptr e" using only looks by (simp add: looks_def)
  then show ?thesis using p r mock looks by (simp add: findActionClient_def get looks_def)
qed

end
