(* ===== verification/Sample_Worlds.thy ===== *)
theory Sample_Worlds
  imports Framework
begin

text \<open>
  Small concrete runs of the framework on which the properties are evaluated: a node, and the
  node with a publisher, a mocked publisher, a client, a subscription or action clients. Each world
  comes with the proof that it is reachable and with control blocks that are still unused in it.
\<close>

section \<open>A node with a publisher\<close>

text \<open>A node (control block 1) with one publisher (control block 2) on topic \<open>/chat\<close>.\<close>

definition node_world :: "'m world" where
  "node_world = init_world\<lparr>memory := new_shared 1 10 (Node_obj (Some ''/talker'')) (memory init_world)\<rparr>"

definition chat_publisher :: publisher where
  "chat_publisher = \<lparr>publisher_type = ''String'', publisher_topic = ''/chat'', publisher_node = Some 1\<rparr>"

definition chat_world :: "nat world" where
  "chat_world = create_publisher 2 20 chat_publisher node_world"

lemma fresh_node_world: "c \<noteq> 1 \<Longrightarrow> fresh_ctrl c node_world"
  by (rule fresh_empty) (auto simp: node_world_def init_world_def empty_mem_def at_ptr_def split: if_splits)

lemma reachable_node_world: "reachable (node_world :: 'a world)"
proof -
  have "fresh_ctrl 1 (init_world :: 'a world)"
    by (rule fresh_empty) (simp_all add: init_world_def empty_mem_def at_ptr_def)
  then show ?thesis
    unfolding node_world_def
    by (intro reachable.move [OF reachable.start] step.Create_node)
       (simp_all add: init_world_def empty_mem_def)
qed

lemma reachable_chat_world: "reachable chat_world"
  unfolding chat_world_def
  by (intro reachable.move [OF reachable_node_world] step.Create_publisher fresh_node_world)
     (simp_all add: node_world_def init_world_def empty_mem_def)

lemma fresh_chat_world: "c \<noteq> 1 \<Longrightarrow> c \<noteq> 2 \<Longrightarrow> fresh_ctrl c chat_world"
  unfolding chat_world_def
  by (intro fresh_create_publisher fresh_node_world) (simp_all add: chat_publisher_def)

lemma dead_chat_world: "a \<noteq> 10 \<Longrightarrow> a \<noteq> 20 \<Longrightarrow> objs (memory chat_world) a = None"
  by (simp add: chat_world_def create_publisher_def publisher_post_init_setup_def pubs.register_memory
      node_world_def init_world_def empty_mem_def)

lemma find_chat_world: "fst (findPublisher 7 70 ''String'' 1 ''chat'' chat_world) = Inr (Some 7)"
  by code_simp

definition chat_mock_world :: "nat world" where
  "chat_mock_world = snd (findPublisher 7 70 ''String'' 1 ''chat'' chat_world)"

lemma find_chat_mock_world:
  "findPublisher 7 70 ''String'' 1 ''chat'' chat_world = (Inr (Some 7), chat_mock_world)"
  using find_chat_world by (simp add: chat_mock_world_def prod_eq_iff)

lemma reachable_chat_mock_world: "reachable chat_mock_world"
  using reachable.move [OF reachable_chat_world step.Find [OF fresh_chat_world dead_chat_world], of 7 70 Publishers "''String''" 1 "''chat''"]
  by (simp add: chat_mock_world_def)

lemma fresh_chat_mock_world: "c \<noteq> 1 \<Longrightarrow> c \<noteq> 2 \<Longrightarrow> c \<noteq> 7 \<Longrightarrow> fresh_ctrl c chat_mock_world"
  unfolding chat_mock_world_def by (intro fresh_findPublisher fresh_chat_world) simp_all

text \<open>
  The mock is kept beyond the end of the test suite; the next suite creates such a publisher at the
  same address and looks it up.
\<close>

definition next_suite_world :: "nat world" where
  "next_suite_world = create_publisher 4 20 chat_publisher (OnTestSuiteEnd (release 2 chat_mock_world))"

definition second_mock_world :: "nat world" where
  "second_mock_world = snd (findPublisher 8 80 ''String'' 1 ''chat'' next_suite_world)"

lemma reachable_second_mock_world: "reachable second_mock_world"
proof -
  have "reachable (OnTestSuiteEnd (release 2 chat_mock_world))"
    by (intro reachable.move [OF reachable.move [OF reachable_chat_mock_world step.Release] step.End_of_suite])
  moreover have "fresh_ctrl c (OnTestSuiteEnd (release 2 chat_mock_world))" if "c \<noteq> 1" "c \<noteq> 2" "c \<noteq> 7" for c
    using that by (intro fresh_OnTestSuiteEnd fresh_release fresh_chat_mock_world)
  moreover have "objs (memory (OnTestSuiteEnd (release 2 chat_mock_world))) 20 = None" "objs (memory next_suite_world) 80 = None" by code_simp+
  ultimately have "reachable next_suite_world" "fresh_ctrl 8 next_suite_world"
    unfolding next_suite_world_def
    by (auto intro!: fresh_create_publisher reachable.move [OF _ step.Create_publisher] simp: chat_publisher_def)
  from reachable.move [OF this(1) step.Find [OF this(2) \<open>objs (memory next_suite_world) 80 = None\<close>],
      of Publishers "''String''" 1 "''chat''"]
  show ?thesis by (simp add: second_mock_world_def)
qed

section \<open>Other entities\<close>

text \<open>A node with a client of a service of type \<open>SetBool\<close>.\<close>

definition client_world :: "nat world" where
  "client_world = make_shared_client 2 20
     \<lparr>client_type = ''SetBool'', client_service_name = ''/set'', client_node_id = Some 1\<rparr> node_world"

lemma reachable_client_world: "reachable client_world"
  unfolding client_world_def
  by (intro reachable.move [OF reachable_node_world] step.Create_client fresh_node_world)
     (simp_all add: node_world_def init_world_def empty_mem_def)

lemma fresh_client_world: "c \<noteq> 1 \<Longrightarrow> c \<noteq> 2 \<Longrightarrow> fresh_ctrl c client_world"
  unfolding client_world_def make_shared_client_def client_post_init_setup_def
  by (rule fresh_registers [OF fresh_new_shared registers_ops(4)]) (auto intro: fresh_node_world)

text \<open>A node with a subscription on \<open>/chat\<close>.\<close>

definition listener_world :: "nat world" where
  "listener_world = snd (create_subscription False True 10 2 20
     \<lparr>subscription_type = ''String'', subscription_topic = ''/chat'', subscription_node = Some 1,
      any_callback = Some 0, subscription_topic_statistics = False\<rparr> node_world)"

lemma reachable_listener_world: "reachable listener_world"
  unfolding listener_world_def
  by (intro reachable.move [OF reachable_node_world] step.Create_subscription fresh_node_world)
     (simp_all add: node_world_def init_world_def empty_mem_def)

text \<open>A node with an action client that no \<open>shared_ptr\<close> owns yet, and with two, of which one is owned.\<close>

definition fib_client :: action_client where
  "fib_client = \<lparr>aclient_type = ''Fib'', aclient_action_name = ''fib'', aclient_node = Some 1, goal_handles = []\<rparr>"

definition fib_world :: "nat world" where
  "fib_world = new_action_client 40 fib_client ''/talker'' node_world"

definition fib_pair_world :: "nat world" where
  "fib_pair_world = new_action_client 41 (fib_client\<lparr>aclient_action_name := ''other''\<rparr>) ''/talker''
     (fib_world\<lparr>memory := adopt 4 40 (memory fib_world)\<rparr>)"

lemma fresh_fib_world: "c \<noteq> 1 \<Longrightarrow> fresh_ctrl c fib_world"
  unfolding fib_world_def by (rule fresh_new_action_client) (auto intro: fresh_node_world simp: fib_client_def)

lemma reachable_fib_pair_world: "reachable fib_pair_world"
proof -
  have "objs (memory node_world) 40 = None" by code_simp
  then have "reachable fib_world"
    unfolding fib_world_def by (intro reachable.move [OF reachable_node_world] step.Construct_action_client)
  moreover have owned: "objs (memory fib_world) 40 = Some \<lparr>payload = Action_client_obj fib_client, weak_this = None\<rparr>"
    by (simp add: fib_world_def new_action_client_def)
  ultimately have "reachable (fib_world\<lparr>memory := adopt 4 40 (memory fib_world)\<rparr>)"
    using step.Take_ownership [OF fresh_fib_world [of 4] owned] reachable.move by simp
  moreover have "objs (memory (fib_world\<lparr>memory := adopt 4 40 (memory fib_world)\<rparr>)) 41 = None" by code_simp
  ultimately show ?thesis
    unfolding fib_pair_world_def by (intro reachable.move [OF _ step.Construct_action_client])
qed

end
