(* ===== verification/Mock_Attachment.thy ===== *)
theory Mock_Attachment
  imports Sample_Worlds
begin

text \<open>
  Mocks stay attached. As long as the registry is reset only when no mock is alive, every live
  mock is owned, attached to the address it was made for, and the only one there, whatever else the
  test creates, destroys or looks up.
\<close>

section \<open>The invariant\<close>

definition mocks_attached :: "'m world \<Rightarrow> bool" where
  "mocks_attached w \<longleftrightarrow> (\<forall>a x p. at_ptr (memory w) a = Some x \<longrightarrow> mock_target x = Some p \<longrightarrow>
     (\<exists>c. owner (memory w) c = Some a \<and> getMock p w = Some c))"

lemma mocks_attachedD:
  "mocks_attached w \<Longrightarrow> at_ptr (memory w) a = Some x \<Longrightarrow> mock_target x = Some p \<Longrightarrow>
     \<exists>c. owner (memory w) c = Some a \<and> getMock p w = Some c"
  unfolding mocks_attached_def by blast

lemma mocks_attached_unique:
  assumes "mocks_attached w" "at_ptr (memory w) a = Some x" "mock_target x = Some p"
    and "at_ptr (memory w) b = Some y" "mock_target y = Some p"
  shows "b = a"
  using mocks_attachedD [OF assms(1-3)] mocks_attachedD [OF assms(1,4,5)] by auto

text \<open>A change that makes no mock, takes none away and leaves the mock table alone.\<close>

lemma attached_kept:
  assumes "mocks_attached w"
    and "\<And>a x p. at_ptr (memory w') a = Some x \<Longrightarrow> mock_target x = Some p \<Longrightarrow>
      \<exists>y. at_ptr (memory w) a = Some y \<and> mock_target y = Some p"
    and "\<And>c a. owner (memory w) c = Some a \<Longrightarrow> at_ptr (memory w') a \<noteq> None \<Longrightarrow> owner (memory w') c = Some a"
    and "\<And>q. getMock q w' = getMock q w"
  shows "mocks_attached w'"
  unfolding mocks_attached_def
proof (intro allI impI)
  fix a x p assume x: "at_ptr (memory w') a = Some x" "mock_target x = Some p"
  then obtain y where "at_ptr (memory w) a = Some y" "mock_target y = Some p" using assms(2) by blast
  then obtain c where "owner (memory w) c = Some a" "getMock p w = Some c" using mocks_attachedD [OF assms(1)] by blast
  with x assms(3,4) show "\<exists>c. owner (memory w') c = Some a \<and> getMock p w' = Some c" by auto
qed

lemma attached_same:
  "mocks_attached w \<Longrightarrow> memory w' = memory w \<Longrightarrow> mockRegistry (registry w') = mockRegistry (registry w) \<Longrightarrow> mocks_attached w'"
  by (simp add: mocks_attached_def getMock_def)

lemma attached_registers: "mocks_attached w \<Longrightarrow> registers kd n k e w w' \<Longrightarrow> mocks_attached w'"
  by (rule attached_same) (simp_all add: registers_def same_but_tables_def)

lemma attached_new_shared:
  assumes "mocks_attached w" and "unused c w" and "objs (memory w) a = None" and "mock_target x = None"
  shows "mocks_attached (w\<lparr>memory := new_shared c a x (memory w)\<rparr>)"
  by (rule attached_kept [OF assms(1)])
     (use assms(2-4) in \<open>auto simp: at_ptr_def unused_def getMock_def split: if_splits\<close>)

lemma attached_construct:
  assumes "mocks_attached w" and "mock_target x = None"
  shows "mocks_attached (w\<lparr>memory := construct a x (memory w)\<rparr>)"
  by (rule attached_kept [OF assms(1)]) (use assms(2) in \<open>auto simp: at_ptr_def getMock_def split: if_splits\<close>)

lemma attached_adopt:
  assumes "mocks_attached w" and "unused c w" and "objs (memory w) a = Some x"
  shows "mocks_attached (w\<lparr>memory := adopt c a (memory w)\<rparr>)"
  by (rule attached_kept [OF assms(1)])
     (use assms(2,3) in \<open>auto simp: at_ptr_def adopt_def unused_def getMock_def split: if_splits\<close>)

lemma attached_modify:
  assumes "mocks_attached w" and "\<And>x. ident (f x) = ident x"
  shows "mocks_attached (w\<lparr>memory := modify a f (memory w)\<rparr>)"
proof (rule attached_kept [OF assms(1)])
  fix b x p assume "at_ptr (memory (w\<lparr>memory := modify a f (memory w)\<rparr>)) b = Some x" "mock_target x = Some p"
  then show "\<exists>y. at_ptr (memory w) b = Some y \<and> mock_target y = Some p"
    using ident_eq_classes(3) [OF assms(2)] by (auto simp: modify_at_ptr split: if_splits)
qed (simp_all add: getMock_def)

text \<open>The end of an object: a mock detaches itself, and no other mock is filed under its target.\<close>

lemma attached_destroyed:
  assumes ok: "mocks_attached w" and x: "at_ptr (memory w) a = Some x"
    and others: "\<And>b. at_ptr m b = (if b = a then None else at_ptr (memory w) b)"
    and owners: "\<And>c b. owner (memory w) c = Some b \<Longrightarrow> b \<noteq> a \<Longrightarrow> owner m c = Some b"
  shows "mocks_attached ((destructor a x w)\<lparr>memory := m\<rparr>)"
  unfolding mocks_attached_def
proof (intro allI impI)
  fix b y p assume y: "at_ptr (memory ((destructor a x w)\<lparr>memory := m\<rparr>)) b = Some y" "mock_target y = Some p"
  then have b: "b \<noteq> a" "at_ptr (memory w) b = Some y" by (auto simp: others split: if_splits)
  then have "mock_target x \<noteq> Some p" using mocks_attached_unique [OF ok x _ _ y(2)] by auto
  moreover obtain c where "owner (memory w) c = Some b" "getMock p w = Some c"
    using mocks_attachedD [OF ok b(2) y(2)] by blast
  ultimately show "\<exists>c. owner (memory ((destructor a x w)\<lparr>memory := m\<rparr>)) c = Some b \<and> getMock p ((destructor a x w)\<lparr>memory := m\<rparr>) = Some c"
    using owners b(1) by (auto simp: getMock_def destructor_mocks)
qed

lemma attached_release: "mocks_attached w \<Longrightarrow> mocks_attached (release d w)"
proof (cases "\<exists>a x. owner (memory w) d = Some a \<and> at_ptr (memory w) a = Some x")
  case True
  assume ok: "mocks_attached w"
  from True obtain a x where d: "owner (memory w) d = Some a" "at_ptr (memory w) a = Some x" by blast
  have "release d w = (destructor a x w)\<lparr>memory := destroy a (expire d (memory w))\<rparr>"
    using d by (simp add: release_def run_destructor_def destructor_with_memory)
  then show ?thesis
    using d by (simp, intro attached_destroyed [OF ok]) (auto simp: at_ptr_def)
next
  case False
  assume ok: "mocks_attached w"
  show ?thesis
  proof (cases "owner (memory w) d")
    case (Some a)
    then have gone: "at_ptr (memory w) a = None" using False by auto
    then have "release d w = w\<lparr>memory := expire d (memory w)\<rparr>" using Some by (simp add: release_def run_destructor_def)
    with Some gone show ?thesis by (simp, intro attached_kept [OF ok]) (auto simp: getMock_def)
  qed (use ok in \<open>simp add: release_def\<close>)
qed

lemma attached_run_destructor:
  assumes ok: "mocks_attached w" and "world_ok w" and x: "objs (memory w) a = Some x" "weak_this x = None"
  shows "mocks_attached (run_destructor a w)"
proof -
  have at: "at_ptr (memory w) a = Some (payload x)" using x by (simp add: at_ptr_def)
  have "run_destructor a w = (destructor a (payload x) w)\<lparr>memory := destroy a (memory w)\<rparr>"
    using at by (simp add: run_destructor_def Let_def)
  then show ?thesis using at by (simp, intro attached_destroyed [OF ok]) (auto simp: at_ptr_def)
qed

lemma attached_find:
  assumes ok: "mocks_attached w" "world_ok w" and c: "unused c w" and a: "objs (memory w) a = None"
  shows "mocks_attached (snd (find_mock kd c a T n s w))"
proof (cases "kd = Subscriptions")
  case True
  obtain w1 where "only_looks w w1" "memory (snd (findSubscription T n s w)) = memory w1"
    "registry (snd (findSubscription T n s w)) = registry w1" using findSubscription_looks by blast
  then show ?thesis using True by (intro attached_same [OF ok(1)]) (simp_all add: only_looks_def same_but_tables_def)
next
  case False
  obtain w1 where w1: "looks kd w w1" "decides kd c a T n s w1 (find_mock kd c a T n s w)"
    using mock_finder.find_decides [OF find_mock_finder [OF False] ok(2)] by blast
  let ?w' = "snd (find_mock kd c a T n s w)"
  have mem: "memory w1 = memory w" and mocks: "\<And>q. getMock q w1 = getMock q w" and new: "unused c w1"
    using w1(1) c by (simp_all add: looks_def)
  have same: "mocks_attached ?w'" if "memory ?w' = memory w1" "registry ?w' = registry w1"
    by (rule attached_kept [OF ok(1)]) (use that mocks mem in \<open>auto simp: getMock_def\<close>)
  have made: "mocks_attached (attached c a k p w1)"
    if k: "mock_target k = Some p" and free: "lock (memory w1) (getMock p w1) = None" for k p
    unfolding mocks_attached_def
  proof (intro allI impI)
    fix b x q assume x: "at_ptr (memory (attached c a k p w1)) b = Some x" "mock_target x = Some q"
    show "\<exists>d. owner (memory (attached c a k p w1)) d = Some b \<and> getMock q (attached c a k p w1) = Some d"
    proof (cases "b = a")
      case True
      with x k show ?thesis by (simp add: at_ptr_def)
    next
      case False
      then have "at_ptr (memory w) b = Some x" using x(1) mem by (simp add: at_ptr_def)
      then obtain d where d: "owner (memory w) d = Some b" "getMock q w = Some d" using mocks_attachedD [OF ok(1)] x(2) by blast
      then have "q \<noteq> p" "d \<noteq> c" using free mem mocks c by (auto simp: lock_def unused_def)
      with d show ?thesis by (auto simp: mem mocks)
    qed
  qed
  show ?thesis using w1(2) same made by (auto simp: decides_def split: option.splits if_splits)
qed


section \<open>Runs\<close>

text \<open>Runs in which a suite ends only when no mock is alive.\<close>

definition no_mock_alive :: "'m world \<Rightarrow> bool" where
  "no_mock_alive w \<longleftrightarrow> (\<forall>a x. at_ptr (memory w) a = Some x \<longrightarrow> mock_target x = None)"

inductive disciplined :: "'m world \<Rightarrow> bool" where
  begin_run: "disciplined init_world"
| continue_run: "disciplined w \<Longrightarrow> step w w' \<Longrightarrow> (w' = OnTestSuiteEnd w \<longrightarrow> no_mock_alive w) \<Longrightarrow> disciplined w'"

lemma disciplined_reachable: "disciplined w \<Longrightarrow> reachable w"
  by (induction rule: disciplined.induct) (auto intro: reachable.intros)

lemma attached_create_timer:
  assumes "mocks_attached w" "unused c w" "objs (memory w) a = None"
  shows "mocks_attached (snd (create_timer (\<lambda>_ v. (r, v)) c a clk k period cb nb nt w))"
    and "mocks_attached (snd (create_wall_timer (\<lambda>_ v. (r, v)) c a k period cb nb nt w))"
proof -
  have "mocks_attached (snd (add_and_register (\<lambda>_ v. (r, v)) c a n t w))" for n t
  proof (cases r)
    case (Inl e)
    have "mocks_attached (release c (w\<lparr>memory := new_shared c a (Timer_obj t) (memory w)\<rparr>))"
      by (intro attached_release attached_new_shared assms) simp
    with Inl show ?thesis by (simp add: add_and_register_def release_def run_destructor_def at_ptr_def)
  next
    case (Inr u)
    have "mocks_attached (snd (registerTimer (Some n) (Some c) (w\<lparr>memory := new_shared c a (Timer_obj t) (memory w)\<rparr>)))"
      by (rule attached_same [OF attached_new_shared [OF assms]]) (simp_all add: registerTimer_def split_beta)
    with Inr show ?thesis by (simp add: add_and_register_def)
  qed
  with assms(1) show "mocks_attached (snd (create_timer (\<lambda>_ v. (r, v)) c a clk k period cb nb nt w))"
    "mocks_attached (snd (create_wall_timer (\<lambda>_ v. (r, v)) c a k period cb nb nt w))"
    by (auto simp: create_timer_def create_wall_timer_def split: option.split sum.split)
qed

lemma attached_create:
  assumes "mocks_attached w" "unused c w" "objs (memory w) a = None"
  shows "mocks_attached (create_publisher c a p w)" "mocks_attached (snd (create_subscription ip kl d c a s w))"
    "mocks_attached (make_shared_service c a srv w)" "mocks_attached (make_shared_client c a cli w)"
proof -
  note new = attached_new_shared [OF assms]
  show "mocks_attached (create_publisher c a p w)"
    unfolding create_publisher_def publisher_post_init_setup_def by (rule attached_registers [OF new registers_ops(1)]) simp
  show "mocks_attached (make_shared_service c a srv w)"
    unfolding make_shared_service_def service_post_init_setup_def by (rule attached_registers [OF new registers_ops(3)]) simp
  show "mocks_attached (make_shared_client c a cli w)"
    unfolding make_shared_client_def client_post_init_setup_def by (rule attached_registers [OF new registers_ops(4)]) simp
  have "mocks_attached (subscription_post_init_setup s (Some c) (w\<lparr>memory := new_shared c a (Subscription_obj s) (memory w)\<rparr>))"
    unfolding subscription_post_init_setup_def by (rule attached_registers [OF new registers_ops(2)]) simp
  with assms(1) show "mocks_attached (snd (create_subscription ip kl d c a s w))"
    by (simp add: create_subscription_def split: sum.split)
qed

lemma attached_stop_callbacks: "mocks_attached w \<Longrightarrow> mocks_attached (snd (stop_callbacks_unmocked p g w))"
proof -
  assume ok: "mocks_attached w"
  have twice: "mocks_attached (w\<lparr>memory := modify a f (modify b h (memory w))\<rparr>)"
    if "\<And>x. ident (f x) = ident x" "\<And>x. ident (h x) = ident x" for a b f h
    using attached_modify [OF attached_modify [OF ok that(2)] that(1), of a b] by simp
  show ?thesis
    unfolding stop_callbacks_unmocked_def Let_def
    by (auto intro!: attached_modify twice ok split: option.split obj.split)
qed

lemma attached_construct_lazy:
  assumes "mocks_attached w"
  shows "mocks_attached (new_action_client a ac fq w)" "mocks_attached (new_action_server a as fq w)"
  unfolding new_action_client_def new_action_server_def registerLazyInitClient_def registerLazyInitServer_def
  by (rule attached_same [OF attached_construct [OF assms, of _ a]]; simp add: upd_reg_def)+

lemma attached_reset: "no_mock_alive w \<Longrightarrow> mocks_attached (OnTestSuiteEnd w)"
  by (auto simp: no_mock_alive_def mocks_attached_def OnTestSuiteEnd_def reset_def upd_reg_def)

lemma step_attached:
  assumes "step w w'" and "world_ok w" and "mocks_attached w" and "w' = OnTestSuiteEnd w \<longrightarrow> no_mock_alive w"
  shows "mocks_attached w'"
  using assms
proof (induction rule: step.induct)
  case (Create_node c w a name)
  show ?case by (rule attached_new_shared [OF Create_node(4) fresh_unused [OF Create_node(1)] Create_node(2)]) simp
next
  case (Create_publisher c w a p)
  show ?case by (rule attached_create(1) [OF Create_publisher(4) fresh_unused [OF Create_publisher(1)] Create_publisher(2)])
next
  case (Create_subscription c w a ip kl d s)
  show ?case by (rule attached_create(2) [OF Create_subscription(4) fresh_unused [OF Create_subscription(1)] Create_subscription(2)])
next
  case (Create_timer c w a r clk k period cb nb nt)
  show ?case by (rule attached_create_timer(1) [OF Create_timer(4) fresh_unused [OF Create_timer(1)] Create_timer(2)])
next
  case (Create_wall_timer c w a r k period cb nb nt)
  show ?case by (rule attached_create_timer(2) [OF Create_wall_timer(4) fresh_unused [OF Create_wall_timer(1)] Create_wall_timer(2)])
next
  case (Create_service c w a srv)
  show ?case by (rule attached_create(3) [OF Create_service(4) fresh_unused [OF Create_service(1)] Create_service(2)])
next
  case (Create_client c w a cli)
  show ?case by (rule attached_create(4) [OF Create_client(4) fresh_unused [OF Create_client(1)] Create_client(2)])
next
  case (Construct_action_client w a ac fq)
  show ?case by (rule attached_construct_lazy(1) [OF Construct_action_client(3)])
next
  case (Construct_action_server w a as fq)
  show ?case by (rule attached_construct_lazy(2) [OF Construct_action_server(3)])
next
  case (Take_ownership c w a x)
  show ?case by (rule attached_adopt [OF Take_ownership(5) fresh_unused [OF Take_ownership(1)] Take_ownership(2)])
next
  case (Create_goal_handle c w a garbage)
  show ?case by (rule attached_new_shared [OF Create_goal_handle(4) fresh_unused [OF Create_goal_handle(1)] Create_goal_handle(2)]) simp
next
  case (Find c w a kd T n name)
  show ?case by (rule attached_find [OF Find(4,3) fresh_unused [OF Find(1)] Find(2)])
next
  case (Publish w p T msg)
  have "mocks_attached (w\<lparr>memory := modify a (on_publisher_mock (mock_publish msg)) (memory w)\<rparr>)" for a
    by (rule attached_modify [OF Publish(2)]) simp
  with Publish(2) show ?case by (simp add: publish_sink_def split: sum.split option.split)
next
  case (Respond w a hdr rsp)
  show ?case unfolding send_response_def by (rule attached_modify [OF Respond(2)]) simp
next
  case (Stop_callbacks w p g)
  show ?case by (rule attached_stop_callbacks [OF Stop_callbacks(2)])
next
  case (Release w c)
  show ?case by (rule attached_release [OF Release(2)])
next
  case (Destroy_unowned w a x)
  show ?case by (rule attached_run_destructor [OF Destroy_unowned(4,3,1,2)])
next
  case (Look w w')
  show ?case by (rule attached_same [OF Look(3)]) (use Look(1) in \<open>simp_all add: only_looks_def same_but_tables_def\<close>)
next
  case (Dump w nd)
  show ?case by (rule attached_same [OF Dump(2)]) simp_all
next
  case (Verbose w b)
  show ?case by (rule attached_same [OF Verbose(2)]) (simp_all add: enableVerboseLogs_def upd_reg_def)
next
  case (End_of_suite w)
  then show ?case by (simp add: attached_reset)
qed (rule attached_modify, assumption, simp)+

lemma disciplined_attached: "disciplined w \<Longrightarrow> mocks_attached w"
proof (induction rule: disciplined.induct)
  case begin_run
  show ?case by (simp add: mocks_attached_def init_world_def empty_mem_def at_ptr_def)
next
  case (continue_run w w')
  then show ?case using step_attached reachable_world_ok [OF disciplined_reachable] by blast
qed


section \<open>Properties\<close>

text \<open>C4: A live mock stays attached. In every world that a test reaches without ending a suite while a mock is
  alive, a live mock is owned, it is the only one made for its entity's address, the registry
  returns it for that address, and a message of its type that a publisher at that address sends is
  recorded by it, whatever has been created, destroyed, looked up or released in the meantime.\<close>

theorem mocks_stay_attached:
  assumes "disciplined w" and "at_ptr (memory w) a = Some x" and "mock_target x = Some p"
  shows "(\<exists>c. owner (memory w) c = Some a \<and> getMock p w = Some c)
    \<and> (\<forall>b y. at_ptr (memory w) b = Some y \<longrightarrow> mock_target y = Some p \<longrightarrow> b = a)
    \<and> (\<forall>k q msg. x = Publisher_mock_obj k \<longrightarrow> at_ptr (memory w) p = Some (Publisher_obj q) \<longrightarrow> publisher_type q = pm_type k \<longrightarrow>
        publish_sink p (publisher_type q) msg w =
          (Inr (), w\<lparr>memory := modify a (on_publisher_mock (mock_publish msg)) (memory w)\<rparr>))"
proof -
  note ok = disciplined_attached [OF assms(1)]
  obtain c where c: "owner (memory w) c = Some a" "getMock p w = Some c" using mocks_attachedD [OF ok assms(2,3)] by blast
  have "publisher_mock_of p (pm_type k) w = Inr (Some (a, k))" if "x = Publisher_mock_obj k" for k
    using c assms(2) that by (simp add: publisher_mock_of_Some locked_ptr_def lock_def)
  then have "publish_sink p (publisher_type q) msg w = (Inr (), w\<lparr>memory := modify a (on_publisher_mock (mock_publish msg)) (memory w)\<rparr>)"
    if "x = Publisher_mock_obj k" "publisher_type q = pm_type k" for k q msg
    using that by (simp add: publish_sink_def)
  moreover have "b = a" if "at_ptr (memory w) b = Some y" "mock_target y = Some p" for b y
    by (rule mocks_attached_unique [OF ok assms(2,3) that])
  ultimately show ?thesis using c by blast
qed

lemma disciplined_chat_mock_world: "disciplined chat_mock_world"
proof -
  have quiet: "no_mock_alive (init_world :: nat world)" "no_mock_alive (node_world :: nat world)" "no_mock_alive chat_world"
    by (auto simp: no_mock_alive_def chat_world_def create_publisher_def publisher_post_init_setup_def pubs.register_memory
        node_world_def init_world_def empty_mem_def at_ptr_def split: if_splits)
  have "fresh_ctrl 1 (init_world :: nat world)"
    by (rule fresh_empty) (simp_all add: init_world_def empty_mem_def at_ptr_def)
  then have "step (init_world :: nat world) node_world"
    unfolding node_world_def by (rule step.Create_node) (simp add: init_world_def empty_mem_def)
  moreover have "step node_world chat_world"
    unfolding chat_world_def
    by (rule step.Create_publisher [OF fresh_node_world]) (simp_all add: node_world_def init_world_def empty_mem_def)
  moreover have "step chat_world chat_mock_world"
    using step.Find [OF fresh_chat_world dead_chat_world, of 7 70 Publishers "''String''" 1 "''chat''"] by (simp add: chat_mock_world_def)
  ultimately show ?thesis using quiet by (blast intro: disciplined.intros)
qed

theorem mocks_stay_attached_witness:
  "(\<exists>c. owner (memory chat_mock_world) c = Some 70 \<and> getMock 20 chat_mock_world = Some c)
    \<and> fst (publish_sink 20 ''String'' 5 chat_mock_world) = Inr ()"
proof -
  have mock: "at_ptr (memory chat_mock_world) 70 = Some (Publisher_mock_obj (new_PublisherMock ''String'' 20))"
    and "at_ptr (memory chat_mock_world) 20 = Some (Publisher_obj chat_publisher)" by code_simp+
  moreover have "mock_target (Publisher_mock_obj (new_PublisherMock ''String'' 20)) = Some 20"
    "publisher_type chat_publisher = ''String''" "pm_type (new_PublisherMock ''String'' 20) = ''String''"
    by (simp_all add: new_PublisherMock_def chat_publisher_def)
  moreover note stays = mocks_stay_attached [OF disciplined_chat_mock_world mock this(1)]
  ultimately show ?thesis using conjunct1 [OF stays] conjunct2 [OF conjunct2 [OF stays]] by (metis fst_conv)
qed

end
