(* ===== verification/Lazy_Threads.thy ===== *)
theory Lazy_Threads
  imports Lazy_Registration Framework
begin

text \<open>
  The lazy registration with several threads. One mutex guards both vectors of pending entries:
  the constructors and destructors of action clients and servers take it for one insertion or
  removal, and a lookup holds it for its whole loop, while the callbacks run. Each callback holds a
  temporary \<open>shared_ptr\<close> to its object from \<open>shared_from_this\<close> until the entity is registered, so
  the lookup may come to be the last owner of an object, and then it runs the destructor.

  A thread is at one of the points below; a step is labelled with the thread that takes it. The
  critical sections of one statement (insertion, removal) are one step, the loop of a lookup has a
  step for each point where another thread can matter. \<open>use_count\<close> is the strong count of a control
  block and \<open>users\<close> the part of it that is not the temporary of a lookup.
\<close>

section \<open>State\<close>

datatype lazy_kind = Lazy_clients | Lazy_servers

fun lazy_queue :: "lazy_kind \<Rightarrow> static_mocks_registry \<Rightarrow> lazy_init_entry list" where
  "lazy_queue Lazy_clients r = lazy_init_action_clients r"
| "lazy_queue Lazy_servers r = lazy_init_action_servers r"

fun set_lazy_queue :: "lazy_kind \<Rightarrow> lazy_init_entry list \<Rightarrow> 'm world \<Rightarrow> 'm world" where
  "set_lazy_queue Lazy_clients es w = upd_reg (\<lambda>r. r\<lparr>lazy_init_action_clients := es\<rparr>) w"
| "set_lazy_queue Lazy_servers es w = upd_reg (\<lambda>r. r\<lparr>lazy_init_action_servers := es\<rparr>) w"

fun run_closure :: "lazy_kind \<Rightarrow> closure \<Rightarrow> 'm world \<Rightarrow> ('m world, unit) res" where
  "run_closure Lazy_clients = action_client_post_init_setup"
| "run_closure Lazy_servers = action_server_post_init_setup"

definition callback_this :: "lazy_init_entry \<Rightarrow> addr" where
  "callback_this e = (case init_callback e of Post_init_setup this \<Rightarrow> this)"

text \<open>
  \<open>Iterating kd i\<close> is the head of the loop with the iterator at position \<open>i\<close>, \<open>Holding\<close> is inside the
  callback, after \<open>shared_from_this\<close>; \<open>Releasing\<close> after the registration, before the temporary dies;
  \<open>Destroying a k\<close> is the destructor of the object at \<open>a\<close>, before it locks the mutex, called from the
  loop at \<open>k\<close> or, with \<open>None\<close>, from a thread outside.
\<close>

datatype lazy_pc =
    Idle
  | Lookup_wait lazy_kind
  | Iterating lazy_kind nat
  | Holding lazy_kind nat ctrl
  | Releasing lazy_kind nat ctrl
  | Destroying addr "(lazy_kind \<times> nat) option"
  | Failed exn

type_synonym tid = nat

record 'm lazy_state =
  lz_world :: "'m world"
  lazy_init_mutex :: "tid option"
  use_count :: "ctrl \<Rightarrow> nat"
  users :: "ctrl \<Rightarrow> nat"
  pc :: "tid \<Rightarrow> lazy_pc"

definition lazy_start :: "'m world \<Rightarrow> 'm lazy_state" where
  "lazy_start w = \<lparr>lz_world = w, lazy_init_mutex = None, use_count = (\<lambda>_. 0), users = (\<lambda>_. 0), pc = (\<lambda>_. Idle)\<rparr>"

abbreviation queue_of :: "lazy_kind \<Rightarrow> 'm lazy_state \<Rightarrow> lazy_init_entry list" where
  "queue_of kd s \<equiv> lazy_queue kd (registry (lz_world s))"

fun is_lazy_obj :: "'m obj \<Rightarrow> bool" where
  "is_lazy_obj (Action_client_obj s) = True"
| "is_lazy_obj (Action_server_obj s) = True"
| "is_lazy_obj _ = False"

text \<open>Inside the critical section of a lookup; a failed lookup never leaves it.\<close>

fun in_lookup :: "lazy_pc \<Rightarrow> bool" where
  "in_lookup (Iterating _ _) = True"
| "in_lookup (Holding _ _ _) = True"
| "in_lookup (Releasing _ _ _) = True"
| "in_lookup (Destroying _ k) = (k \<noteq> None)"
| "in_lookup (Failed _) = True"
| "in_lookup _ = False"

fun temporary :: "lazy_pc \<Rightarrow> ctrl option" where
  "temporary (Holding _ _ c) = Some c"
| "temporary (Releasing _ _ c) = Some c"
| "temporary _ = None"

section \<open>Steps\<close>

text \<open>Release of one owner: with the last one the block expires and the destructor is entered.\<close>

definition drop_owner :: "tid \<Rightarrow> ctrl \<Rightarrow> (lazy_kind \<times> nat) option \<Rightarrow> lazy_pc \<Rightarrow> 'm lazy_state \<Rightarrow> 'm lazy_state" where
  "drop_owner t c k next_pc s =
     (let s1 = s\<lparr>use_count := (use_count s)(c := use_count s c - 1)\<rparr> in
      if use_count s c = 1
      then (case owner (memory (lz_world s)) c of
              None \<Rightarrow> s1\<lparr>pc := (pc s)(t := next_pc)\<rparr>
            | Some a \<Rightarrow> s1\<lparr>lz_world := (lz_world s)\<lparr>memory := expire c (memory (lz_world s))\<rparr>,
                           pc := (pc s)(t := Destroying a k)\<rparr>)
      else s1\<lparr>pc := (pc s)(t := next_pc)\<rparr>)"

text \<open>\<open>it = lazyInitVector.erase(it)\<close>\<close>

definition erase_entry :: "lazy_kind \<Rightarrow> nat \<Rightarrow> 'm world \<Rightarrow> 'm world" where
  "erase_entry kd i w = set_lazy_queue kd (take i (lazy_queue kd (registry w)) @ drop (Suc i) (lazy_queue kd (registry w))) w"

inductive lazy_step :: "tid \<Rightarrow> 'm lazy_state \<Rightarrow> 'm lazy_state \<Rightarrow> bool" where
  Create_node: "pc s t = Idle \<Longrightarrow> objs (memory (lz_world s)) a = None \<Longrightarrow> fresh_ctrl c (lz_world s) \<Longrightarrow>
    \<forall>b y. objs (memory (lz_world s)) b = Some y \<longrightarrow> weak_this y \<noteq> Some c \<Longrightarrow>
    lazy_step t s (s\<lparr>lz_world := (lz_world s)\<lparr>memory := new_shared c a (Node_obj name) (memory (lz_world s))\<rparr>,
      use_count := (use_count s)(c := 1), users := (users s)(c := 1)\<rparr>)"
| Construct_client: "pc s t = Idle \<Longrightarrow> lazy_init_mutex s = None \<Longrightarrow> objs (memory (lz_world s)) a = None \<Longrightarrow>
    lazy_step t s (s\<lparr>lz_world := new_action_client a x fq (lz_world s)\<rparr>)"
| Construct_server: "pc s t = Idle \<Longrightarrow> lazy_init_mutex s = None \<Longrightarrow> objs (memory (lz_world s)) a = None \<Longrightarrow>
    lazy_step t s (s\<lparr>lz_world := new_action_server a y fq (lz_world s)\<rparr>)"
| Own: "pc s t = Idle \<Longrightarrow> objs (memory (lz_world s)) a = Some x \<Longrightarrow> weak_this x = None \<Longrightarrow> is_lazy_obj (payload x) \<Longrightarrow>
    \<forall>b y. objs (memory (lz_world s)) b = Some y \<longrightarrow> weak_this y \<noteq> Some c \<Longrightarrow> fresh_ctrl c (lz_world s) \<Longrightarrow>
    lazy_step t s (s\<lparr>lz_world := (lz_world s)\<lparr>memory := adopt c a (memory (lz_world s))\<rparr>,
      use_count := (use_count s)(c := 1), users := (users s)(c := 1)\<rparr>)"
| Copy: "pc s t = Idle \<Longrightarrow> 0 < users s c \<Longrightarrow>
    lazy_step t s (s\<lparr>use_count := (use_count s)(c := use_count s c + 1), users := (users s)(c := users s c + 1)\<rparr>)"
| Drop: "pc s t = Idle \<Longrightarrow> 0 < users s c \<Longrightarrow> locked_obj (memory (lz_world s)) (Some c) = Some x \<Longrightarrow> is_lazy_obj x \<Longrightarrow>
    lazy_step t s (drop_owner t c None Idle (s\<lparr>users := (users s)(c := users s c - 1)\<rparr>))"
| Destroy: "pc s t = Destroying a None \<Longrightarrow> lazy_init_mutex s = None \<Longrightarrow>
    lazy_step t s (s\<lparr>lz_world := run_destructor a (lz_world s), pc := (pc s)(t := Idle)\<rparr>)"
| Relock: "pc s t = Destroying a (Some k) \<Longrightarrow> lazy_init_mutex s = Some t \<Longrightarrow>
    lazy_step t s (s\<lparr>pc := (pc s)(t := Failed (Undefined Mutex_relocked))\<rparr>)"
| Lookup: "pc s t = Idle \<Longrightarrow> lazy_step t s (s\<lparr>pc := (pc s)(t := Lookup_wait kd)\<rparr>)"
| Lock: "pc s t = Lookup_wait kd \<Longrightarrow> lazy_init_mutex s = None \<Longrightarrow>
    lazy_step t s (s\<lparr>lazy_init_mutex := Some t, pc := (pc s)(t := Iterating kd 0)\<rparr>)"
| Callback_throws: "pc s t = Iterating kd i \<Longrightarrow> i < length (queue_of kd s) \<Longrightarrow>
    run_closure kd (init_callback (queue_of kd s ! i)) (lz_world s) = (Inl e, w) \<Longrightarrow>
    lazy_step t s (s\<lparr>pc := (pc s)(t := if is_std_exception e then Iterating kd (Suc i) else Failed e)\<rparr>)"
| Callback_owned: "pc s t = Iterating kd i \<Longrightarrow> i < length (queue_of kd s) \<Longrightarrow>
    run_closure kd (init_callback (queue_of kd s ! i)) (lz_world s) = (Inr (), w) \<Longrightarrow>
    shared_from_this (memory (lz_world s)) (callback_this (queue_of kd s ! i)) = Inr c \<Longrightarrow>
    lazy_step t s (s\<lparr>use_count := (use_count s)(c := use_count s c + 1), pc := (pc s)(t := Holding kd i c)\<rparr>)"
| Register: "pc s t = Holding kd i c \<Longrightarrow>
    lazy_step t s (s\<lparr>lz_world := snd (run_closure kd (init_callback (queue_of kd s ! i)) (lz_world s)),
      pc := (pc s)(t := Releasing kd i c)\<rparr>)"
| Release_shared: "pc s t = Releasing kd i c \<Longrightarrow> use_count s c \<noteq> 1 \<Longrightarrow>
    lazy_step t s (drop_owner t c (Some (kd, i)) (Iterating kd i)
      (s\<lparr>lz_world := erase_entry kd i (lz_world s)\<rparr>))"
| Release_last: "pc s t = Releasing kd i c \<Longrightarrow> use_count s c = 1 \<Longrightarrow>
    lazy_step t s (drop_owner t c (Some (kd, i)) (Iterating kd i) s)"
| Unlock: "pc s t = Iterating kd i \<Longrightarrow> i = length (queue_of kd s) \<Longrightarrow>
    lazy_step t s (s\<lparr>lazy_init_mutex := None, pc := (pc s)(t := Idle)\<rparr>)"

inductive lazy_reachable :: "'m lazy_state \<Rightarrow> bool" where
  start: "lazy_reachable (lazy_start init_world)"
| move: "lazy_reachable s \<Longrightarrow> lazy_step t s s' \<Longrightarrow> lazy_reachable s'"

section \<open>The callbacks\<close>

lemma lazy_queue_frame [simp]:
  "lazy_queue kd (registry (registerActionClient T n k c w)) = lazy_queue kd (registry w)"
  "lazy_queue kd (registry (registerActionServer T n k c w)) = lazy_queue kd (registry w)"
  "memory (registerActionClient T n k c w) = memory w" "memory (registerActionServer T n k c w) = memory w"
  by (cases kd; simp add: registerActionClient_def registerActionServer_def)+

lemma memory_set_lazy_queue [simp]: "memory (set_lazy_queue kd es w) = memory w"
  by (cases kd) simp_all

lemma lazy_queue_set [simp]: "lazy_queue kd (registry (set_lazy_queue kd es w)) = es"
  by (cases kd) simp_all

text \<open>A queued callback throws \<open>bad_weak_ptr\<close>, or registers its object under a temporary owner.\<close>

lemma run_closure_outcome:
  assumes "lazy_ok (memory w) (registry w)" and "e \<in> set (lazy_queue kd (registry w))"
  shows "callback_this e = raw_ptr e" and
    "(shared_from_this (memory w) (raw_ptr e) = Inl Bad_weak_ptr \<and>
       run_closure kd (init_callback e) w = (Inl Bad_weak_ptr, w)) \<or>
     (\<exists>c w'. shared_from_this (memory w) (raw_ptr e) = Inr c \<and>
       run_closure kd (init_callback e) w = (Inr (), w') \<and> memory w' = memory w \<and>
       (\<forall>kd'. lazy_queue kd' (registry w') = lazy_queue kd' (registry w)))"
proof -
  have cb: "init_callback e = Post_init_setup (raw_ptr e)"
    using assms by (cases kd) (auto simp: lazy_ok_def)
  then show "callback_this e = raw_ptr e" by (simp add: callback_this_def)
  obtain x where x: "at_ptr (memory w) (raw_ptr e) = Some x"
    and kind: "kd = Lazy_clients \<Longrightarrow> \<exists>s. x = Action_client_obj s" "kd = Lazy_servers \<Longrightarrow> \<exists>s. x = Action_server_obj s"
    using assms by (cases kd) (auto simp: lazy_ok_def)
  show "(shared_from_this (memory w) (raw_ptr e) = Inl Bad_weak_ptr \<and>
       run_closure kd (init_callback e) w = (Inl Bad_weak_ptr, w)) \<or>
     (\<exists>c w'. shared_from_this (memory w) (raw_ptr e) = Inr c \<and>
       run_closure kd (init_callback e) w = (Inr (), w') \<and> memory w' = memory w \<and>
       (\<forall>kd'. lazy_queue kd' (registry w') = lazy_queue kd' (registry w)))"
  proof (cases "shared_from_this (memory w) (raw_ptr e)")
    case (Inl y)
    with x have "y = Bad_weak_ptr" by (metis shared_from_this_live)
    with Inl x kind cb show ?thesis
      by (cases kd) (auto simp: action_client_post_init_setup_def action_server_post_init_setup_def)
  next
    case (Inr c)
    with x kind cb show ?thesis
      by (cases kd) (auto simp: action_client_post_init_setup_def action_server_post_init_setup_def)
  qed
qed

lemma nth_queue: "i < length (queue_of kd s) \<Longrightarrow> queue_of kd s ! i \<in> set (queue_of kd s)"
  by (rule nth_mem)

lemma shared_from_this_Inr:
  "shared_from_this m a = Inr c \<longleftrightarrow> (\<exists>x b. objs m a = Some x \<and> weak_this x = Some c \<and> owner m c = Some b)"
  by (auto simp: shared_from_this_def lock_def split: option.splits)

section \<open>The invariant\<close>

text \<open>An object whose last owner is gone and whose destructor still waits: nothing owns it again.\<close>

definition dying :: "'m obj mem \<Rightarrow> addr \<Rightarrow> bool" where
  "dying m a \<longleftrightarrow> (\<exists>x c. objs m a = Some x \<and> weak_this x = Some c \<and> owner m c = None)"

fun pc_ok :: "'m world \<Rightarrow> lazy_pc \<Rightarrow> bool" where
  "pc_ok w (Iterating kd i) \<longleftrightarrow> i \<le> length (lazy_queue kd (registry w))"
| "pc_ok w (Holding kd i c) \<longleftrightarrow> i < length (lazy_queue kd (registry w)) \<and>
     owner (memory w) c = Some (raw_ptr (lazy_queue kd (registry w) ! i))"
| "pc_ok w (Releasing kd i c) \<longleftrightarrow> i < length (lazy_queue kd (registry w)) \<and>
     owner (memory w) c = Some (raw_ptr (lazy_queue kd (registry w) ! i))"
| "pc_ok w (Destroying a k) \<longleftrightarrow> dying (memory w) a"
| "pc_ok w (Failed e) \<longleftrightarrow> e = Undefined Mutex_relocked"
| "pc_ok w _ \<longleftrightarrow> True"

definition mutex_ok :: "'m lazy_state \<Rightarrow> bool" where
  "mutex_ok s \<longleftrightarrow> (\<forall>t. in_lookup (pc s t) \<longleftrightarrow> lazy_init_mutex s = Some t)"

definition owners_ok :: "'m obj mem \<Rightarrow> bool" where
  "owners_ok m \<longleftrightarrow> (\<forall>c a. owner m c = Some a \<longrightarrow>
     (\<exists>x. objs m a = Some x \<and> weak_this x = Some c) \<and>
     (\<forall>b y. b \<noteq> a \<longrightarrow> objs m b = Some y \<longrightarrow> weak_this y \<noteq> Some c))"

definition held :: "'m lazy_state \<Rightarrow> ctrl \<Rightarrow> nat" where
  "held s c = (case lazy_init_mutex s of None \<Rightarrow> 0 | Some t \<Rightarrow> if temporary (pc s t) = Some c then 1 else 0)"

definition counts_ok :: "'m lazy_state \<Rightarrow> bool" where
  "counts_ok s \<longleftrightarrow> (\<forall>c. use_count s c = users s c + held s c \<and>
     (0 < use_count s c \<longleftrightarrow> owner (memory (lz_world s)) c \<noteq> None))"

definition dying_apart :: "'m lazy_state \<Rightarrow> bool" where
  "dying_apart s \<longleftrightarrow> (\<forall>t u a k l. pc s t = Destroying a k \<longrightarrow> pc s u = Destroying a l \<longrightarrow> t = u)"

definition lazy_inv :: "'m lazy_state \<Rightarrow> bool" where
  "lazy_inv s \<longleftrightarrow> mutex_ok s \<and> lazy_ok (memory (lz_world s)) (registry (lz_world s)) \<and>
     owners_ok (memory (lz_world s)) \<and> counts_ok s \<and> dying_apart s \<and> (\<forall>t. pc_ok (lz_world s) (pc s t))"

lemma lazy_inv_start: "lazy_inv (lazy_start init_world)"
  by (simp add: lazy_inv_def mutex_ok_def lazy_start_def lazy_ok_def owners_ok_def counts_ok_def held_def
      dying_apart_def init_world_def empty_registry_def empty_mem_def)

lemmas lazy_inv_defs = lazy_inv_def mutex_ok_def counts_ok_def dying_apart_def

text \<open>A step that moves one thread and changes nothing the invariant of the others reads.\<close>

lemma mutex_ok_move:
  "mutex_ok s \<Longrightarrow> in_lookup p = in_lookup (pc s t) \<Longrightarrow> mutex_ok (s\<lparr>pc := (pc s)(t := p)\<rparr>)"
  by (simp add: mutex_ok_def)

lemma held_move:
  "temporary p = temporary (pc s t) \<Longrightarrow> held (s\<lparr>pc := (pc s)(t := p)\<rparr>) c = held s c"
  by (simp add: held_def split: option.split)

lemma held_cong: "lazy_init_mutex s' = lazy_init_mutex s \<Longrightarrow> pc s' = pc s \<Longrightarrow> held s' c = held s c"
  by (simp add: held_def split: option.split)

text \<open>Invariants that read only a part of the state.\<close>

lemma mutex_ok_cong: "lazy_init_mutex s' = lazy_init_mutex s \<Longrightarrow> pc s' = pc s \<Longrightarrow> mutex_ok s' = mutex_ok s"
  by (simp add: mutex_ok_def)

lemma dying_apart_cong: "pc s' = pc s \<Longrightarrow> dying_apart s' = dying_apart s"
  by (simp add: dying_apart_def)

lemma counts_ok_cong:
  "use_count s' = use_count s \<Longrightarrow> users s' = users s \<Longrightarrow> (\<And>c. held s' c = held s c) \<Longrightarrow>
    owner (memory (lz_world s')) = owner (memory (lz_world s)) \<Longrightarrow> counts_ok s' = counts_ok s"
  unfolding counts_ok_def by simp

lemma dying_apart_move:
  "dying_apart s \<Longrightarrow> (\<And>a k u l. p = Destroying a k \<Longrightarrow> u \<noteq> t \<Longrightarrow> pc s u \<noteq> Destroying a l) \<Longrightarrow>
    dying_apart (s\<lparr>pc := (pc s)(t := p)\<rparr>)"
  unfolding dying_apart_def by (simp) metis

lemma lazy_inv_move:
  assumes "lazy_inv s" and "in_lookup p = in_lookup (pc s t)" and "temporary p = temporary (pc s t)"
    and "pc_ok (lz_world s) p" and "\<And>a k. p \<noteq> Destroying a k"
  shows "lazy_inv (s\<lparr>pc := (pc s)(t := p)\<rparr>)"
proof -
  have "counts_ok (s\<lparr>pc := (pc s)(t := p)\<rparr>) = counts_ok s"
    by (rule counts_ok_cong) (simp_all add: held_move [OF assms(3)])
  then show ?thesis
    using assms mutex_ok_move [of s p t] dying_apart_move [of s p t] by (simp add: lazy_inv_def)
qed

text \<open>The steps outside the loop.\<close>

lemma nobody_in_lookup: "mutex_ok s \<Longrightarrow> lazy_init_mutex s = None \<Longrightarrow> \<not> in_lookup (pc s t)"
  by (simp add: mutex_ok_def)

text \<open>What a change of the world must keep for the threads outside the loop.\<close>

lemma pc_ok_outside:
  assumes "\<not> in_lookup p" and "pc_ok w p" and "\<And>a. dying (memory w) a \<Longrightarrow> dying (memory w') a"
  shows "pc_ok w' p"
  using assms by (cases p) auto

lemma lazy_ok_new_client:
  assumes "lazy_ok (memory w) (registry w)" and "objs (memory w) a = None"
  shows "lazy_ok (memory (new_action_client a x fq w)) (registry (new_action_client a x fq w))"
    and "lazy_ok (memory (new_action_server a y fq w)) (registry (new_action_server a y fq w))"
  using assms by (auto simp: lazy_ok_def new_action_client_def new_action_server_def at_ptr_def)

lemma owners_okD:
  assumes "owners_ok m" and "owner m c = Some a"
  obtains x where "objs m a = Some x" and "weak_this x = Some c"
    and "\<forall>b y. b \<noteq> a \<longrightarrow> objs m b = Some y \<longrightarrow> weak_this y \<noteq> Some c"
  using assms unfolding owners_ok_def by blast

lemma owners_okI:
  assumes "\<And>c a. owner m c = Some a \<Longrightarrow>
     (\<exists>x. objs m a = Some x \<and> weak_this x = Some c) \<and>
     (\<forall>b y. b \<noteq> a \<longrightarrow> objs m b = Some y \<longrightarrow> weak_this y \<noteq> Some c)"
  shows "owners_ok m"
  using assms unfolding owners_ok_def by blast

lemma owners_ok_construct:
  assumes "owners_ok m" and "objs m a = None"
  shows "owners_ok (construct a x m)"
proof (rule owners_okI)
  fix c b
  assume "owner (construct a x m) c = Some b"
  then have b: "owner m c = Some b" by simp
  obtain y where "objs m b = Some y" "weak_this y = Some c"
    and "\<forall>d y. d \<noteq> b \<longrightarrow> objs m d = Some y \<longrightarrow> weak_this y \<noteq> Some c"
    by (rule owners_okD [OF assms(1) b])
  with assms(2) show "(\<exists>y. objs (construct a x m) b = Some y \<and> weak_this y = Some c) \<and>
      (\<forall>d y. d \<noteq> b \<longrightarrow> objs (construct a x m) d = Some y \<longrightarrow> weak_this y \<noteq> Some c)"
    by (cases "b = a") auto
qed

lemma owners_ok_adopt:
  assumes "owners_ok m" and x: "objs m a = Some x" "weak_this x = None"
    and c: "\<forall>b y. objs m b = Some y \<longrightarrow> weak_this y \<noteq> Some c"
  shows "owners_ok (adopt c a m)"
proof (rule owners_okI)
  fix d b
  assume d: "owner (adopt c a m) d = Some b"
  have m: "objs (adopt c a m) = (objs m)(a \<mapsto> x\<lparr>weak_this := Some c\<rparr>)" "owner (adopt c a m) = (owner m)(c \<mapsto> a)"
    using x(1) by (simp_all add: adopt_def)
  show "(\<exists>y. objs (adopt c a m) b = Some y \<and> weak_this y = Some d) \<and>
      (\<forall>e y. e \<noteq> b \<longrightarrow> objs (adopt c a m) e = Some y \<longrightarrow> weak_this y \<noteq> Some d)"
  proof (cases "d = c")
    case True
    with d have "b = a" by (simp add: m)
    with True x c show ?thesis by (auto simp: m)
  next
    case False
    with d have b: "owner m d = Some b" by (simp add: m)
    obtain y where y: "objs m b = Some y" "weak_this y = Some d"
      and u: "\<forall>e z. e \<noteq> b \<longrightarrow> objs m e = Some z \<longrightarrow> weak_this z \<noteq> Some d"
      by (rule owners_okD [OF assms(1) b])
    from x(1,2) y have "b \<noteq> a" by auto
    with y u False show ?thesis by (auto simp: m)
  qed
qed

lemma lazy_inv_construct:
  assumes inv: "lazy_inv s" and a: "objs (memory (lz_world s)) a = None"
    and mem: "memory w = construct a obj (memory (lz_world s))" and lz: "lazy_ok (memory w) (registry w)"
    and quiet: "lazy_init_mutex s = None \<or> registry w = registry (lz_world s)"
  shows "lazy_inv (s\<lparr>lz_world := w\<rparr>)"
proof -
  let ?s = "s\<lparr>lz_world := w\<rparr>"
  have dying: "dying (memory w) b" if "dying (memory (lz_world s)) b" for b
    using that a unfolding dying_def mem by (cases "b = a") auto
  have "owners_ok (memory w)"
    using inv a unfolding lazy_inv_def by (simp add: mem owners_ok_construct)
  moreover have "pc_ok w (pc s t)" for t
  proof (cases "in_lookup (pc s t)")
    case False
    then show ?thesis
    proof (rule pc_ok_outside [of _ "lz_world s"])
      show "pc_ok (lz_world s) (pc s t)" using inv by (simp add: lazy_inv_def)
    qed (rule dying)
  next
    case True
    with quiet inv have "registry w = registry (lz_world s)" by (auto simp: lazy_inv_def mutex_ok_def)
    moreover have "pc_ok (lz_world s) (pc s t)" using inv by (simp add: lazy_inv_def)
    ultimately show ?thesis using dying by (cases "pc s t") (simp_all add: mem)
  qed
  ultimately show ?thesis
    using inv lz mutex_ok_cong [of ?s s] dying_apart_cong [of ?s s] counts_ok_cong [of ?s s] held_cong [of ?s s]
    by (simp add: lazy_inv_def mem)
qed

lemma lazy_ok_same_objs: "lazy_ok m r \<Longrightarrow> (\<And>a. at_ptr m' a = at_ptr m a) \<Longrightarrow> lazy_ok m' r"
  by (simp add: lazy_ok_def)

lemma held_unowned: "lazy_inv s \<Longrightarrow> owner (memory (lz_world s)) c = None \<Longrightarrow> held s c = 0 \<and> users s c = 0 \<and> use_count s c = 0"
  unfolding lazy_inv_def counts_ok_def by (metis add_is_0 not_gr_zero)

lemma lazy_inv_own:
  assumes inv: "lazy_inv s" and x: "objs (memory (lz_world s)) a = Some x" "weak_this x = None"
    and c: "\<forall>b y. objs (memory (lz_world s)) b = Some y \<longrightarrow> weak_this y \<noteq> Some c"
    and unowned: "owner (memory (lz_world s)) c = None"
  shows "lazy_inv (s\<lparr>lz_world := (lz_world s)\<lparr>memory := adopt c a (memory (lz_world s))\<rparr>,
      use_count := (use_count s)(c := 1), users := (users s)(c := 1)\<rparr>)"
proof -
  let ?m = "memory (lz_world s)"
  let ?w = "(lz_world s)\<lparr>memory := adopt c a ?m\<rparr>"
  let ?s = "s\<lparr>lz_world := ?w, use_count := (use_count s)(c := 1), users := (users s)(c := 1)\<rparr>"
  have m: "objs (adopt c a ?m) = (objs ?m)(a \<mapsto> x\<lparr>weak_this := Some c\<rparr>)" "owner (adopt c a ?m) = (owner ?m)(c \<mapsto> a)"
    using x(1) by (simp_all add: adopt_def)
  have "lazy_ok (memory ?w) (registry ?w)"
    using inv x(1) by (auto intro!: lazy_ok_same_objs [of ?m] simp: lazy_inv_def at_ptr_def m)
  moreover have "owners_ok (memory ?w)"
    using inv x c unowned by (simp add: lazy_inv_def owners_ok_adopt)
  moreover have "counts_ok ?s"
    unfolding counts_ok_def
  proof
    fix d
    have "held ?s d = held s d" by (rule held_cong) simp_all
    moreover have "use_count s d = users s d + held s d" "0 < use_count s d \<longleftrightarrow> owner ?m d \<noteq> None"
      using inv unfolding lazy_inv_def counts_ok_def by blast+
    ultimately show "use_count ?s d = users ?s d + held ?s d \<and> (0 < use_count ?s d \<longleftrightarrow> owner (memory (lz_world ?s)) d \<noteq> None)"
      using held_unowned [OF inv unowned] by (cases "d = c") (simp_all add: m del: not_None_eq)
  qed
  moreover have "pc_ok ?w p" if "pc_ok (lz_world s) p" for p
  proof (cases p)
    case (Destroying b k)
    with that obtain y d where "objs ?m b = Some y" "weak_this y = Some d" "owner ?m d = None"
      by (auto simp: dying_def)
    with c x Destroying show ?thesis by (auto simp: dying_def m intro!: exI [of _ d])
  next
    case (Holding kd i d)
    with that unowned show ?thesis by (auto simp: m)
  next
    case (Releasing kd i d)
    with that unowned show ?thesis by (auto simp: m)
  qed (use that in auto)
  ultimately show ?thesis using inv by (simp add: lazy_inv_def mutex_ok_def dying_apart_def)
qed

lemma lazy_inv_copy:
  assumes inv: "lazy_inv s" and c: "0 < users s c"
  shows "lazy_inv (s\<lparr>use_count := (use_count s)(c := use_count s c + 1), users := (users s)(c := users s c + 1)\<rparr>)"
proof -
  let ?s = "s\<lparr>use_count := (use_count s)(c := use_count s c + 1), users := (users s)(c := users s c + 1)\<rparr>"
  have held: "held ?s d = held s d" for d by (rule held_cong) simp_all
  have cnt: "use_count s d = users s d + held s d" "0 < use_count s d \<longleftrightarrow> owner (memory (lz_world s)) d \<noteq> None" for d
    using inv unfolding lazy_inv_def counts_ok_def by blast+
  have "counts_ok ?s"
    unfolding counts_ok_def
  proof
    fix d
    show "use_count ?s d = users ?s d + held ?s d \<and> (0 < use_count ?s d \<longleftrightarrow> owner (memory (lz_world ?s)) d \<noteq> None)"
      using cnt [of d] c unfolding held by (cases "d = c") simp_all
  qed
  then show ?thesis
    using inv mutex_ok_cong [of ?s s] dying_apart_cong [of ?s s] by (simp add: lazy_inv_def)
qed

lemma dying_expire: "dying m a \<Longrightarrow> dying (expire c m) a"
  unfolding dying_def by (metis expire_fields fun_upd_apply)

text \<open>The last owner goes: the block expires, the object is dying, its destructor waits.\<close>

lemma lazy_inv_expire:
  assumes inv: "lazy_inv s" and last: "use_count s c = 1" and a: "owner (memory (lz_world s)) c = Some a"
    and outside: "k = None \<Longrightarrow> pc s t = Idle \<and> 0 < users s c"
    and inside: "k \<noteq> None \<Longrightarrow> in_lookup (pc s t) \<and> temporary (pc s t) = Some c"
  shows "lazy_inv (s\<lparr>users := (users s)(c := 0), use_count := (use_count s)(c := 0),
    lz_world := (lz_world s)\<lparr>memory := expire c (memory (lz_world s))\<rparr>, pc := (pc s)(t := Destroying a k)\<rparr>)"
    (is "lazy_inv ?s")
proof -
  let ?m = "memory (lz_world s)"
  have cnt: "use_count s d = users s d + held s d" "0 < use_count s d \<longleftrightarrow> owner ?m d \<noteq> None" for d
    using inv unfolding lazy_inv_def counts_ok_def by blast+
  have mx: "mutex_ok s" using inv by (simp add: lazy_inv_def)
  obtain x where x: "objs ?m a = Some x" "weak_this x = Some c"
    using inv a unfolding lazy_inv_def owners_ok_def by blast
  have others: "temporary (pc s u) \<noteq> Some c" if "u \<noteq> t" for u
  proof
    assume u: "temporary (pc s u) = Some c"
    then have "in_lookup (pc s u)" by (cases "pc s u") auto
    then have mu: "lazy_init_mutex s = Some u" using mx by (simp add: mutex_ok_def)
    with u have "held s c = 1" by (simp add: held_def)
    with cnt(1) [of c] last have "users s c = 0" by simp
    with outside inside have "in_lookup (pc s t)" by (cases k) auto
    with mx mu that show False by (simp add: mutex_ok_def)
  qed
  have "mutex_ok ?s"
  proof -
    have at: "in_lookup (Destroying a k) = in_lookup (pc s t)"
    proof (cases k)
      case None
      with outside show ?thesis by simp
    next
      case (Some l)
      with inside show ?thesis by simp
    qed
    have "in_lookup (pc ?s u) = (lazy_init_mutex s = Some u)" for u
      using mx at by (cases "u = t") (simp_all add: mutex_ok_def del: in_lookup.simps)
    then show ?thesis by (simp add: mutex_ok_def del: in_lookup.simps)
  qed
  moreover have "lazy_ok (expire c ?m) (registry (lz_world s))"
  proof (rule lazy_ok_same_objs)
    show "lazy_ok ?m (registry (lz_world s))" using inv by (simp add: lazy_inv_def)
    show "at_ptr (expire c ?m) b = at_ptr ?m b" for b by (rule at_ptr_expire)
  qed
  moreover have "owners_ok (expire c ?m)"
  proof (rule owners_okI)
    fix d b
    assume "owner (expire c ?m) d = Some b"
    then have b: "owner ?m d = Some b" by (simp split: if_splits)
    have "owners_ok ?m" using inv by (simp add: lazy_inv_def)
    then show "(\<exists>y. objs (expire c ?m) b = Some y \<and> weak_this y = Some d) \<and>
        (\<forall>e y. e \<noteq> b \<longrightarrow> objs (expire c ?m) e = Some y \<longrightarrow> weak_this y \<noteq> Some d)"
      using b by (simp add: owners_ok_def)
  qed
  moreover have "counts_ok ?s"
    unfolding counts_ok_def
  proof
    fix d
    have h: "held ?s d = (if d = c then 0 else held s d)"
    proof (cases "lazy_init_mutex s")
      case (Some u)
      show ?thesis
      proof (cases "u = t")
        case True
        with Some mx have "in_lookup (pc s t)" by (simp add: mutex_ok_def)
        then have "k \<noteq> None" using outside by (cases "k = None") auto
        with inside have "temporary (pc s t) = Some c" by simp
        with Some True show ?thesis by (simp add: held_def)
      next
        case False
        with Some others [of u] show ?thesis by (simp add: held_def)
      qed
    qed (simp add: held_def)
    show "use_count ?s d = users ?s d + held ?s d \<and>
        (0 < use_count ?s d \<longleftrightarrow> owner (memory (lz_world ?s)) d \<noteq> None)"
      using cnt [of d] unfolding h by (cases "d = c") simp_all
  qed
  moreover have none: "pc s u \<noteq> Destroying a l" for u l
  proof
    assume "pc s u = Destroying a l"
    then have "dying ?m a" using inv unfolding lazy_inv_def by (metis pc_ok.simps(4))
    with x a show False by (auto simp: dying_def)
  qed
  have "dying_apart (s\<lparr>pc := (pc s)(t := Destroying a k)\<rparr>)"
  proof (rule dying_apart_move)
    show "dying_apart s" using inv by (simp add: lazy_inv_def)
    show "pc s u \<noteq> Destroying b l'" if "Destroying a k = Destroying b l" for b l u l'
      using that none by simp
  qed
  then have "dying_apart ?s"
    by (simp add: dying_apart_cong [of ?s "s\<lparr>pc := (pc s)(t := Destroying a k)\<rparr>"])
  moreover have "pc_ok (lz_world ?s) (pc ?s u)" for u
  proof (cases "u = t")
    case True
    with x show ?thesis by (simp add: dying_def)
  next
    case False
    have "pc_ok (lz_world s) (pc s u)" using inv by (simp add: lazy_inv_def)
    with others [OF False] False show ?thesis by (cases "pc s u") (auto simp: dying_expire)
  qed
  ultimately show ?thesis unfolding lazy_inv_def by simp
qed

text \<open>An owner goes that is not the last one.\<close>

lemma lazy_inv_drop_shared:
  assumes inv: "lazy_inv s" and more: "use_count s c \<noteq> 1" and c: "0 < users s c" and t: "pc s t = Idle"
  shows "lazy_inv (drop_owner t c None Idle (s\<lparr>users := (users s)(c := users s c - 1)\<rparr>))"
proof -
  let ?s = "s\<lparr>users := (users s)(c := users s c - 1), use_count := (use_count s)(c := use_count s c - 1)\<rparr>"
  have "drop_owner t c None Idle (s\<lparr>users := (users s)(c := users s c - 1)\<rparr>) = ?s"
    using more t by (simp add: drop_owner_def fun_upd_idem)
  moreover have cnt: "use_count s d = users s d + held s d" "0 < use_count s d \<longleftrightarrow> owner (memory (lz_world s)) d \<noteq> None" for d
    using inv unfolding lazy_inv_def counts_ok_def by blast+
  have held: "held ?s d = held s d" for d by (rule held_cong) simp_all
  have "counts_ok ?s"
    unfolding counts_ok_def
  proof
    fix d
    show "use_count ?s d = users ?s d + held ?s d \<and> (0 < use_count ?s d \<longleftrightarrow> owner (memory (lz_world ?s)) d \<noteq> None)"
      using cnt [of d] c more unfolding held by (cases "d = c") auto
  qed
  then have "lazy_inv ?s"
    using inv mutex_ok_cong [of ?s s] dying_apart_cong [of ?s s] by (simp add: lazy_inv_def)
  ultimately show ?thesis by simp
qed

lemma lazy_inv_drop:
  assumes inv: "lazy_inv s" and c: "0 < users s c" and t: "pc s t = Idle"
  shows "lazy_inv (drop_owner t c None Idle (s\<lparr>users := (users s)(c := users s c - 1)\<rparr>))"
proof (cases "use_count s c = 1")
  case True
  have cnt: "use_count s c = users s c + held s c" "0 < use_count s c \<longleftrightarrow> owner (memory (lz_world s)) c \<noteq> None"
    using inv unfolding lazy_inv_def counts_ok_def by blast+
  then obtain a where a: "owner (memory (lz_world s)) c = Some a" using True by auto
  have "users s c - 1 = 0" using cnt(1) True by simp
  with lazy_inv_expire [OF inv True a, of None t] c t True a show ?thesis by (simp add: drop_owner_def)
next
  case False
  then show ?thesis by (rule lazy_inv_drop_shared [OF inv _ c t])
qed

text \<open>The steps of the loop, taken by the thread that owns the mutex.\<close>

lemma alone_in_lookup:
  "mutex_ok s \<Longrightarrow> in_lookup (pc s t) \<Longrightarrow> u \<noteq> t \<Longrightarrow> \<not> in_lookup (pc s u)"
  unfolding mutex_ok_def by (metis option.inject)

lemma held_owner: "mutex_ok s \<Longrightarrow> in_lookup (pc s t) \<Longrightarrow> held s c = (if temporary (pc s t) = Some c then 1 else 0)"
  by (auto simp: mutex_ok_def held_def)

text \<open>The thread in the loop moves on; queue, counts and the temporary may change, the memory stays.\<close>

lemma lazy_inv_loop:
  assumes inv: "lazy_inv s" and t: "in_lookup (pc s t)" "in_lookup p" "\<And>a k. p \<noteq> Destroying a k"
    and mem: "memory w = memory (lz_world s)" and lz: "lazy_ok (memory w) (registry w)" and ok: "pc_ok w p"
    and cnt: "\<And>c. f c = users s c + (if temporary p = Some c then 1 else 0)"
    and pos: "\<And>c. 0 < f c \<longleftrightarrow> 0 < use_count s c"
  shows "lazy_inv (s\<lparr>lz_world := w, use_count := f, pc := (pc s)(t := p)\<rparr>)"
proof -
  let ?s = "s\<lparr>lz_world := w, use_count := f, pc := (pc s)(t := p)\<rparr>"
  have mx: "mutex_ok s" using inv by (simp add: lazy_inv_def)
  have "mutex_ok ?s" using mutex_ok_move [OF mx, of p t] t by (simp add: mutex_ok_def)
  moreover have "counts_ok ?s"
    unfolding counts_ok_def
  proof
    fix c
    have "held ?s c = (if temporary p = Some c then 1 else 0)"
      using held_owner [OF \<open>mutex_ok ?s\<close>, of t c] t by simp
    moreover have "0 < use_count s c \<longleftrightarrow> owner (memory (lz_world s)) c \<noteq> None"
      using inv unfolding lazy_inv_def counts_ok_def by blast
    moreover have "use_count ?s c = f c" "users ?s c = users s c" by simp_all
    ultimately show "use_count ?s c = users ?s c + held ?s c \<and>
        (0 < use_count ?s c \<longleftrightarrow> owner (memory (lz_world ?s)) c \<noteq> None)"
      using cnt [of c] pos [of c] mem by simp
  qed
  moreover have "dying_apart ?s"
    using inv t(3) by (simp add: lazy_inv_def dying_apart_def)
  moreover have "pc_ok w (pc ?s u)" for u
  proof (cases "u = t")
    case False
    have "pc_ok w (pc s u)"
    proof (rule pc_ok_outside [OF alone_in_lookup [OF mx t(1) False]])
      show "pc_ok (lz_world s) (pc s u)" using inv by (simp add: lazy_inv_def)
    qed (simp add: mem)
    with False show ?thesis by simp
  qed (use ok in simp)
  ultimately show ?thesis using inv lz by (simp add: lazy_inv_def mem)
qed

lemma lazy_queue_set_other: "kd' \<noteq> kd \<Longrightarrow> lazy_queue kd' (registry (set_lazy_queue kd es w)) = lazy_queue kd' (registry w)"
  by (cases kd; cases kd') simp_all

lemma lazy_ok_set_lazy_queue:
  assumes "lazy_ok (memory w) (registry w)" and "set es \<subseteq> set (lazy_queue kd (registry w))"
  shows "lazy_ok (memory (set_lazy_queue kd es w)) (registry (set_lazy_queue kd es w))"
  using assms by (cases kd) (auto simp: lazy_ok_def)

lemma lazy_ok_erase_entry:
  assumes "lazy_ok (memory w) (registry w)"
  shows "lazy_ok (memory (erase_entry kd i w)) (registry (erase_entry kd i w))"
  unfolding erase_entry_def
  by (rule lazy_ok_set_lazy_queue [OF assms]) (auto dest: in_set_takeD in_set_dropD)

lemma lazy_inv_counts:
  assumes "lazy_inv s"
  shows "use_count s c = users s c + held s c" and "0 < use_count s c \<longleftrightarrow> owner (memory (lz_world s)) c \<noteq> None"
  using assms unfolding lazy_inv_def counts_ok_def by blast+

lemma lazy_invD:
  assumes "lazy_inv s"
  shows "mutex_ok s" and "lazy_ok (memory (lz_world s)) (registry (lz_world s))"
    and "owners_ok (memory (lz_world s))" and "dying_apart s" and "pc_ok (lz_world s) (pc s t)"
  using assms by (simp_all add: lazy_inv_def)

lemma lazy_inv_callback_owned:
  assumes inv: "lazy_inv s" and t: "pc s t = Iterating kd i" and i: "i < length (queue_of kd s)"
    and c: "shared_from_this (memory (lz_world s)) (callback_this (queue_of kd s ! i)) = Inr c"
  shows "lazy_inv (s\<lparr>use_count := (use_count s)(c := use_count s c + 1), pc := (pc s)(t := Holding kd i c)\<rparr>)"
proof -
  let ?e = "queue_of kd s ! i"
  have target: "callback_this ?e = raw_ptr ?e"
    using run_closure_outcome(1) [OF lazy_invD(2) [OF inv] nth_queue [OF i]] .
  from c obtain x b where x: "objs (memory (lz_world s)) (raw_ptr ?e) = Some x" "weak_this x = Some c"
    "owner (memory (lz_world s)) c = Some b" by (auto simp: shared_from_this_Inr target)
  then have owner: "owner (memory (lz_world s)) c = Some (raw_ptr ?e)"
    using lazy_invD(3) [OF inv] unfolding owners_ok_def by metis
  have held: "held s d = 0" for d using held_owner [OF lazy_invD(1) [OF inv], of t d] t by simp
  have "lazy_inv (s\<lparr>lz_world := lz_world s, use_count := (use_count s)(c := use_count s c + 1),
      pc := (pc s)(t := Holding kd i c)\<rparr>)"
  proof (rule lazy_inv_loop [OF inv])
    show "lazy_ok (memory (lz_world s)) (registry (lz_world s))" using inv by (rule lazy_invD)
    show "pc_ok (lz_world s) (Holding kd i c)" using i owner by simp
    fix d
    show "((use_count s)(c := use_count s c + 1)) d = users s d + (if temporary (Holding kd i c) = Some d then 1 else 0)"
      using lazy_inv_counts(1) [OF inv, of d] by (cases "d = c") (simp_all add: held)
    show "0 < ((use_count s)(c := use_count s c + 1)) d \<longleftrightarrow> 0 < use_count s d"
      using lazy_inv_counts(2) [OF inv, of c] owner by simp
  qed (simp_all add: t)
  then show ?thesis by simp
qed

lemma lazy_inv_register:
  assumes inv: "lazy_inv s" and t: "pc s t = Holding kd i c"
  shows "lazy_inv (s\<lparr>lz_world := snd (run_closure kd (init_callback (queue_of kd s ! i)) (lz_world s)),
      pc := (pc s)(t := Releasing kd i c)\<rparr>)"
proof -
  let ?e = "queue_of kd s ! i"
  let ?w = "snd (run_closure kd (init_callback ?e) (lz_world s))"
  have ok: "i < length (queue_of kd s)" "owner (memory (lz_world s)) c = Some (raw_ptr ?e)"
    using lazy_invD(5) [OF inv, of t] t by simp_all
  have w: "memory ?w = memory (lz_world s)" "\<And>kd'. lazy_queue kd' (registry ?w) = lazy_queue kd' (registry (lz_world s))"
    using run_closure_outcome(2) [OF lazy_invD(2) [OF inv] nth_queue [OF ok(1)]] by auto
  have cnt: "use_count s d = users s d + (if Some c = Some d then 1 else 0)" for d
    using lazy_inv_counts(1) [OF inv, of d] held_owner [OF lazy_invD(1) [OF inv], of t d] t by simp
  have "lazy_inv (s\<lparr>lz_world := ?w, use_count := use_count s, pc := (pc s)(t := Releasing kd i c)\<rparr>)"
  proof (rule lazy_inv_loop [OF inv])
    show "lazy_ok (memory ?w) (registry ?w)"
      using lazy_invD(2) [OF inv] w(2) [of Lazy_clients] w(2) [of Lazy_servers] by (simp add: lazy_ok_def w(1))
    show "pc_ok ?w (Releasing kd i c)" using ok by (simp add: w)
  qed (simp_all add: t w cnt)
  then show ?thesis by simp
qed

lemma lazy_inv_release_shared:
  assumes inv: "lazy_inv s" and t: "pc s t = Releasing kd i c" and more: "use_count s c \<noteq> 1"
  shows "lazy_inv (drop_owner t c (Some (kd, i)) (Iterating kd i) (s\<lparr>lz_world := erase_entry kd i (lz_world s)\<rparr>))"
proof -
  have ok: "i < length (queue_of kd s)" using lazy_invD(5) [OF inv, of t] t by simp
  have cnt: "use_count s d = users s d + (if d = c then 1 else 0)" for d
    using lazy_inv_counts(1) [OF inv, of d] held_owner [OF lazy_invD(1) [OF inv], of t d] t by auto
  have "lazy_inv (s\<lparr>lz_world := erase_entry kd i (lz_world s),
      use_count := (use_count s)(c := use_count s c - 1), pc := (pc s)(t := Iterating kd i)\<rparr>)"
  proof (rule lazy_inv_loop [OF inv])
    show "lazy_ok (memory (erase_entry kd i (lz_world s))) (registry (erase_entry kd i (lz_world s)))"
      by (rule lazy_ok_erase_entry [OF lazy_invD(2) [OF inv]])
    show "pc_ok (erase_entry kd i (lz_world s)) (Iterating kd i)" using ok by (simp add: erase_entry_def)
    fix d
    show "((use_count s)(c := use_count s c - 1)) d = users s d + (if temporary (Iterating kd i) = Some d then 1 else 0)"
      using cnt [of d] by (cases "d = c") simp_all
    show "0 < ((use_count s)(c := use_count s c - 1)) d \<longleftrightarrow> 0 < use_count s d"
      using cnt [of d] more by (cases "d = c") auto
  qed (simp_all add: t erase_entry_def)
  with more show ?thesis by (simp add: drop_owner_def)
qed

lemma lazy_inv_release_last:
  assumes inv: "lazy_inv s" and t: "pc s t = Releasing kd i c" and last: "use_count s c = 1"
  shows "lazy_inv (drop_owner t c (Some (kd, i)) (Iterating kd i) s)" and "users s c = 0"
    and "\<exists>a. drop_owner t c (Some (kd, i)) (Iterating kd i) s =
      s\<lparr>users := (users s)(c := 0), use_count := (use_count s)(c := 0),
        lz_world := (lz_world s)\<lparr>memory := expire c (memory (lz_world s))\<rparr>,
        pc := (pc s)(t := Destroying a (Some (kd, i)))\<rparr>"
proof -
  show u: "users s c = 0"
    using lazy_inv_counts(1) [OF inv, of c] held_owner [OF lazy_invD(1) [OF inv], of t c] t last by simp
  obtain a where a: "owner (memory (lz_world s)) c = Some a"
    using lazy_inv_counts(2) [OF inv, of c] last by auto
  have eq: "drop_owner t c (Some (kd, i)) (Iterating kd i) s =
      s\<lparr>users := (users s)(c := 0), use_count := (use_count s)(c := 0),
        lz_world := (lz_world s)\<lparr>memory := expire c (memory (lz_world s))\<rparr>,
        pc := (pc s)(t := Destroying a (Some (kd, i)))\<rparr>"
    using last a u by (simp add: drop_owner_def fun_upd_idem)
  then show "\<exists>a. drop_owner t c (Some (kd, i)) (Iterating kd i) s =
      s\<lparr>users := (users s)(c := 0), use_count := (use_count s)(c := 0),
        lz_world := (lz_world s)\<lparr>memory := expire c (memory (lz_world s))\<rparr>,
        pc := (pc s)(t := Destroying a (Some (kd, i)))\<rparr>" by blast
  show "lazy_inv (drop_owner t c (Some (kd, i)) (Iterating kd i) s)"
    unfolding eq by (rule lazy_inv_expire [OF inv last a]) (simp_all add: t)
qed

lemma lazy_inv_lock:
  assumes inv: "lazy_inv s" and t: "pc s t = Lookup_wait kd" and free: "lazy_init_mutex s = None"
  shows "lazy_inv (s\<lparr>lazy_init_mutex := Some t, pc := (pc s)(t := Iterating kd 0)\<rparr>)"
proof -
  let ?s = "s\<lparr>lazy_init_mutex := Some t, pc := (pc s)(t := Iterating kd 0)\<rparr>"
  have out: "\<not> in_lookup (pc s u)" for u using lazy_invD(1) [OF inv] free by (simp add: mutex_ok_def)
  then have "in_lookup (pc ?s u) = (lazy_init_mutex ?s = Some u)" for u by simp
  then have "mutex_ok ?s" unfolding mutex_ok_def by blast
  moreover have "counts_ok ?s = counts_ok s"
    by (rule counts_ok_cong) (simp_all add: held_def free)
  moreover have "dying_apart ?s" using inv by (simp add: lazy_inv_def dying_apart_def)
  ultimately show ?thesis using inv by (simp add: lazy_inv_def)
qed

lemma lazy_inv_unlock:
  assumes inv: "lazy_inv s" and t: "pc s t = Iterating kd i"
  shows "lazy_inv (s\<lparr>lazy_init_mutex := None, pc := (pc s)(t := Idle)\<rparr>)"
proof -
  let ?s = "s\<lparr>lazy_init_mutex := None, pc := (pc s)(t := Idle)\<rparr>"
  have "\<not> in_lookup (pc ?s u)" for u
    using alone_in_lookup [OF lazy_invD(1) [OF inv], of t u] t by simp
  then have "mutex_ok ?s" unfolding mutex_ok_def by simp
  moreover have "counts_ok ?s = counts_ok s"
    by (rule counts_ok_cong) (simp_all add: held_owner [OF lazy_invD(1) [OF inv], of t] t, simp add: held_def)
  moreover have "dying_apart ?s" using inv by (simp add: lazy_inv_def dying_apart_def)
  ultimately show ?thesis using inv by (simp add: lazy_inv_def)
qed

text \<open>The destructor gets the mutex: the entries of its object go before the object does.\<close>

lemma lazy_inv_destroy:
  assumes inv: "lazy_inv s" and t: "pc s t = Destroying a None" and free: "lazy_init_mutex s = None"
  shows "lazy_inv (s\<lparr>lz_world := run_destructor a (lz_world s), pc := (pc s)(t := Idle)\<rparr>)"
proof -
  let ?m = "memory (lz_world s)"
  let ?w = "run_destructor a (lz_world s)"
  let ?s = "s\<lparr>lz_world := ?w, pc := (pc s)(t := Idle)\<rparr>"
  obtain x c where x: "objs ?m a = Some x" "weak_this x = Some c" "owner ?m c = None"
    using lazy_invD(5) [OF inv, of t] t by (auto simp: dying_def)
  have w: "memory ?w = destroy a ?m" "registry ?w = registry (destructor a (payload x) (lz_world s))"
    using x(1) by (simp_all add: run_destructor_def at_ptr_def)
  have out: "\<not> in_lookup (pc s u)" for u using lazy_invD(1) [OF inv] free by (simp add: mutex_ok_def)
  have "mutex_ok ?s" using mutex_ok_move [OF lazy_invD(1) [OF inv], of Idle t] t by (simp add: mutex_ok_def)
  moreover have "lazy_ok (memory ?w) (registry ?w)"
    unfolding w by (rule destructor_lazy_ok [OF lazy_invD(2) [OF inv]]) (use x(1) in \<open>simp_all add: at_ptr_def\<close>)
  moreover have "owners_ok (memory ?w)"
  proof (rule owners_okI)
    fix d b
    assume "owner (memory ?w) d = Some b"
    then have d: "owner ?m d = Some b" by (simp add: w)
    obtain y where y: "objs ?m b = Some y" "weak_this y = Some d"
      and u: "\<forall>e z. e \<noteq> b \<longrightarrow> objs ?m e = Some z \<longrightarrow> weak_this z \<noteq> Some d"
      by (rule owners_okD [OF lazy_invD(3) [OF inv] d])
    with x d have "b \<noteq> a" by auto
    with y u show "(\<exists>y. objs (memory ?w) b = Some y \<and> weak_this y = Some d) \<and>
        (\<forall>e z. e \<noteq> b \<longrightarrow> objs (memory ?w) e = Some z \<longrightarrow> weak_this z \<noteq> Some d)" by (simp add: w)
  qed
  moreover have "counts_ok ?s = counts_ok s"
    by (rule counts_ok_cong) (simp_all add: held_def free w)
  moreover have "dying_apart ?s" using lazy_invD(4) [OF inv] by (simp add: dying_apart_def)
  moreover have "pc_ok ?w (pc ?s u)" for u
  proof (cases "u = t")
    case False
    have ok: "pc_ok (lz_world s) (pc s u)" using inv by (rule lazy_invD)
    show ?thesis
    proof (cases "pc s u")
      case (Destroying b k)
      with False t lazy_invD(4) [OF inv] have "b \<noteq> a" unfolding dying_apart_def by metis
      with Destroying ok False show ?thesis by (simp add: dying_def w)
    qed (use out [of u] False in simp_all)
  qed simp
  ultimately show ?thesis using inv by (simp add: lazy_inv_def)
qed

lemma lazy_step_inv: "lazy_step t s s' \<Longrightarrow> lazy_inv s \<Longrightarrow> lazy_inv s'"
proof (induction rule: lazy_step.induct)
  case (Create_node s t a c name)
  let ?w = "(lz_world s)\<lparr>memory := construct a (Node_obj name) (memory (lz_world s))\<rparr>"
  let ?x = "\<lparr>payload = Node_obj name, weak_this = None\<rparr>"
  have "lazy_ok (memory ?w) (registry ?w)"
    using lazy_invD(2) [OF Create_node(5)] Create_node(2) by (auto simp: lazy_ok_def at_ptr_def)
  then have "lazy_inv (s\<lparr>lz_world := ?w\<rparr>)"
    by (intro lazy_inv_construct [OF Create_node(5,2)]) simp_all
  then have "lazy_inv (s\<lparr>lz_world := ?w, lz_world := ?w\<lparr>memory := adopt c a (memory ?w)\<rparr>,
      use_count := (use_count s)(c := 1), users := (users s)(c := 1)\<rparr>)"
    using lazy_inv_own [of "s\<lparr>lz_world := ?w\<rparr>" a ?x c] Create_node(3,4) by (simp add: fresh_ctrl_def unused_def)
  then show ?case by (simp add: new_shared_def)
next
  case (Construct_client s t a x fq)
  show ?case
    by (rule lazy_inv_construct [OF Construct_client(4,3) _ lazy_ok_new_client(1) [OF lazy_invD(2) [OF Construct_client(4)]]])
      (simp_all add: Construct_client new_action_client_def)
next
  case (Construct_server s t a y fq)
  show ?case
    by (rule lazy_inv_construct [OF Construct_server(4,3) _ lazy_ok_new_client(2) [OF lazy_invD(2) [OF Construct_server(4)]]])
      (simp_all add: Construct_server new_action_server_def)
next
  case (Own s t a x c)
  then have "owner (memory (lz_world s)) c = None" by (simp add: fresh_ctrl_def unused_def)
  with Own show ?case by (intro lazy_inv_own)
next
  case (Copy s t c)
  then show ?case by (intro lazy_inv_copy)
next
  case (Drop s t c x)
  then show ?case by (intro lazy_inv_drop)
next
  case (Destroy s t a)
  then show ?case by (intro lazy_inv_destroy)
next
  case (Relock s t a k)
  show ?case by (rule lazy_inv_move [OF Relock(3)]) (simp_all add: Relock(1))
next
  case (Lookup s t kd)
  show ?case by (rule lazy_inv_move [OF Lookup(2)]) (simp_all add: Lookup(1))
next
  case (Lock s t kd)
  then show ?case by (intro lazy_inv_lock)
next
  case (Callback_throws s t kd i e w)
  then have e: "e = Bad_weak_ptr"
    using run_closure_outcome(2) [OF lazy_invD(2) nth_queue] by fastforce
  show ?case unfolding e by (rule lazy_inv_move) (use Callback_throws in simp_all)
next
  case (Callback_owned s t kd i w c)
  show ?case by (rule lazy_inv_callback_owned [OF Callback_owned(5,1,2,4)])
next
  case (Register s t kd i c)
  show ?case by (rule lazy_inv_register [OF Register(2,1)])
next
  case (Release_shared s t kd i c)
  then show ?case by (intro lazy_inv_release_shared)
next
  case (Release_last s t kd i c)
  then show ?case by (intro lazy_inv_release_last)
next
  case (Unlock s t kd i)
  show ?case by (rule lazy_inv_unlock [OF Unlock(3,1)])
qed

lemma lazy_reachable_inv: "lazy_reachable s \<Longrightarrow> lazy_inv s"
  by (induction rule: lazy_reachable.induct) (simp_all add: lazy_inv_start lazy_step_inv)

end
