(* ===== verification/Lazy_Thread_Runs.thy ===== *)
theory Lazy_Thread_Runs
  imports Lazy_Threads Sample_Worlds
begin

text \<open>
  What the threads of \<open>Lazy_Threads\<close> can do. A lookup that no other thread disturbs computes the
  sequential \<open>tryLazyInit\<close>; no lookup ever calls into a destroyed object; as long as no object loses
  its last owner while a lookup runs, every lookup returns the mutex; and when an object does, the
  lookup runs the destructor itself, which locks the mutex the thread already owns.
\<close>

section \<open>The queue and the callbacks commute\<close>

lemma run_closure_set_lazy_queue:
  "run_closure kd f (set_lazy_queue kd' es w) =
     (fst (run_closure kd f w), set_lazy_queue kd' es (snd (run_closure kd f w)))"
  by (cases kd; cases kd')
    (auto simp: action_client_post_init_setup_def action_server_post_init_setup_def registerActionClient_def
      registerActionServer_def print_cout_def upd_reg_def split: closure.split option.split obj.split sum.split)

lemma tryLazyInit_set_lazy_queue:
  "tryLazyInit (run_closure kd) es (set_lazy_queue kd' qs w) =
     (case tryLazyInit (run_closure kd) es w of (r, kept, w1) \<Rightarrow> (r, kept, set_lazy_queue kd' qs w1))"
  by (induction es arbitrary: w)
    (auto simp: run_closure_set_lazy_queue split_beta split: sum.split prod.split)

lemma set_lazy_queue_twice [simp]: "set_lazy_queue kd es (set_lazy_queue kd es' w) = set_lazy_queue kd es w"
  by (cases kd) (simp_all add: upd_reg_def)

lemma set_lazy_queue_same [simp]: "set_lazy_queue kd (lazy_queue kd (registry w)) w = w"
  by (cases kd) (simp_all add: upd_reg_def)

section \<open>One thread alone\<close>

lemma solo_step: "lazy_step t s s1 \<Longrightarrow> (lazy_step t)\<^sup>*\<^sup>* s1 s2 \<Longrightarrow> (lazy_step t)\<^sup>*\<^sup>* s s2"
  by (rule converse_rtranclp_into_rtranclp)

lemma solo_owned:
  assumes inv: "lazy_inv s" and t: "pc s t = Iterating kd i" and i: "i < length (queue_of kd s)"
    and run: "run_closure kd (init_callback (queue_of kd s ! i)) (lz_world s) = (Inr (), w)"
  shows "(lazy_step t)\<^sup>*\<^sup>* s (s\<lparr>lz_world := erase_entry kd i w\<rparr>)"
proof -
  let ?e = "queue_of kd s ! i"
  have outcome: "callback_this ?e = raw_ptr ?e" "\<exists>c. shared_from_this (memory (lz_world s)) (raw_ptr ?e) = Inr c"
    using run_closure_outcome [OF lazy_invD(2) [OF inv] nth_queue [OF i]] run by auto
  then obtain c where c: "shared_from_this (memory (lz_world s)) (callback_this ?e) = Inr c" by auto
  let ?s1 = "s\<lparr>use_count := (use_count s)(c := use_count s c + 1), pc := (pc s)(t := Holding kd i c)\<rparr>"
  let ?s2 = "?s1\<lparr>lz_world := w, pc := (pc s)(t := Releasing kd i c)\<rparr>"
  have step1: "lazy_step t s ?s1" by (rule Callback_owned [OF t i run c])
  have step2: "lazy_step t ?s1 ?s2" using Register [of ?s1 t kd i c] run by simp
  have "0 < use_count s c"
    using lazy_inv_counts(2) [OF inv, of c] c by (auto simp: shared_from_this_Inr)
  then have "use_count ?s2 c \<noteq> 1" by simp
  then have step3: "lazy_step t ?s2 (drop_owner t c (Some (kd, i)) (Iterating kd i)
      (?s2\<lparr>lz_world := erase_entry kd i (lz_world ?s2)\<rparr>))"
    by (intro Release_shared) simp_all
  have "drop_owner t c (Some (kd, i)) (Iterating kd i) (?s2\<lparr>lz_world := erase_entry kd i (lz_world ?s2)\<rparr>) =
      s\<lparr>lz_world := erase_entry kd i w\<rparr>"
    using \<open>0 < use_count s c\<close> t by (simp add: drop_owner_def fun_upd_idem)
  with step1 step2 step3 show ?thesis
    by (metis (no_types, lifting) converse_rtranclp_into_rtranclp rtranclp.rtrancl_refl)
qed

lemma solo_loop:
  assumes "lazy_inv s" and "pc s t = Iterating kd i" and "i \<le> length (queue_of kd s)"
    and "tryLazyInit (run_closure kd) (drop i (queue_of kd s)) (lz_world s) = (r, kept, w1)"
  shows "r = Inr () \<and> (lazy_step t)\<^sup>*\<^sup>* s (s\<lparr>lz_world := set_lazy_queue kd (take i (queue_of kd s) @ kept) w1,
    lazy_init_mutex := None, pc := (pc s)(t := Idle)\<rparr>)"
  using assms
proof (induction "drop i (queue_of kd s)" arbitrary: s i kept w1)
  case Nil
  then have i: "i = length (queue_of kd s)" and "r = Inr ()" "kept = []" "w1 = lz_world s" by auto
  moreover have "set_lazy_queue kd (take i (queue_of kd s) @ []) (lz_world s) = lz_world s" using i by simp
  moreover have "(lazy_step t)\<^sup>*\<^sup>* s (s\<lparr>lz_world := lz_world s, lazy_init_mutex := None, pc := (pc s)(t := Idle)\<rparr>)"
    by (rule r_into_rtranclp) (simp add: Unlock [OF Nil(3) i])
  ultimately show ?case by (simp only: simp_thms)
next
  case (Cons e es)
  let ?q = "queue_of kd s"
  have i: "i < length ?q" and e: "e = ?q ! i" and es: "drop (Suc i) ?q = es"
    using Cons(2) by (metis drop_eq_Nil linorder_not_le list.distinct(1), metis hd_drop_conv_nth drop_eq_Nil linorder_not_le list.distinct(1) list.sel(1), metis drop_Suc drop_tl list.sel(3))
  have drops: "drop i ?q = e # es" using Cons(2) by simp
  have takes: "take (Suc i) ?q = take i ?q @ [e]" using i e by (simp add: take_Suc_conv_app_nth)
  show ?case
  proof (cases "run_closure kd (init_callback e) (lz_world s)")
    case (Pair x w)
    show ?thesis
    proof (cases x)
      case (Inl y)
      then have y: "y = Bad_weak_ptr" "w = lz_world s"
        using run_closure_outcome(2) [OF lazy_invD(2) [OF Cons(3)] nth_queue [OF i]] Pair e by auto
      let ?s = "s\<lparr>pc := (pc s)(t := Iterating kd (Suc i))\<rparr>"
      have step: "lazy_step t s ?s"
        using Callback_throws [OF Cons(4) i] Pair Inl y e by auto
      obtain kept' where kept': "tryLazyInit (run_closure kd) es (lz_world s) = (r, kept', w1)" "kept = e # kept'"
        using Cons(6) Pair Inl y by (auto simp: drops split: prod.splits)
      have "r = Inr () \<and> (lazy_step t)\<^sup>*\<^sup>* ?s (?s\<lparr>lz_world := set_lazy_queue kd (take (Suc i) ?q @ kept') w1,
          lazy_init_mutex := None, pc := (pc ?s)(t := Idle)\<rparr>)"
        using Cons(1) [of "Suc i" ?s kept' w1] lazy_step_inv [OF step Cons(3)] i kept'(1) by (simp add: es)
      then show ?thesis
        using solo_step [OF step] kept'(2) by (simp add: takes)
    next
      case (Inr u)
      have run: "run_closure kd (init_callback (?q ! i)) (lz_world s) = (Inr (), w)" using Pair Inr e by simp
      let ?s = "s\<lparr>lz_world := erase_entry kd i w\<rparr>"
      have steps: "(lazy_step t)\<^sup>*\<^sup>* s ?s" by (rule solo_owned [OF Cons(3,4) i run])
      have inv: "lazy_inv ?s"
        using steps Cons(3) by (induction rule: rtranclp_induct) (auto simp: lazy_step_inv)
      have qw: "lazy_queue kd (registry w) = ?q"
        using run_closure_outcome(2) [OF lazy_invD(2) [OF Cons(3)] nth_queue [OF i]] run by auto
      have q: "queue_of kd ?s = take i ?q @ es" using i by (simp add: erase_entry_def qw es)
      have "tryLazyInit (run_closure kd) es w = (r, kept, w1)" using Cons(6) Pair Inr by (simp add: drops)
      then have "tryLazyInit (run_closure kd) (drop i (queue_of kd ?s)) (lz_world ?s) =
          (r, kept, set_lazy_queue kd (take i ?q @ es) w1)"
        using i by (simp add: q erase_entry_def qw es tryLazyInit_set_lazy_queue)
      moreover have "drop i (queue_of kd ?s) = es" "i \<le> length (queue_of kd ?s)" "take i (queue_of kd ?s) = take i ?q"
        unfolding q using i by simp_all
      ultimately show ?thesis
        using Cons(1) [of i ?s kept] inv Cons(4) rtranclp_trans [OF steps] by simp
    qed
  qed
qed

lemma solo_inv: "(lazy_step t)\<^sup>*\<^sup>* s s' \<Longrightarrow> lazy_inv s \<Longrightarrow> lazy_inv s'"
  by (induction rule: rtranclp_induct) (auto simp: lazy_step_inv)

section \<open>Runs of all threads\<close>

lemma lazy_step_other: "lazy_step t s s' \<Longrightarrow> u \<noteq> t \<Longrightarrow> pc s' u = pc s u"
  by (induction rule: lazy_step.induct) (auto simp: drop_owner_def Let_def split: option.split)

lemma lazy_step_not_failed: "lazy_step t s s' \<Longrightarrow> pc s t \<noteq> Failed e"
  by (induction rule: lazy_step.induct) auto

definition any_step :: "'m lazy_state \<Rightarrow> 'm lazy_state \<Rightarrow> bool" where
  "any_step s s' \<longleftrightarrow> (\<exists>t. lazy_step t s s')"

lemma failed_stays:
  assumes "any_step\<^sup>*\<^sup>* s s'" and "lazy_inv s" and "pc s t = Failed e"
  shows "lazy_inv s' \<and> pc s' t = Failed e"
  using assms
proof (induction rule: rtranclp_induct)
  case (step s1 s2)
  then obtain u where u: "lazy_step u s1 s2" by (auto simp: any_step_def)
  with step have "u \<noteq> t" using lazy_step_not_failed by metis
  with step u show ?case using lazy_step_other lazy_step_inv by metis
qed simp

section \<open>Runs in which no object loses its last owner during a lookup\<close>

inductive calm_reachable :: "'m lazy_state \<Rightarrow> bool" where
  start: "calm_reachable (lazy_start init_world)"
| move: "calm_reachable s \<Longrightarrow> lazy_step t s s' \<Longrightarrow>
    lazy_init_mutex s \<noteq> None \<longrightarrow> (\<forall>c. 0 < users s c \<longrightarrow> 0 < users s' c) \<Longrightarrow> calm_reachable s'"

fun calm_pc :: "(ctrl \<Rightarrow> nat) \<Rightarrow> lazy_pc \<Rightarrow> bool" where
  "calm_pc f (Holding kd i c) \<longleftrightarrow> 0 < f c"
| "calm_pc f (Releasing kd i c) \<longleftrightarrow> 0 < f c"
| "calm_pc f (Destroying a k) \<longleftrightarrow> k = None"
| "calm_pc f (Failed e) \<longleftrightarrow> False"
| "calm_pc f _ \<longleftrightarrow> True"

lemma calm_pc_mono: "calm_pc f p \<Longrightarrow> (\<And>c. 0 < f c \<Longrightarrow> 0 < g c) \<Longrightarrow> calm_pc g p"
  by (cases p) auto

lemma calm_outside: "\<not> in_lookup p \<Longrightarrow> calm_pc f p"
  by (cases p) (auto simp del: not_None_eq)

lemma calm_step:
  assumes "lazy_step t s s'" and "lazy_inv s" and "calm_pc (users s) (pc s t)"
  shows "calm_pc (users s') (pc s' t) \<or> (\<exists>c. 0 < users s c \<and> users s' c = 0)"
  using assms
proof (induction rule: lazy_step.induct)
  case (Callback_throws s t kd i e w)
  then have "e = Bad_weak_ptr"
    using run_closure_outcome(2) [OF lazy_invD(2) nth_queue] by fastforce
  then show ?case by simp
next
  case (Callback_owned s t kd i w c)
  have "0 < use_count s c"
    using lazy_inv_counts(2) [OF Callback_owned(5), of c] Callback_owned(4) by (auto simp: shared_from_this_Inr)
  moreover have "held s c = 0"
    using held_owner [OF lazy_invD(1) [OF Callback_owned(5)], of t c] Callback_owned(1) by simp
  ultimately show ?case using lazy_inv_counts(1) [OF Callback_owned(5), of c] by simp
next
  case (Release_last s t kd i c)
  then show ?case using lazy_inv_release_last(2) [OF Release_last(3,1,2)] by simp
qed (auto simp: drop_owner_def Let_def split: option.split)

lemma calm_reachable_inv: "calm_reachable s \<Longrightarrow> lazy_inv s \<and> (\<forall>t. calm_pc (users s) (pc s t))"
proof (induction rule: calm_reachable.induct)
  case start
  show ?case by (simp add: lazy_inv_start) (simp add: lazy_start_def)
next
  case (move s t s')
  then have inv: "lazy_inv s" "lazy_inv s'" by (auto simp: lazy_step_inv)
  have "calm_pc (users s') (pc s' u)" for u
  proof (cases "lazy_init_mutex s = None")
    case True
    show ?thesis
    proof (cases "u = t")
      case False
      have "\<not> in_lookup (pc s u)" using True lazy_invD(1) [OF inv(1)] by (simp add: mutex_ok_def)
      with False show ?thesis using calm_outside lazy_step_other [OF move(2)] by metis
    next
      case True': True
      have "\<not> in_lookup (pc s t)" using True lazy_invD(1) [OF inv(1)] by (simp add: mutex_ok_def)
      with move(2) have "calm_pc (users s') (pc s' t)"
        by (induction rule: lazy_step.induct) (auto simp: drop_owner_def Let_def split: option.split)
      with True' show ?thesis by simp
    qed
  next
    case False
    with move have mono: "0 < users s c \<Longrightarrow> 0 < users s' c" for c by simp
    show ?thesis
    proof (cases "u = t")
      case True
      with calm_step [OF move(2) inv(1)] move mono show ?thesis by (metis less_numeral_extra(3))
    next
      case False
      with move have "calm_pc (users s) (pc s' u)" using lazy_step_other [OF move(2)] by metis
      then show ?thesis using mono by (rule calm_pc_mono)
    qed
  qed
  with inv show ?case by simp
qed

text \<open>From any point of the loop the thread alone reaches the end.\<close>

lemma solo_releases:
  assumes inv: "lazy_inv s" and calm: "calm_pc (users s) (pc s t)" and t: "in_lookup (pc s t)"
  shows "\<exists>s'. (lazy_step t)\<^sup>*\<^sup>* s s' \<and> lazy_init_mutex s' = None \<and> pc s' t = Idle \<and> users s' = users s"
proof -
  have iter: "\<exists>s'. (lazy_step t)\<^sup>*\<^sup>* v s' \<and> lazy_init_mutex s' = None \<and> pc s' t = Idle \<and> users s' = users v"
    if "lazy_inv v" and v: "pc v t = Iterating kd i" for v kd i
  proof -
    obtain r kept w where "tryLazyInit (run_closure kd) (drop i (queue_of kd v)) (lz_world v) = (r, kept, w)"
      by (cases "tryLazyInit (run_closure kd) (drop i (queue_of kd v)) (lz_world v)") auto
    moreover have "i \<le> length (queue_of kd v)" using lazy_invD(5) [OF that(1), of t] v by simp
    ultimately show ?thesis using solo_loop [OF that] by fastforce
  qed
  have rel: "\<exists>s'. (lazy_step t)\<^sup>*\<^sup>* v s' \<and> lazy_init_mutex s' = None \<and> pc s' t = Idle \<and> users s' = users v"
    if ok: "lazy_inv v" and v: "pc v t = Releasing kd i c" and c: "0 < users v c" for v kd i c
  proof -
    have "use_count v c \<noteq> 1"
      using lazy_inv_counts(1) [OF ok, of c] held_owner [OF lazy_invD(1) [OF ok], of t c] v c by simp
    define v1 where "v1 = v\<lparr>lz_world := erase_entry kd i (lz_world v),
      use_count := (use_count v)(c := use_count v c - 1), pc := (pc v)(t := Iterating kd i)\<rparr>"
    have eq: "drop_owner t c (Some (kd, i)) (Iterating kd i) (v\<lparr>lz_world := erase_entry kd i (lz_world v)\<rparr>) = v1"
      using \<open>use_count v c \<noteq> 1\<close> by (simp add: drop_owner_def v1_def)
    have step: "lazy_step t v v1" using Release_shared [OF v \<open>use_count v c \<noteq> 1\<close>] unfolding eq .
    have "pc v1 t = Iterating kd i" "users v1 = users v" by (simp_all add: v1_def)
    with iter [OF lazy_step_inv [OF step ok], of kd i] show ?thesis
      using solo_step [OF step] by auto
  qed
  show ?thesis
  proof (cases "pc s t")
    case (Holding kd i c)
    define s1 where "s1 = s\<lparr>lz_world := snd (run_closure kd (init_callback (queue_of kd s ! i)) (lz_world s)),
      pc := (pc s)(t := Releasing kd i c)\<rparr>"
    have step: "lazy_step t s s1" using Register [OF Holding] unfolding s1_def .
    have "pc s1 t = Releasing kd i c" "users s1 = users s" by (simp_all add: s1_def)
    with rel [OF lazy_step_inv [OF step inv], of kd i c] calm Holding show ?thesis
      using solo_step [OF step] by auto
  qed (use t calm iter [OF inv] rel [OF inv] in auto)
qed

section \<open>A run\<close>

text \<open>
  A node and an action client that one \<open>shared_ptr\<close> owns; thread 0 looks for the client and is inside
  the callback when thread 1 gives the last owner up.
\<close>

definition owned_state :: "nat lazy_state" where
  "owned_state = \<lparr>lz_world = fib_world\<lparr>memory := adopt 4 40 (memory fib_world)\<rparr>, lazy_init_mutex = None,
     use_count = (\<lambda>_. 0)(1 := 1, 4 := 1), users = (\<lambda>_. 0)(1 := 1, 4 := 1), pc = (\<lambda>_. Idle)\<rparr>"

definition waiting_state :: "nat lazy_state" where
  "waiting_state = owned_state\<lparr>pc := (pc owned_state)(0 := Lookup_wait Lazy_clients)\<rparr>"

definition holding_state :: "nat lazy_state" where
  "holding_state = owned_state\<lparr>lazy_init_mutex := Some 0, use_count := (use_count owned_state)(4 := 2),
     pc := (pc owned_state)(0 := Holding Lazy_clients 0 4)\<rparr>"

definition abandoned_state :: "nat lazy_state" where
  "abandoned_state = holding_state\<lparr>use_count := (use_count holding_state)(4 := 1),
     users := (users holding_state)(4 := 0)\<rparr>"

lemma calm_owned: "calm_reachable owned_state"
proof -
  let ?s0 = "lazy_start init_world :: nat lazy_state"
  let ?s1 = "?s0\<lparr>lz_world := node_world, use_count := (\<lambda>_. 0)(1 := 1), users := (\<lambda>_. 0)(1 := 1)\<rparr>"
  let ?s2 = "?s1\<lparr>lz_world := fib_world\<rparr>"
  have fresh: "fresh_ctrl 1 (init_world :: nat world)"
    by (rule fresh_empty) (simp_all add: init_world_def empty_mem_def at_ptr_def)
  have "lazy_step 0 ?s0 ?s1"
    using Create_node [of ?s0 0 10 1 "Some ''/talker''"] fresh
    by (simp add: lazy_start_def node_world_def init_world_def empty_mem_def)
  then have "calm_reachable ?s1"
    by (rule calm_reachable.move [OF calm_reachable.start]) (simp add: lazy_start_def)
  moreover have "objs (memory (node_world :: nat world)) 40 = None" by code_simp
  then have "lazy_step 0 ?s1 ?s2"
    using Construct_client [of ?s1 0 40 fib_client "''/talker''"] by (simp add: lazy_start_def fib_world_def)
  ultimately have s2: "calm_reachable ?s2" by (rule calm_reachable.move) (simp add: lazy_start_def)
  have objs: "objs (memory fib_world) = (objs (memory node_world))(40 \<mapsto> \<lparr>payload = Action_client_obj fib_client, weak_this = None\<rparr>)"
    by (simp add: fib_world_def new_action_client_def)
  have "\<forall>b y. objs (memory fib_world) b = Some y \<longrightarrow> weak_this y \<noteq> Some 4"
    unfolding objs by (auto simp: node_world_def init_world_def empty_mem_def split: if_splits)
  then have "lazy_step 0 ?s2 (?s2\<lparr>lz_world := fib_world\<lparr>memory := adopt 4 40 (memory fib_world)\<rparr>,
      use_count := (use_count ?s2)(4 := 1), users := (users ?s2)(4 := 1)\<rparr>)"
    using Own [of ?s2 0 40 "\<lparr>payload = Action_client_obj fib_client, weak_this = None\<rparr>" 4]
      objs fresh_fib_world [of 4] by (simp add: lazy_start_def)
  then have "calm_reachable (?s2\<lparr>lz_world := fib_world\<lparr>memory := adopt 4 40 (memory fib_world)\<rparr>,
      use_count := (use_count ?s2)(4 := 1), users := (users ?s2)(4 := 1)\<rparr>)"
    by (rule calm_reachable.move [OF s2]) (simp add: lazy_start_def)
  then show ?thesis by (simp add: owned_state_def lazy_start_def)
qed

lemma calm_waiting: "calm_reachable waiting_state"
proof (rule calm_reachable.move [OF calm_owned])
  show "lazy_step 0 owned_state waiting_state"
    unfolding waiting_state_def by (rule Lookup) (simp add: owned_state_def)
qed (simp add: owned_state_def)

lemma callback_in_run:
  assumes "lz_world s = lz_world owned_state"
  shows "queue_of Lazy_clients s = [\<lparr>raw_ptr = 40, node_name = ''/talker'', action_name = ''fib'', init_callback = Post_init_setup 40\<rparr>]"
    and "fst (run_closure Lazy_clients (Post_init_setup 40) (lz_world s)) = Inr ()"
    and "shared_from_this (memory (lz_world s)) 40 = Inr 4"
proof -
  show "queue_of Lazy_clients s = [\<lparr>raw_ptr = 40, node_name = ''/talker'', action_name = ''fib'', init_callback = Post_init_setup 40\<rparr>]"
    unfolding assms by code_simp
  show "fst (run_closure Lazy_clients (Post_init_setup 40) (lz_world s)) = Inr ()" unfolding assms by code_simp
  show "shared_from_this (memory (lz_world s)) 40 = Inr 4" unfolding assms by code_simp
qed

lemma calm_holding: "calm_reachable holding_state"
proof -
  let ?s1 = "waiting_state\<lparr>lazy_init_mutex := Some 0, pc := (pc waiting_state)(0 := Iterating Lazy_clients 0)\<rparr>"
  have "lazy_step 0 waiting_state ?s1" by (rule Lock) (simp_all add: waiting_state_def owned_state_def)
  then have s1: "calm_reachable ?s1"
    by (rule calm_reachable.move [OF calm_waiting]) (simp add: waiting_state_def owned_state_def)
  have w: "lz_world ?s1 = lz_world owned_state" by (simp add: waiting_state_def)
  have "run_closure Lazy_clients (Post_init_setup 40) (lz_world ?s1) =
      (Inr (), snd (run_closure Lazy_clients (Post_init_setup 40) (lz_world ?s1)))"
    using callback_in_run(2) [OF w] by (metis prod.collapse)
  then have "lazy_step 0 ?s1 (?s1\<lparr>use_count := (use_count ?s1)(4 := use_count ?s1 4 + 1), pc := (pc ?s1)(0 := Holding Lazy_clients 0 4)\<rparr>)"
    by (intro Callback_owned) (simp_all only: callback_in_run(1) [OF w], simp_all add: callback_this_def w callback_in_run(3))
  then have "calm_reachable (?s1\<lparr>use_count := (use_count ?s1)(4 := use_count ?s1 4 + 1), pc := (pc ?s1)(0 := Holding Lazy_clients 0 4)\<rparr>)"
    by (rule calm_reachable.move [OF s1]) simp
  moreover have "?s1\<lparr>use_count := (use_count ?s1)(4 := use_count ?s1 4 + 1), pc := (pc ?s1)(0 := Holding Lazy_clients 0 4)\<rparr> = holding_state"
    by (simp add: holding_state_def waiting_state_def owned_state_def numeral_2_eq_2)
  ultimately show ?thesis by simp
qed

lemma calm_is_reachable: "calm_reachable s \<Longrightarrow> lazy_reachable s"
  by (induction rule: calm_reachable.induct) (auto intro: lazy_reachable.intros)

lemma reachable_abandoned: "lazy_reachable abandoned_state"
proof (rule lazy_reachable.move [OF calm_is_reachable [OF calm_holding]])
  have obj: "locked_obj (memory (lz_world holding_state)) (Some 4) = Some (Action_client_obj fib_client)"
    by (simp add: holding_state_def owned_state_def fib_world_def new_action_client_def adopt_def locked_obj_def
        locked_ptr_def lock_def at_ptr_def)
  have eq: "drop_owner 1 4 None Idle (holding_state\<lparr>users := (users holding_state)(4 := users holding_state 4 - 1)\<rparr>) = abandoned_state"
    by (simp add: drop_owner_def abandoned_state_def holding_state_def owned_state_def fun_upd_idem)
  have "lazy_step 1 holding_state (drop_owner 1 4 None Idle (holding_state\<lparr>users := (users holding_state)(4 := users holding_state 4 - 1)\<rparr>))"
    by (rule Drop [OF _ _ obj]) (simp_all add: holding_state_def owned_state_def)
  then show "lazy_step 1 holding_state abandoned_state" unfolding eq .
qed

section \<open>What holds of the threads\<close>

text \<open>C23: However the threads are scheduled, at most one is inside the critical section of a lookup,
  every queued callback refers to an action client or server that still exists, the object whose
  callback runs is owned, and the only way a lookup fails is that its thread locks the mutex again.\<close>

theorem lookup_threads_safe:
  assumes "lazy_reachable s"
  shows "(in_lookup (pc s t) \<longrightarrow> in_lookup (pc s u) \<longrightarrow> t = u) \<and>
    (e \<in> set (queue_of kd s) \<longrightarrow> (\<exists>x. at_ptr (memory (lz_world s)) (raw_ptr e) = Some x \<and> is_lazy_obj x)) \<and>
    (pc s t = Holding kd i c \<longrightarrow> i < length (queue_of kd s) \<and>
       owner (memory (lz_world s)) c = Some (raw_ptr (queue_of kd s ! i))) \<and>
    (pc s t = Failed x \<longrightarrow> x = Undefined Mutex_relocked)"
proof -
  note inv = lazy_reachable_inv [OF assms]
  have "\<exists>x. at_ptr (memory (lz_world s)) (raw_ptr e) = Some x \<and> is_lazy_obj x" if "e \<in> set (queue_of kd s)"
    using lazy_invD(2) [OF inv] that by (cases kd) (auto simp: lazy_ok_def)
  then show ?thesis
    using alone_in_lookup [OF lazy_invD(1) [OF inv], of t u] lazy_invD(5) [OF inv, of t] by auto
qed

theorem lookup_threads_safe_witness:
  "owner (memory (lz_world holding_state)) 4 = Some (raw_ptr (queue_of Lazy_clients holding_state ! 0))"
  using lookup_threads_safe [OF calm_is_reachable [OF calm_holding], of 0 0 _ Lazy_clients 0 4]
  by (simp add: holding_state_def)

text \<open>C24: A lookup that gets the mutex and is not interleaved with other threads ends with the mutex free
  and has done exactly what the sequential \<open>tryLazyInit\<close> does: the same entries left in the queue and
  the same registrations, and no exception.\<close>

theorem undisturbed_lookup:
  assumes "lazy_reachable s" and "pc s t = Lookup_wait kd" and "lazy_init_mutex s = None"
    and "tryLazyInit (run_closure kd) (queue_of kd s) (lz_world s) = (r, kept, w)"
  shows "r = Inr () \<and>
    (lazy_step t)\<^sup>*\<^sup>* s (s\<lparr>lz_world := set_lazy_queue kd kept w, pc := (pc s)(t := Idle)\<rparr>)"
proof -
  let ?s = "s\<lparr>lazy_init_mutex := Some t, pc := (pc s)(t := Iterating kd 0)\<rparr>"
  have step: "lazy_step t s ?s" using assms(2,3) by (rule Lock)
  have "lazy_inv ?s" using lazy_step_inv [OF step lazy_reachable_inv [OF assms(1)]] .
  from solo_loop [OF this, of t kd 0 r kept w] assms(4)
  have "r = Inr ()" and "(lazy_step t)\<^sup>*\<^sup>* ?s (?s\<lparr>lz_world := set_lazy_queue kd kept w,
      lazy_init_mutex := None, pc := (pc ?s)(t := Idle)\<rparr>)" by simp_all
  moreover have "?s\<lparr>lz_world := set_lazy_queue kd kept w, lazy_init_mutex := None, pc := (pc ?s)(t := Idle)\<rparr> =
      s\<lparr>lz_world := set_lazy_queue kd kept w, pc := (pc s)(t := Idle)\<rparr>"
    using assms(3) by simp
  ultimately show ?thesis using solo_step [OF step] by simp
qed

theorem undisturbed_lookup_witness:
  "\<exists>kept w. tryLazyInit (run_closure Lazy_clients) (queue_of Lazy_clients waiting_state) (lz_world waiting_state) = (Inr (), kept, w) \<and>
    (lazy_step 0)\<^sup>*\<^sup>* waiting_state (waiting_state\<lparr>lz_world := set_lazy_queue Lazy_clients kept w, pc := (pc waiting_state)(0 := Idle)\<rparr>)"
proof -
  obtain r kept w where run: "tryLazyInit (run_closure Lazy_clients) (queue_of Lazy_clients waiting_state) (lz_world waiting_state) = (r, kept, w)"
    by (cases "tryLazyInit (run_closure Lazy_clients) (queue_of Lazy_clients waiting_state) (lz_world waiting_state)") auto
  from undisturbed_lookup [OF calm_is_reachable [OF calm_waiting] _ _ run, of 0] run show ?thesis
    by (simp add: waiting_state_def owned_state_def)
qed

text \<open>C26: As long as no object loses its last owner while a lookup runs, no lookup fails, and the thread
  that holds the mutex can always, by its own steps alone, finish its lookup and free the mutex.\<close>

theorem calm_lookup_returns:
  assumes "calm_reachable s"
  shows "pc s t \<noteq> Failed e \<and> (lazy_init_mutex s = Some t \<longrightarrow>
    (\<exists>s'. (lazy_step t)\<^sup>*\<^sup>* s s' \<and> lazy_init_mutex s' = None \<and> pc s' t = Idle \<and> users s' = users s))"
proof -
  have inv: "lazy_inv s" "calm_pc (users s) (pc s t)" using calm_reachable_inv [OF assms] by simp_all
  have "in_lookup (pc s t)" if "lazy_init_mutex s = Some t"
    using that lazy_invD(1) [OF inv(1)] by (simp add: mutex_ok_def)
  with solo_releases [OF inv] inv(2) show ?thesis by auto
qed

theorem calm_lookup_returns_witness:
  "\<exists>s'. (lazy_step 0)\<^sup>*\<^sup>* holding_state s' \<and> lazy_init_mutex s' = None \<and> pc s' 0 = Idle"
  using calm_lookup_returns [OF calm_holding, of 0] by (auto simp: holding_state_def)

text \<open>C25: When the last owner outside is given up while a lookup is inside the callback of the object,
  the lookup becomes the last owner: its own steps lead into the destructor, which locks the mutex the
  thread holds. From then on, whatever the other threads do, the mutex is never free again.\<close>

theorem last_owner_lost_in_lookup:
  assumes "lazy_reachable s" and "pc s t = Holding kd i c" and "users s c = 0"
  shows "\<exists>s1. (lazy_step t)\<^sup>*\<^sup>* s s1 \<and> pc s1 t = Failed (Undefined Mutex_relocked) \<and>
    (\<forall>s2. any_step\<^sup>*\<^sup>* s1 s2 \<longrightarrow> lazy_init_mutex s2 = Some t)"
proof -
  note inv = lazy_reachable_inv [OF assms(1)]
  define s1 where "s1 = s\<lparr>lz_world := snd (run_closure kd (init_callback (queue_of kd s ! i)) (lz_world s)),
      pc := (pc s)(t := Releasing kd i c)\<rparr>"
  have step1: "lazy_step t s s1" unfolding s1_def by (rule Register [OF assms(2)])
  note inv1 = lazy_step_inv [OF step1 inv]
  have s1: "pc s1 t = Releasing kd i c" "users s1 = users s" by (simp_all add: s1_def)
  then have last: "use_count s1 c = 1"
    using lazy_inv_counts(1) [OF inv1, of c] held_owner [OF lazy_invD(1) [OF inv1], of t c] assms(3) by simp
  define s2 where "s2 = drop_owner t c (Some (kd, i)) (Iterating kd i) s1"
  have step2: "lazy_step t s1 s2" unfolding s2_def by (rule Release_last [OF s1(1) last])
  note inv2 = lazy_step_inv [OF step2 inv1]
  obtain a where a: "pc s2 t = Destroying a (Some (kd, i))"
    using lazy_inv_release_last(3) [OF inv1 s1(1) last] by (auto simp: s2_def)
  then have "lazy_init_mutex s2 = Some t" using lazy_invD(1) [OF inv2] unfolding mutex_ok_def by (metis in_lookup.simps(4) option.distinct(1))
  define s3 where "s3 = s2\<lparr>pc := (pc s2)(t := Failed (Undefined Mutex_relocked))\<rparr>"
  have step3: "lazy_step t s2 s3"
    unfolding s3_def using a \<open>lazy_init_mutex s2 = Some t\<close> by (rule Relock)
  note inv3 = lazy_step_inv [OF step3 inv2]
  have failed: "pc s3 t = Failed (Undefined Mutex_relocked)" by (simp add: s3_def)
  have "lazy_init_mutex s4 = Some t" if "any_step\<^sup>*\<^sup>* s3 s4" for s4
    using failed_stays [OF that inv3 failed] lazy_invD(1) [of s4] unfolding mutex_ok_def by (metis in_lookup.simps(5))
  moreover have "(lazy_step t)\<^sup>*\<^sup>* s s3"
    by (rule solo_step [OF step1 solo_step [OF step2 solo_step [OF step3 rtranclp.rtrancl_refl]]])
  ultimately show ?thesis using failed by blast
qed

theorem last_owner_lost_in_lookup_witness:
  "\<exists>s1. (lazy_step 0)\<^sup>*\<^sup>* abandoned_state s1 \<and> pc s1 0 = Failed (Undefined Mutex_relocked)"
  using last_owner_lost_in_lookup [OF reachable_abandoned, of 0 Lazy_clients 0 4]
  by (auto simp: abandoned_state_def holding_state_def)

end
