(* ===== verification/Ieee_Float.thy ===== *)
theory Ieee_Float
  imports Rtest_Prelude Complex_Main
begin

text \<open>
  IEEE 754 arithmetic as the C++ code uses it: finite values as real numbers, infinities and NaN,
  and operations that round the exact result to nearest, ties to even. \<open>float\<close> is binary32 and
  \<open>double\<close> binary64. Expressions are evaluated in the type the source gives them, without excess
  precision or fused operations. The sign of a zero is not kept: nothing here reads it.

  Every definition computes on concrete values, the square root included: it rounds by comparing
  squares. The lemmas bound the distance of every result from the exact one.
\<close>

section \<open>Rounding\<close>

text \<open>The number of binary digits, and the integer square root.\<close>

function int_bits :: "int \<Rightarrow> int" where
  "int_bits n = (if n \<le> 0 then 0 else 1 + int_bits (n div 2))"
  by auto
termination by (relation "measure nat") auto

function isqrt :: "int \<Rightarrow> int" where
  "isqrt n = (if n \<le> 0 then 0
     else let r = 2 * isqrt (n div 4) in if (r + 1) * (r + 1) \<le> n then r + 1 else r)"
  by auto
termination by (relation "measure nat") auto

declare int_bits.simps [simp del] isqrt.simps [simp del]

text \<open>The exponent of the leading binary digit of \<open>x \<noteq> 0\<close>.\<close>

definition expo :: "real \<Rightarrow> int" where
  "expo x = (if 1 \<le> \<bar>x\<bar> then int_bits \<lfloor>\<bar>x\<bar>\<rfloor> - 1 else - int_bits (\<lceil>1 / \<bar>x\<bar>\<rceil> - 1))"

definition round_even_int :: "real \<Rightarrow> int" where
  "round_even_int x = (let f = \<lfloor>x\<rfloor>; d = x - of_int f
     in if 1 / 2 < d \<or> (d = 1 / 2 \<and> odd f) then f + 1 else f)"

datatype fp = Finite real | Infinity bool | NaN

text \<open>Precision, exponent of the least positive value, and the power of two that overflows.\<close>

record format =
  precision :: int
  least :: int
  overflow :: int

definition binary32 :: format where
  "binary32 = \<lparr>precision = 24, least = - 149, overflow = 128\<rparr>"

definition binary64 :: format where
  "binary64 = \<lparr>precision = 53, least = - 1074, overflow = 1024\<rparr>"

text \<open>The exponent of the last digit kept.\<close>

definition unit_expo :: "format \<Rightarrow> int \<Rightarrow> int" where
  "unit_expo f e = max (e + 1 - precision f) (least f)"

definition rnd :: "format \<Rightarrow> real \<Rightarrow> fp" where
  "rnd f x = (if x = 0 then Finite 0
     else let u = 2 powi unit_expo f (expo x); y = of_int (round_even_int (x / u)) * u
       in if 2 powi overflow f \<le> \<bar>y\<bar> then Infinity (x < 0) else Finite y)"

section \<open>Operations\<close>

fun fp_convert :: "format \<Rightarrow> fp \<Rightarrow> fp" where
  "fp_convert f (Finite x) = rnd f x"
| "fp_convert f x = x"

fun fp_add :: "format \<Rightarrow> fp \<Rightarrow> fp \<Rightarrow> fp" where
  "fp_add f (Finite x) (Finite y) = rnd f (x + y)"
| "fp_add f (Infinity s) (Infinity t) = (if s = t then Infinity s else NaN)"
| "fp_add f (Infinity s) (Finite y) = Infinity s"
| "fp_add f (Finite x) (Infinity t) = Infinity t"
| "fp_add f _ _ = NaN"

fun fp_minus :: "fp \<Rightarrow> fp" where
  "fp_minus (Finite x) = Finite (- x)"
| "fp_minus (Infinity s) = Infinity (\<not> s)"
| "fp_minus NaN = NaN"

definition fp_sub :: "format \<Rightarrow> fp \<Rightarrow> fp \<Rightarrow> fp" where
  "fp_sub f x y = fp_add f x (fp_minus y)"

fun fp_mul :: "format \<Rightarrow> fp \<Rightarrow> fp \<Rightarrow> fp" where
  "fp_mul f (Finite x) (Finite y) = rnd f (x * y)"
| "fp_mul f (Infinity s) (Infinity t) = Infinity (s \<noteq> t)"
| "fp_mul f (Infinity s) (Finite y) = (if y = 0 then NaN else Infinity (s \<noteq> (y < 0)))"
| "fp_mul f (Finite x) (Infinity t) = (if x = 0 then NaN else Infinity (t \<noteq> (x < 0)))"
| "fp_mul f _ _ = NaN"

fun fp_div :: "format \<Rightarrow> fp \<Rightarrow> fp \<Rightarrow> fp" where
  "fp_div f (Finite x) (Finite y) =
     (if y = 0 then if x = 0 then NaN else Infinity (x < 0) else rnd f (x / y))"
| "fp_div f (Infinity s) (Finite y) = Infinity (s \<noteq> (y < 0))"
| "fp_div f (Finite x) (Infinity t) = Finite 0"
| "fp_div f _ _ = NaN"

text \<open>The root of \<open>x\<close> in units of the last place: the integer part, then the comparison with the midpoint.\<close>

fun fp_sqrt :: "format \<Rightarrow> fp \<Rightarrow> fp" where
  "fp_sqrt f (Finite x) =
     (if x < 0 then NaN else if x = 0 then Finite 0
      else let u = 2 powi unit_expo f (expo x div 2); s = x / (u * u); n = isqrt \<lfloor>s\<rfloor>;
               mid = (of_int n + 1 / 2) * (of_int n + 1 / 2)
           in Finite (of_int (if mid < s \<or> (mid = s \<and> odd n) then n + 1 else n) * u))"
| "fp_sqrt f (Infinity s) = (if s then NaN else Infinity False)"
| "fp_sqrt f NaN = NaN"

fun fp_abs :: "fp \<Rightarrow> fp" where
  "fp_abs (Finite x) = Finite \<bar>x\<bar>"
| "fp_abs (Infinity s) = Infinity False"
| "fp_abs NaN = NaN"

text \<open>Comparisons are false on NaN.\<close>

fun fp_less :: "fp \<Rightarrow> fp \<Rightarrow> bool" where
  "fp_less (Finite x) (Finite y) = (x < y)"
| "fp_less (Finite x) (Infinity t) = (\<not> t)"
| "fp_less (Infinity s) (Finite y) = s"
| "fp_less (Infinity s) (Infinity t) = (s \<and> \<not> t)"
| "fp_less _ _ = False"

section \<open>Digits and roots\<close>

lemma int_bits_range:
  assumes "0 < n"
  shows "\<exists>k. int_bits n = int k + 1 \<and> 2 ^ k \<le> n \<and> n < 2 ^ (k + 1)"
  using assms
proof (induction n rule: int_bits.induct)
  case (1 n)
  show ?case
  proof (cases "n = 1")
    case True
    then show ?thesis by (intro exI [of _ 0]) (simp add: int_bits.simps)
  next
    case False
    with "1.prems" "1.IH" obtain k where "int_bits (n div 2) = int k + 1" "2 ^ k \<le> n div 2" "n div 2 < 2 ^ (k + 1)"
      by fastforce
    with "1.prems" show ?thesis by (intro exI [of _ "k + 1"]) (auto simp: int_bits.simps [of n])
  qed
qed

lemma isqrt_range: "0 \<le> n \<Longrightarrow> 0 \<le> isqrt n \<and> isqrt n * isqrt n \<le> n \<and> n < (isqrt n + 1) * (isqrt n + 1)"
proof (induction n rule: isqrt.induct)
  case (1 n)
  show ?case
  proof (cases "n = 0")
    case True
    then show ?thesis by (simp add: isqrt.simps)
  next
    case False
    define q where "q = isqrt (n div 4)"
    have q: "0 \<le> q" "q * q \<le> n div 4" "n div 4 < (q + 1) * (q + 1)" using 1 False by (auto simp: q_def)
    have "4 * (q * q) \<le> n" "n < 4 * ((q + 1) * (q + 1))" using q by linarith+
    moreover have "isqrt n = (if (2 * q + 1) * (2 * q + 1) \<le> n then 2 * q + 1 else 2 * q)"
      using False 1 by (simp add: isqrt.simps [of n] q_def Let_def)
    ultimately show ?thesis using q(1) by (auto simp: algebra_simps)
  qed
qed

lemma expo_range:
  assumes "x \<noteq> 0"
  shows "2 powi expo x \<le> \<bar>x\<bar>" and "\<bar>x\<bar> < 2 powi (expo x + 1)"
proof -
  have "2 powi expo x \<le> \<bar>x\<bar> \<and> \<bar>x\<bar> < 2 powi (expo x + 1)"
  proof (cases "1 \<le> \<bar>x\<bar>")
    case True
    then have "0 < \<lfloor>\<bar>x\<bar>\<rfloor>" by simp
    then obtain k where k: "int_bits \<lfloor>\<bar>x\<bar>\<rfloor> = int k + 1" "2 ^ k \<le> \<lfloor>\<bar>x\<bar>\<rfloor>" "\<lfloor>\<bar>x\<bar>\<rfloor> < 2 ^ (k + 1)"
      using int_bits_range by blast
    have "2 ^ k \<le> \<bar>x\<bar>" using k(2) by (metis le_floor_iff of_int_numeral of_int_power)
    moreover have "\<bar>x\<bar> < 2 ^ (k + 1)" using k(3) by (metis floor_less_iff of_int_numeral of_int_power)
    ultimately show ?thesis using True k(1) by (simp add: expo_def power_int_def nat_add_distrib)
  next
    case False
    define n where "n = \<lceil>1 / \<bar>x\<bar>\<rceil> - 1"
    have y: "1 < 1 / \<bar>x\<bar>" using False assms by simp
    then have "0 < n" unfolding n_def by linarith
    then obtain k where k: "int_bits n = int k + 1" "2 ^ k \<le> n" "n < 2 ^ (k + 1)"
      using int_bits_range by blast
    have e: "expo x = - (int k + 1)" using False k(1) by (simp add: expo_def n_def)
    have "real_of_int (2 ^ k) \<le> of_int n" using k(2) by (simp only: of_int_le_iff)
    moreover have "real_of_int n < 1 / \<bar>x\<bar>" unfolding n_def by linarith
    ultimately have "real_of_int (2 ^ k) < 1 / \<bar>x\<bar>" by linarith
    then have lo: "2 ^ k < 1 / \<bar>x\<bar>" by simp
    have "real_of_int n + 1 \<le> real_of_int (2 ^ (k + 1))" using k(3) by linarith
    moreover have "1 / \<bar>x\<bar> \<le> real_of_int n + 1" unfolding n_def by linarith
    ultimately have "1 / \<bar>x\<bar> \<le> real_of_int (2 ^ (k + 1))" by linarith
    then have hi: "1 / \<bar>x\<bar> \<le> 2 ^ (k + 1)" by simp
    have "expo x = - int (k + 1)" "expo x + 1 = - int k" using e by simp_all
    then have "2 powi expo x = (1 / 2 ^ (k + 1) :: real)" "2 powi (expo x + 1) = (1 / 2 ^ k :: real)"
      by (simp_all only: power_int_minus power_int_of_nat inverse_eq_divide)
    moreover have "1 / 2 ^ (k + 1) \<le> \<bar>x\<bar>" "\<bar>x\<bar> < 1 / 2 ^ k"
      using lo hi assms by (simp_all add: field_simps)
    ultimately show ?thesis by (simp only:)
  qed
  then show "2 powi expo x \<le> \<bar>x\<bar>" "\<bar>x\<bar> < 2 powi (expo x + 1)" by simp_all
qed

section \<open>Errors\<close>

lemma round_even_int_error: "\<bar>of_int (round_even_int x) - x\<bar> \<le> 1 / 2"
  unfolding round_even_int_def Let_def using floor_correct [of x] by (auto simp: abs_le_iff)

text \<open>Half a unit of the last place, relative to the value or to the least positive number.\<close>

lemma half_unit:
  assumes "2 powi e \<le> (b :: real)"
  shows "2 powi unit_expo binary32 e / 2 \<le> b / 2 ^ 24 + 1 / 2 ^ 150"
proof (cases "e + 1 - 24 \<le> - 149")
  case True
  then have "unit_expo binary32 e = - 149" by (simp add: unit_expo_def binary32_def)
  then have "2 powi unit_expo binary32 e / 2 = (1 / 2 ^ 150 :: real)" by (simp add: power_int_minus field_simps)
  moreover have "0 \<le> b" using assms zero_less_power_int [of "2::real" e] by linarith
  ultimately show ?thesis by simp
next
  case False
  then have "unit_expo binary32 e = e - 23" by (simp add: unit_expo_def binary32_def)
  then have "2 powi unit_expo binary32 e / 2 = (2 powi e / 2 ^ 24 :: real)" by (simp add: power_int_diff)
  with assms show ?thesis by (simp add: divide_right_mono add_increasing2)
qed


text \<open>Values of moderate size round to a finite value close by.\<close>

lemma rnd_error:
  assumes "\<bar>x\<bar> \<le> 2 ^ 100"
  shows "\<exists>y. rnd binary32 x = Finite y \<and> \<bar>y - x\<bar> \<le> \<bar>x\<bar> / 2 ^ 24 + 1 / 2 ^ 150"
proof (cases "x = 0")
  case False
  define u :: real where "u = 2 powi unit_expo binary32 (expo x)"
  define y where "y = of_int (round_even_int (x / u)) * u"
  have u: "0 < u" by (simp add: u_def)
  have "y - x = (of_int (round_even_int (x / u)) - x / u) * u" using u by (simp add: y_def field_simps)
  then have "\<bar>y - x\<bar> = \<bar>of_int (round_even_int (x / u)) - x / u\<bar> * u" using u by (simp add: abs_mult)
  also have "\<dots> \<le> 1 / 2 * u" using u by (intro mult_right_mono round_even_int_error) simp
  also have "\<dots> \<le> \<bar>x\<bar> / 2 ^ 24 + 1 / 2 ^ 150" using half_unit [OF expo_range(1) [OF False]] by (simp add: u_def)
  finally have err: "\<bar>y - x\<bar> \<le> \<bar>x\<bar> / 2 ^ 24 + 1 / 2 ^ 150" .
  have "\<bar>x\<bar> / 2 ^ 24 \<le> \<bar>x\<bar>" "(1 / 2 ^ 150 :: real) \<le> 1" by simp_all
  then have "\<bar>y\<bar> \<le> 2 * \<bar>x\<bar> + 1" using err by linarith
  also have "\<dots> < 2 ^ 128" using assms by simp
  finally have "\<bar>y\<bar> < 2 ^ 128" .
  then have "rnd binary32 x = Finite y"
    using False by (simp add: rnd_def y_def u_def Let_def) (simp add: binary32_def)
  with err show ?thesis by blast
qed (simp add: rnd_def)

lemma fp_sqrt_error:
  assumes "0 \<le> x"
  shows "\<exists>y. fp_sqrt binary32 (Finite x) = Finite y \<and> \<bar>y - sqrt x\<bar> \<le> sqrt x / 2 ^ 24 + 1 / 2 ^ 150"
proof (cases "x = 0")
  case False
  then have x: "0 < x" and pos: "(x < 0) = False" using assms by simp_all
  define e where "e = expo x div 2"
  define u :: real where "u = 2 powi unit_expo binary32 e"
  define s where "s = x / (u * u)"
  define n where "n = isqrt \<lfloor>s\<rfloor>"
  define m where "m = (if (of_int n + 1 / 2) * (of_int n + 1 / 2) < s \<or> ((of_int n + 1 / 2) * (of_int n + 1 / 2) = s \<and> odd n) then n + 1 else n)"
  have u: "0 < u" by (simp add: u_def)
  have s: "0 < s" using x u by (simp add: s_def)
  have root: "sqrt x = sqrt s * u" using u by (simp add: s_def real_sqrt_divide real_sqrt_mult)
  have "(2 powi e) * (2 powi e) = (2 powi (e + e) :: real)" by (rule power_int_add [symmetric]) simp
  also have "\<dots> \<le> 2 powi expo x" by (rule power_int_increasing, unfold e_def, linarith, simp)
  also have "\<dots> \<le> x" using expo_range(1) [of x] x by simp
  finally have "2 powi e \<le> sqrt x" by (intro real_le_rsqrt) (simp add: power2_eq_square)
  then have half: "u / 2 \<le> sqrt x / 2 ^ 24 + 1 / 2 ^ 150" unfolding u_def by (rule half_unit)
  have n: "0 \<le> n" "n * n \<le> \<lfloor>s\<rfloor>" "\<lfloor>s\<rfloor> < (n + 1) * (n + 1)"
    using isqrt_range [of "\<lfloor>s\<rfloor>"] s by (simp_all add: n_def)
  have "real_of_int (n * n) \<le> s" using n(2) by (simp only: le_floor_iff)
  then have lo: "of_int n \<le> sqrt s" using n(1) by (intro real_le_rsqrt) (simp add: power2_eq_square)
  have "s < real_of_int ((n + 1) * (n + 1))" using n(3) by (simp only: floor_less_iff)
  then have hi: "sqrt s < of_int n + 1" using n(1) by (intro real_less_lsqrt) (simp_all add: power2_eq_square)
  have "\<bar>of_int m - sqrt s\<bar> \<le> 1 / 2"
  proof (cases "(of_int n + 1 / 2) * (of_int n + 1 / 2) < s")
    case True
    then have "of_int n + 1 / 2 < sqrt s" using n(1) by (intro real_less_rsqrt) (simp add: power2_eq_square)
    with True hi show ?thesis by (simp add: m_def abs_le_iff)
  next
    case False
    then have "sqrt s \<le> of_int n + 1 / 2" using n(1) by (intro real_le_lsqrt) (simp_all add: power2_eq_square)
    moreover have "sqrt s = of_int n + 1 / 2" if "(of_int n + 1 / 2) * (of_int n + 1 / 2) = s"
      using that n(1) by (intro real_sqrt_unique) (simp_all add: power2_eq_square)
    ultimately show ?thesis using False lo by (auto simp: m_def abs_le_iff)
  qed
  then have "\<bar>of_int m * u - sqrt x\<bar> \<le> 1 / 2 * u"
    using u mult_right_mono [of "\<bar>of_int m - sqrt s\<bar>" "1 / 2" u] by (simp add: root abs_mult left_diff_distrib [symmetric])
  moreover have "fp_sqrt binary32 (Finite x) = Finite (of_int m * u)"
    using pos False by (simp only: fp_sqrt.simps Let_def m_def n_def s_def u_def e_def if_False)
  ultimately show ?thesis using half by auto
qed simp


text \<open>The bounds in the form the clients use: \<open>b\<close> bounds the exact result.\<close>

lemma small_error:
  assumes "1 \<le> (b :: real)" and "\<bar>x\<bar> \<le> b"
  shows "\<bar>x\<bar> / 2 ^ 24 + 1 / 2 ^ 150 \<le> b / 10000000"
proof -
  have "\<bar>x\<bar> / 2 ^ 24 + 1 / 2 ^ 150 \<le> b / 2 ^ 24 + b / 2 ^ 150"
    using assms by (intro add_mono divide_right_mono) simp_all
  also have "\<dots> \<le> b / 10000000" using assms(1) by (simp add: field_simps)
  finally show ?thesis .
qed

lemma rnd_near:
  assumes "1 \<le> b" and "b \<le> 2 ^ 100" and "\<bar>x\<bar> \<le> b"
  obtains y where "rnd binary32 x = Finite y" and "\<bar>y - x\<bar> \<le> b / 10000000"
proof -
  obtain y where y: "rnd binary32 x = Finite y" "\<bar>y - x\<bar> \<le> \<bar>x\<bar> / 2 ^ 24 + 1 / 2 ^ 150"
    using rnd_error [of x] assms by auto
  from that [OF y(1)] y(2) small_error [OF assms(1,3)] show thesis by linarith
qed

lemma fp_sqrt_near:
  assumes "1 \<le> b" and "0 \<le> x" and "x \<le> b * b"
  obtains y where "fp_sqrt binary32 (Finite x) = Finite y" and "\<bar>y - sqrt x\<bar> \<le> b / 10000000"
proof -
  obtain y where y: "fp_sqrt binary32 (Finite x) = Finite y" "\<bar>y - sqrt x\<bar> \<le> sqrt x / 2 ^ 24 + 1 / 2 ^ 150"
    using fp_sqrt_error [OF assms(2)] by blast
  have "sqrt x \<le> b" using assms by (intro real_le_lsqrt) (simp_all add: power2_eq_square)
  then have "\<bar>sqrt x\<bar> \<le> b" using assms(2) by simp
  from small_error [OF assms(1) this] y(2) assms(2) have "\<bar>y - sqrt x\<bar> \<le> b / 10000000" by simp
  with that y(1) show thesis by blast
qed

lemma rnd_nonneg:
  assumes "0 \<le> x" and "rnd f x = Finite y"
  shows "0 \<le> y"
proof -
  have "0 \<le> round_even_int z" if "0 \<le> z" for z using that by (auto simp: round_even_int_def Let_def)
  then show ?thesis using assms by (auto simp: rnd_def Let_def split: if_splits)
qed

end
