(* ===== verification/Example_Action_Server.thy ===== *)
theory Example_Action_Server
  imports Action_Server_Mock Ieee_Float
begin

text \<open>
  The example node \<open>test_composition::ActionServer\<close> (action_server.cpp): a robot that moves to a
  target in steps of a hundredth and reports through a goal handle of this library. Coordinates
  are \<open>float\<close>, so the arithmetic is that of binary32, NaN and infinities included.

  \<open>execute_move\<close> runs in a detached thread. What other threads decide while it runs is given by two
  functions of the round: whether \<open>rclcpp::ok()\<close> holds and what \<open>is_canceling()\<close> answers. A loop that
  does not end is \<open>None\<close>. A reported feedback is recorded with the values it has when it is
  reported.
\<close>

section \<open>Messages and state\<close>

record move_goal =
  target_x :: fp
  target_y :: fp

record move_feedback =
  feedback_x :: fp
  feedback_y :: fp
  distance_remaining :: fp

record move_result =
  success :: bool
  final_x :: fp
  final_y :: fp
  message :: string

datatype move_msg = Goal_msg move_goal | Feedback_msg move_feedback | Result_msg move_result

datatype goal_response = Reject_goal | Accept_and_execute | Accept_and_defer

datatype cancel_response = Reject_cancel | Accept_cancel

record move_server =
  is_moving :: bool
  current_x :: fp
  current_y :: fp
  current_goal_handle :: "ctrl option"

type_synonym move_handle = "move_msg server_goal_handle"

definition new_move_server :: move_server where
  "new_move_server = \<lparr>is_moving = False, current_x = Finite 0, current_y = Finite 0, current_goal_handle = None\<rparr>"

definition get_current_position :: "move_server \<Rightarrow> fp \<times> fp" where
  "get_current_position s = (current_x s, current_y s)"

section \<open>Geometry\<close>

definition distance32 :: "fp \<Rightarrow> fp \<Rightarrow> fp" where
  "distance32 dx dy = fp_sqrt binary32 (fp_add binary32 (fp_mul binary32 dx dx) (fp_mul binary32 dy dy))"

text \<open>A comparison of a \<open>float\<close> with a \<open>double\<close> converts the \<open>float\<close>, which is exact.\<close>

definition calculate_next_position :: "fp \<Rightarrow> fp \<Rightarrow> fp \<Rightarrow> fp \<Rightarrow> fp \<Rightarrow> fp \<times> fp" where
  "calculate_next_position cx cy tx ty step_size =
     (let dx = fp_sub binary32 tx cx; dy = fp_sub binary32 ty cy; distance = distance32 dx dy
      in if fp_less distance (rnd binary64 (1 / 1000)) then (cx, cy)
         else let step_x = fp_mul binary32 (fp_div binary32 dx distance) step_size;
                  step_y = fp_mul binary32 (fp_div binary32 dy distance) step_size
              in (fp_add binary32 cx step_x, fp_add binary32 cy step_y))"

definition calculate_feedback :: "fp \<Rightarrow> fp \<Rightarrow> fp \<Rightarrow> fp \<Rightarrow> move_feedback" where
  "calculate_feedback cx cy tx ty =
     \<lparr>feedback_x = cx, feedback_y = cy,
      distance_remaining = distance32 (fp_sub binary32 tx cx) (fp_sub binary32 ty cy)\<rparr>"

definition is_goal_reached_within :: "fp \<Rightarrow> fp \<Rightarrow> fp \<Rightarrow> fp \<Rightarrow> fp \<Rightarrow> bool" where
  "is_goal_reached_within cx cy tx ty tolerance =
     fp_less (distance32 (fp_sub binary32 tx cx) (fp_sub binary32 ty cy)) tolerance"

text \<open>The default argument \<open>0.1\<close> is a \<open>double\<close> converted to \<open>float\<close>.\<close>

definition tolerance :: fp where
  "tolerance = fp_convert binary32 (rnd binary64 (1 / 10))"

definition is_goal_reached :: "fp \<Rightarrow> fp \<Rightarrow> fp \<Rightarrow> fp \<Rightarrow> bool" where
  "is_goal_reached cx cy tx ty = is_goal_reached_within cx cy tx ty tolerance"

section \<open>The callbacks of the action server\<close>

definition move_handle_goal :: "move_goal option \<Rightarrow> move_server \<Rightarrow> exn + goal_response" where
  "move_handle_goal goal s = (case goal of
      None \<Rightarrow> Inl (Undefined Null_dereference)
    | Some g \<Rightarrow>
        if fp_less (Finite 10) (fp_abs (target_x g)) \<or> fp_less (Finite 10) (fp_abs (target_y g)) then Inr Reject_goal
        else if is_moving s then Inr Reject_goal
        else Inr Accept_and_execute)"

definition move_handle_cancel :: "ctrl option \<Rightarrow> cancel_response" where
  "move_handle_cancel goal_handle = Accept_cancel"

text \<open>The thread it starts runs \<open>execute_move\<close> on the same handle.\<close>

definition move_handle_accepted :: "ctrl option \<Rightarrow> move_server \<Rightarrow> move_server" where
  "move_handle_accepted goal_handle s = s\<lparr>current_goal_handle := goal_handle, is_moving := True\<rparr>"

text \<open>The server the constructor creates, owned by \<open>action_server_\<close>; the three lambdas by number.\<close>

definition create_move_server :: "ctrl \<Rightarrow> addr \<Rightarrow> ctrl \<Rightarrow> move_msg world \<Rightarrow> move_msg world" where
  "create_move_server c a node w =
     (let w1 = new_action_server a \<lparr>server_type = ''rtest_examples_interfaces::action::MoveRobot'', server_action_name = ''move_robot'',
                 server_node = Some node, handle_goal = Some 0, handle_cancel = Some 1, handle_accepted = Some 2\<rparr>
                 ''/move_robot_server'' w
      in w1\<lparr>memory := adopt c a (memory w1)\<rparr>)"

section \<open>Single steps\<close>

definition result_at :: "bool \<Rightarrow> string \<Rightarrow> move_server \<Rightarrow> move_msg" where
  "result_at b msg s = Result_msg \<lparr>success = b, final_x = current_x s, final_y = current_y s, message = msg\<rparr>"

definition execute_single_step ::
  "move_goal option \<Rightarrow> move_server \<times> move_handle \<Rightarrow> (move_server \<times> move_handle, unit) res" where
  "execute_single_step goal sh = (case goal of
      None \<Rightarrow> (Inl (Undefined Null_dereference), sh)
    | Some g \<Rightarrow>
        (let step_size = fp_convert binary32 (rnd binary64 (1 / 100));
             (new_x, new_y) = calculate_next_position (current_x (fst sh)) (current_y (fst sh)) (target_x g) (target_y g) step_size;
             feedback = calculate_feedback new_x new_y (target_x g) (target_y g)
         in (Inr (), ((fst sh)\<lparr>current_x := new_x, current_y := new_y\<rparr>,
                      report (Publish_feedback (Feedback_msg feedback)) (snd sh)))))"

text \<open>\<open>act\<close> is what an expectation makes \<open>is_canceling\<close> of a mocked handle return.\<close>

definition check_and_complete_goal ::
  "bool \<Rightarrow> move_goal option \<Rightarrow> move_server \<times> move_handle \<Rightarrow> (move_server \<times> move_handle, bool) res" where
  "check_and_complete_goal act goal sh =
     (let s = fst sh; h = snd sh
      in if is_canceling act h
         then (Inr True, (s\<lparr>is_moving := False\<rparr>, report (Canceled (result_at False ''Goal canceled'' s)) h))
         else case goal of
           None \<Rightarrow> (Inl (Undefined Null_dereference), sh)
         | Some g \<Rightarrow>
             if is_goal_reached (current_x s) (current_y s) (target_x g) (target_y g)
             then (Inr True, (s\<lparr>is_moving := False\<rparr>,
                     report (Succeed (result_at True ''Target reached successfully'' s)) h))
             else (Inr False, sh))"

section \<open>The move\<close>

partial_function (option) move_loop ::
  "(nat \<Rightarrow> bool) \<Rightarrow> (nat \<Rightarrow> bool) \<Rightarrow> move_goal option \<Rightarrow> fp \<Rightarrow> nat \<Rightarrow> move_server \<times> move_handle
     \<Rightarrow> (move_server \<times> move_handle, unit) res option" where
  "move_loop ok act goal step_size i sh =
     (let s = fst sh; h = snd sh
      in if \<not> (ok i \<and> is_moving s) then Some (Inr (), sh)
         else if is_canceling (act i) h
         then Some (Inr (), (s\<lparr>is_moving := False\<rparr>, report (Canceled (result_at False ''Goal canceled'' s)) h))
         else case goal of
           None \<Rightarrow> Some (Inl (Undefined Null_dereference), sh)
         | Some g \<Rightarrow>
             (let feedback = calculate_feedback (current_x s) (current_y s) (target_x g) (target_y g)
              in if is_goal_reached (current_x s) (current_y s) (target_x g) (target_y g)
                 then Some (Inr (), (s\<lparr>is_moving := False\<rparr>,
                        report (Succeed (result_at True ''Target reached successfully'' s)) h))
                 else let p = calculate_next_position (current_x s) (current_y s) (target_x g) (target_y g) step_size
                   in move_loop ok act goal step_size (i + 1)
                        (s\<lparr>current_x := fst p, current_y := snd p\<rparr>, report (Publish_feedback (Feedback_msg feedback)) h)))"

text \<open>The goal the handle carries; \<open>GoalHandleMock\<close> does not override \<open>get_goal\<close>.\<close>

definition handle_goal_of :: "move_handle \<Rightarrow> move_goal option" where
  "handle_goal_of h = (case get_goal h of Some (Goal_msg g) \<Rightarrow> Some g | _ \<Rightarrow> None)"

definition execute_move ::
  "(nat \<Rightarrow> bool) \<Rightarrow> (nat \<Rightarrow> bool) \<Rightarrow> move_server \<times> move_handle \<Rightarrow> (move_server \<times> move_handle, unit) res option" where
  "execute_move ok act sh =
     (let speed = Finite 1; step_size = fp_mul binary32 speed (rnd binary32 (1 / 100))
      in move_loop ok act (handle_goal_of (snd sh)) step_size 0 sh)"

section \<open>Constants\<close>

lemma tolerance_value: "tolerance = Finite (13421773 / 134217728)"
  by code_simp

lemma step_values:
  "fp_mul binary32 (Finite 1) (rnd binary32 (1 / 100)) = Finite (5368709 / 536870912)"
  "fp_convert binary32 (rnd binary64 (1 / 100)) = Finite (5368709 / 536870912)"
  by code_simp+

lemma threshold_value: "rnd binary64 (1 / 1000) = Finite (1152921504606847 / 1152921504606846976)"
  by code_simp


section \<open>How close the computed distance and step are\<close>

text \<open>The exact distance.\<close>

abbreviation dist2 :: "real \<Rightarrow> real \<Rightarrow> real" where
  "dist2 a b \<equiv> sqrt (a\<^sup>2 + b\<^sup>2)"

lemma square_near:
  assumes "\<bar>d - a\<bar> \<le> (e :: real)" and "\<bar>a\<bar> \<le> b" and "e \<le> 1"
  shows "\<bar>d\<^sup>2 - a\<^sup>2\<bar> \<le> e * (2 * b + 1)"
proof -
  have "\<bar>d + a\<bar> \<le> 2 * b + 1" using assms by linarith
  then have "\<bar>d - a\<bar> * \<bar>d + a\<bar> \<le> e * (2 * b + 1)" using assms(1) by (intro mult_mono) simp_all
  then show ?thesis by (simp add: power2_eq_square square_diff_square_factored abs_mult mult.commute)
qed

lemma sum_near:
  "\<bar>z - (u + v)\<bar> \<le> a \<Longrightarrow> \<bar>u - u'\<bar> \<le> b \<Longrightarrow> \<bar>v - v'\<bar> \<le> c \<Longrightarrow> \<bar>z - (u' + v')\<bar> \<le> a + b + (c :: real)"
  by linarith

lemma distance32_near:
  assumes "\<bar>x\<bar> \<le> 51" and "\<bar>y\<bar> \<le> 51"
  obtains d where "distance32 (Finite x) (Finite y) = Finite d" and "0 \<le> d + 1 / 100000" and "\<bar>d\<^sup>2 - (x\<^sup>2 + y\<^sup>2)\<bar> \<le> 11 / 5000"
proof -
  have sq: "x * x \<le> 2601" "y * y \<le> 2601"
    using assms abs_le_square_iff [of x 51] abs_le_square_iff [of y 51] by (simp_all add: power2_eq_square)
  obtain p where p: "rnd binary32 (x * x) = Finite p" "\<bar>p - x * x\<bar> \<le> 2601 / 10000000"
    by (rule rnd_near [of 2601 "x * x"]) (use sq in simp_all)
  obtain q where q: "rnd binary32 (y * y) = Finite q" "\<bar>q - y * y\<bar> \<le> 2601 / 10000000"
    by (rule rnd_near [of 2601 "y * y"]) (use sq in simp_all)
  have pq: "0 \<le> p" "0 \<le> q" using rnd_nonneg [OF _ p(1)] rnd_nonneg [OF _ q(1)] by simp_all
  have sum: "p + q \<le> 5203" using p(2) q(2) sq by linarith
  obtain t where t: "rnd binary32 (p + q) = Finite t" "\<bar>t - (p + q)\<bar> \<le> 5203 / 10000000"
    by (rule rnd_near [of 5203 "p + q"]) (use sum pq in simp_all)
  have small: "t \<le> 73 * 73" using t(2) sum by linarith
  have "0 \<le> t" using rnd_nonneg [OF _ t(1)] pq by simp
  then obtain d where d: "fp_sqrt binary32 (Finite t) = Finite d" "\<bar>d - sqrt t\<bar> \<le> 73 / 10000000"
    using small by (rule_tac fp_sqrt_near [of 73 t]) simp_all
  have root: "\<bar>sqrt t\<bar> \<le> 73" using \<open>0 \<le> t\<close> small by (auto intro: real_le_lsqrt)
  have "\<bar>d\<^sup>2 - (sqrt t)\<^sup>2\<bar> \<le> 73 / 10000000 * (2 * 73 + 1)"
    by (rule square_near [OF d(2) root]) simp
  then have "\<bar>d\<^sup>2 - t\<bar> \<le> 10731 / 10000000" using \<open>0 \<le> t\<close> by simp
  moreover have "\<bar>t - (x\<^sup>2 + y\<^sup>2)\<bar> \<le> 10405 / 10000000"
    using sum_near [OF t(2) p(2) q(2)] by (simp add: power2_eq_square)
  ultimately have "\<bar>d\<^sup>2 - (x\<^sup>2 + y\<^sup>2)\<bar> \<le> 11 / 5000" by linarith
  moreover have "0 \<le> d + 1 / 100000" using d(2) \<open>0 \<le> t\<close> real_sqrt_ge_zero [of t] by linarith
  moreover have "distance32 (Finite x) (Finite y) = Finite d" by (simp add: distance32_def p q t d del: fp_sqrt.simps)
  ultimately show thesis using that by blast
qed

lemma difference_near:
  assumes "\<bar>t\<bar> \<le> 10" and "\<bar>c\<bar> \<le> 40"
  obtains d where "fp_sub binary32 (Finite t) (Finite c) = Finite d" and "\<bar>d - (t - c)\<bar> \<le> 5 / 1000000"
proof -
  obtain d where "rnd binary32 (t - c) = Finite d" "\<bar>d - (t - c)\<bar> \<le> 50 / 10000000"
    by (rule rnd_near [of 50 "t - c"]) (use assms in simp_all)
  with that show thesis by (simp add: fp_sub_def)
qed

text \<open>The computed differences and distance of a position from a target.\<close>

lemma measured:
  assumes "\<bar>tx\<bar> \<le> 10" "\<bar>ty\<bar> \<le> 10" "\<bar>cx\<bar> \<le> 40" "\<bar>cy\<bar> \<le> 40"
  obtains dx dy d where "fp_sub binary32 (Finite tx) (Finite cx) = Finite dx" and "\<bar>dx - (tx - cx)\<bar> \<le> 5 / 1000000"
    and "fp_sub binary32 (Finite ty) (Finite cy) = Finite dy" and "\<bar>dy - (ty - cy)\<bar> \<le> 5 / 1000000"
    and "distance32 (Finite dx) (Finite dy) = Finite d" and "0 \<le> d + 1 / 100000"
    and "\<bar>d\<^sup>2 - ((tx - cx)\<^sup>2 + (ty - cy)\<^sup>2)\<bar> \<le> 1 / 250"
proof -
  obtain dx where dx: "fp_sub binary32 (Finite tx) (Finite cx) = Finite dx" "\<bar>dx - (tx - cx)\<bar> \<le> 5 / 1000000"
    by (rule difference_near [OF assms(1,3)])
  obtain dy where dy: "fp_sub binary32 (Finite ty) (Finite cy) = Finite dy" "\<bar>dy - (ty - cy)\<bar> \<le> 5 / 1000000"
    by (rule difference_near [OF assms(2,4)])
  have ab: "\<bar>tx - cx\<bar> \<le> 50" "\<bar>ty - cy\<bar> \<le> 50" using assms by linarith+
  have "\<bar>dx\<bar> \<le> 51" "\<bar>dy\<bar> \<le> 51" using ab dx(2) dy(2) by linarith+
  then obtain d where d: "distance32 (Finite dx) (Finite dy) = Finite d" "0 \<le> d + 1 / 100000" "\<bar>d\<^sup>2 - (dx\<^sup>2 + dy\<^sup>2)\<bar> \<le> 11 / 5000"
    by (rule distance32_near)
  have "\<bar>dx\<^sup>2 - (tx - cx)\<^sup>2\<bar> \<le> 5 / 1000000 * (2 * 50 + 1)" by (rule square_near [OF dx(2) ab(1)]) simp
  moreover have "\<bar>dy\<^sup>2 - (ty - cy)\<^sup>2\<bar> \<le> 5 / 1000000 * (2 * 50 + 1)" by (rule square_near [OF dy(2) ab(2)]) simp
  ultimately have "\<bar>d\<^sup>2 - ((tx - cx)\<^sup>2 + (ty - cy)\<^sup>2)\<bar> \<le> 11 / 5000 + 5 / 1000000 * (2 * 50 + 1) + 5 / 1000000 * (2 * 50 + 1)"
    by (rule sum_near [OF d(3)])
  also have "\<dots> \<le> 1 / 250" by simp
  finally have "\<bar>d\<^sup>2 - ((tx - cx)\<^sup>2 + (ty - cy)\<^sup>2)\<bar> \<le> 1 / 250" .
  with that dx dy d show thesis by blast
qed

text \<open>One coordinate of a step: close to the exact point on the line.\<close>

lemma coordinate_near:
  assumes dx: "\<bar>dx - a\<bar> \<le> 5 / 1000000" and a: "\<bar>a\<bar> \<le> 50" and c: "\<bar>c\<bar> \<le> 40" and d: "1 / 10 \<le> d"
    and s: "s = 5368709 / 536870912"
  obtains n where "fp_add binary32 (Finite c) (fp_mul binary32 (fp_div binary32 (Finite dx) (Finite d)) (Finite s)) = Finite n"
    and "\<bar>n - (c + s / d * a)\<bar> \<le> 1 / 100000"
proof -
  have dx51: "\<bar>dx\<bar> \<le> 51" using dx a by linarith
  have "\<bar>dx / d\<bar> \<le> 510" using dx51 d by (simp add: field_simps)
  then obtain q where q: "rnd binary32 (dx / d) = Finite q" "\<bar>q - dx / d\<bar> \<le> 511 / 10000000"
    by (rule_tac rnd_near [of 511 "dx / d"]) simp_all
  have q_le: "\<bar>q\<bar> \<le> 511" using q(2) \<open>\<bar>dx / d\<bar> \<le> 510\<close> by linarith
  have s_pos: "0 < s" "s \<le> 1 / 100" using s by simp_all
  have "\<bar>q\<bar> * s \<le> 511 * (1 / 100)" using q_le s_pos by (intro mult_mono) simp_all
  then have qs: "\<bar>q * s\<bar> \<le> 6" using s_pos by (simp add: abs_mult)
  then obtain m where m: "rnd binary32 (q * s) = Finite m" "\<bar>m - q * s\<bar> \<le> 6 / 10000000"
    by (rule_tac rnd_near [of 6 "q * s"]) simp_all
  have "\<bar>c + m\<bar> \<le> 47" using c m(2) qs by linarith
  then obtain n where n: "rnd binary32 (c + m) = Finite n" "\<bar>n - (c + m)\<bar> \<le> 47 / 10000000"
    by (rule_tac rnd_near [of 47 "c + m"]) simp_all
  have "q * s - dx / d * s = (q - dx / d) * s" by (simp add: left_diff_distrib)
  then have "\<bar>q * s - dx / d * s\<bar> = \<bar>q - dx / d\<bar> * s" using s_pos by (simp add: abs_mult)
  also have "\<dots> \<le> 511 / 10000000 * (1 / 100)" using q(2) s_pos by (intro mult_mono) simp_all
  finally have e1: "\<bar>q * s - dx / d * s\<bar> \<le> 511 / 1000000000" by simp
  have r: "0 \<le> s / d" "s / d \<le> 1 / 10" using s_pos d by (simp_all add: field_simps)
  have "dx / d * s - s / d * a = s / d * (dx - a)" by (simp add: diff_divide_distrib right_diff_distrib mult.commute)
  then have "\<bar>dx / d * s - s / d * a\<bar> = s / d * \<bar>dx - a\<bar>" using s_pos d by (simp add: abs_mult)
  also have "\<dots> \<le> 1 / 10 * (5 / 1000000)" using r dx by (intro mult_mono) simp_all
  finally have e2: "\<bar>dx / d * s - s / d * a\<bar> \<le> 5 / 10000000" by simp
  have "\<bar>n - (c + s / d * a)\<bar> \<le> 1 / 100000"
    using n(2) m(2) e1 e2 by linarith
  moreover have "d \<noteq> 0" using d by simp
  ultimately show thesis using that [of n] q(1) m(1) n(1) by simp
qed


section \<open>Every step comes closer\<close>

text \<open>Far from the target the computed distance is at most half as long again as the exact one.\<close>

lemma far_apart:
  assumes "1 / 10 \<le> d" and "\<bar>d\<^sup>2 - (a\<^sup>2 + b\<^sup>2)\<bar> \<le> 1 / 250"
  shows "d \<le> 3 / 2 * dist2 a b"
proof -
  have "1 / 100 \<le> d\<^sup>2" using power_mono [OF assms(1), of 2] by (simp add: power2_eq_square)
  moreover have "1 / 100 \<le> z \<Longrightarrow> \<bar>z - q\<bar> \<le> 1 / 250 \<Longrightarrow> z \<le> 9 / 4 * q" for z q :: real by linarith
  ultimately have "d\<^sup>2 \<le> 9 / 4 * (a\<^sup>2 + b\<^sup>2)" using assms(2) by blast
  also have "\<dots> = (3 / 2 * dist2 a b)\<^sup>2" by (simp add: power_mult_distrib power_divide)
  finally have "d\<^sup>2 \<le> (3 / 2 * dist2 a b)\<^sup>2" .
  then show ?thesis by (rule power2_le_imp_le) simp
qed

lemma step_shortens:
  assumes D: "d \<le> 3 / 2 * dist2 a b" and d: "1 / 10 \<le> d" and s: "s = 5368709 / 536870912"
    and a': "\<bar>a' - (1 - s / d) * a\<bar> \<le> 1 / 100000" and b': "\<bar>b' - (1 - s / d) * b\<bar> \<le> 1 / 100000"
  shows "dist2 a' b' \<le> dist2 a b - 1 / 200"
proof -
  define r where "r = s / d"
  have r: "0 \<le> r" "r \<le> 1" using s d by (simp_all add: r_def field_simps)
  have "dist2 ((1 - r) * a) ((1 - r) * b) = sqrt ((1 - r)\<^sup>2 * (a\<^sup>2 + b\<^sup>2))"
    by (simp add: power_mult_distrib distrib_left)
  also have "\<dots> = (1 - r) * dist2 a b" using r by (simp add: real_sqrt_mult)
  finally have line: "dist2 ((1 - r) * a) ((1 - r) * b) = (1 - r) * dist2 a b" .
  have "dist2 a' b' \<le> dist2 ((1 - r) * a) ((1 - r) * b) + dist2 (a' - (1 - r) * a) (b' - (1 - r) * b)"
    using real_sqrt_sum_squares_triangle_ineq [of "(1 - r) * a" "a' - (1 - r) * a" "(1 - r) * b" "b' - (1 - r) * b"]
    by simp
  also have "dist2 (a' - (1 - r) * a) (b' - (1 - r) * b) \<le> 2 / 100000"
    using sqrt_sum_squares_le_sum_abs [of "a' - (1 - r) * a" "b' - (1 - r) * b"] a' b' by (simp add: r_def)
  finally have step: "dist2 a' b' \<le> (1 - r) * dist2 a b + 2 / 100000" by (simp add: line)
  have "2 / 3 * d * r \<le> dist2 a b * r" using D r by (intro mult_right_mono) simp_all
  moreover have "2 / 3 * d * r = 2 / 3 * s" using d by (simp add: r_def)
  ultimately have "2 / 3 * s \<le> r * dist2 a b" by (simp only: mult.commute [of r])
  moreover have "1 / 200 + 2 / 100000 \<le> 2 / 3 * s" by (simp add: s)
  ultimately show ?thesis using step by (simp add: left_diff_distrib)
qed

text \<open>The position of the robot and the distance to its target.\<close>

definition near_target :: "real \<Rightarrow> move_goal \<Rightarrow> move_server \<Rightarrow> bool" where
  "near_target D g s \<longleftrightarrow> (\<exists>tx ty cx cy. target_x g = Finite tx \<and> target_y g = Finite ty \<and> \<bar>tx\<bar> \<le> 10 \<and> \<bar>ty\<bar> \<le> 10 \<and>
     current_x s = Finite cx \<and> current_y s = Finite cy \<and> dist2 (tx - cx) (ty - cy) \<le> D)"

lemma coordinate_bound: "\<bar>t\<bar> \<le> 10 \<Longrightarrow> dist2 (t - c) b \<le> D \<Longrightarrow> \<bar>c\<bar> \<le> 10 + D"
  "\<bar>t\<bar> \<le> 10 \<Longrightarrow> dist2 b (t - c) \<le> D \<Longrightarrow> \<bar>c\<bar> \<le> 10 + D"
  using real_sqrt_ge_abs1 [of "t - c" b] real_sqrt_ge_abs2 [of "t - c" b] by linarith+

lemma reached_or_closer:
  assumes near: "near_target D g s" and D: "D \<le> 30"
    and p: "p = calculate_next_position (current_x s) (current_y s) (target_x g) (target_y g) (Finite (5368709 / 536870912))"
  shows "if is_goal_reached (current_x s) (current_y s) (target_x g) (target_y g) then near_target (3 / 25) g s
    else near_target (D - 1 / 200) g (s\<lparr>current_x := fst p, current_y := snd p\<rparr>)"
proof -
  let ?s = "5368709 / 536870912 :: real"
  obtain tx ty cx cy where g: "target_x g = Finite tx" "target_y g = Finite ty" "\<bar>tx\<bar> \<le> 10" "\<bar>ty\<bar> \<le> 10"
    and c: "current_x s = Finite cx" "current_y s = Finite cy" and dist: "dist2 (tx - cx) (ty - cy) \<le> D"
    using near by (auto simp: near_target_def)
  have cb: "\<bar>cx\<bar> \<le> 40" "\<bar>cy\<bar> \<le> 40"
    using coordinate_bound(1) [OF g(3) dist] coordinate_bound(2) [OF g(4) dist] D by simp_all
  obtain dx dy d where m: "fp_sub binary32 (Finite tx) (Finite cx) = Finite dx" "\<bar>dx - (tx - cx)\<bar> \<le> 5 / 1000000"
    "fp_sub binary32 (Finite ty) (Finite cy) = Finite dy" "\<bar>dy - (ty - cy)\<bar> \<le> 5 / 1000000"
    "distance32 (Finite dx) (Finite dy) = Finite d" "0 \<le> d + 1 / 100000"
    "\<bar>d\<^sup>2 - ((tx - cx)\<^sup>2 + (ty - cy)\<^sup>2)\<bar> \<le> 1 / 250"
    by (rule measured [OF g(3,4) cb])
  have reached: "is_goal_reached (current_x s) (current_y s) (target_x g) (target_y g) \<longleftrightarrow> d < 13421773 / 134217728"
    by (simp add: is_goal_reached_def is_goal_reached_within_def g c m tolerance_value)
  show ?thesis
  proof (cases "d < 13421773 / 134217728")
    case True
    then have "\<bar>d\<bar> \<le> 101 / 1000" using m(6) by linarith
    then have "d\<^sup>2 \<le> 10201 / 1000000" using abs_le_square_iff [of d "101 / 1000"] by (simp add: power2_eq_square)
    then have "(tx - cx)\<^sup>2 + (ty - cy)\<^sup>2 \<le> 9 / 625" using m(7) by linarith
    then have "(tx - cx)\<^sup>2 + (ty - cy)\<^sup>2 \<le> (3 / 25)\<^sup>2" by (simp add: power2_eq_square)
    then have "dist2 (tx - cx) (ty - cy) \<le> 3 / 25" by (intro real_le_lsqrt) simp_all
    with True g c reached show ?thesis by (auto simp: near_target_def)
  next
    case False
    then have d: "1 / 10 \<le> d" by simp
    have ab: "\<bar>tx - cx\<bar> \<le> 50" "\<bar>ty - cy\<bar> \<le> 50" using g cb by linarith+
    obtain nx where nx: "fp_add binary32 (Finite cx) (fp_mul binary32 (fp_div binary32 (Finite dx) (Finite d)) (Finite ?s)) = Finite nx"
      "\<bar>nx - (cx + ?s / d * (tx - cx))\<bar> \<le> 1 / 100000" by (rule coordinate_near [OF m(2) ab(1) cb(1) d refl])
    obtain ny where ny: "fp_add binary32 (Finite cy) (fp_mul binary32 (fp_div binary32 (Finite dy) (Finite d)) (Finite ?s)) = Finite ny"
      "\<bar>ny - (cy + ?s / d * (ty - cy))\<bar> \<le> 1 / 100000" by (rule coordinate_near [OF m(4) ab(2) cb(2) d refl])
    have "p = (Finite nx, Finite ny)"
      using d nx(1) ny(1) by (simp add: p calculate_next_position_def g c m threshold_value Let_def)
    moreover have "\<bar>(tx - nx) - (1 - ?s / d) * (tx - cx)\<bar> \<le> 1 / 100000" "\<bar>(ty - ny) - (1 - ?s / d) * (ty - cy)\<bar> \<le> 1 / 100000"
      using nx(2) ny(2) by (simp_all add: left_diff_distrib abs_minus_commute)
    then have "dist2 (tx - nx) (ty - ny) \<le> D - 1 / 200"
      using step_shortens [OF far_apart [OF d m(7)] d refl] dist by fastforce
    ultimately show ?thesis using False g reached by (auto simp: near_target_def)
  qed
qed


section \<open>The loop\<close>

lemma move_loop_done:
  "\<not> (ok i \<and> is_moving s) \<Longrightarrow> move_loop ok act goal step i (s, h) = Some (Inr (), (s, h))"
  by (simp add: move_loop.simps)

lemma move_loop_step:
  assumes "ok i" and "is_moving s" and "\<not> is_canceling (act i) h" and "p = calculate_next_position (current_x s) (current_y s) (target_x g) (target_y g) step"
    and "f = calculate_feedback (current_x s) (current_y s) (target_x g) (target_y g)"
  shows "move_loop ok act (Some g) step i (s, h) =
    (if is_goal_reached (current_x s) (current_y s) (target_x g) (target_y g)
     then Some (Inr (), (s\<lparr>is_moving := False\<rparr>, report (Succeed (result_at True ''Target reached successfully'' s)) h))
     else move_loop ok act (Some g) step (i + 1)
       (s\<lparr>current_x := fst p, current_y := snd p\<rparr>, report (Publish_feedback (Feedback_msg f)) h))"
  by (simp add: move_loop.simps [of ok act "Some g" step i "(s, h)"] assms Let_def)

lemma report_fields [simp]:
  "is_mock (report x h) = is_mock h" "canceling (report x h) = canceling h" "sgoal (report x h) = sgoal h"
  by (simp_all add: report_def)

text \<open>Without a cancel request and while rclcpp runs, the loop ends near the target.\<close>

definition success_report :: "move_server \<Rightarrow> move_msg handle_call" where
  "success_report s = Succeed (result_at True ''Target reached successfully'' s)"

lemma move_loop_completes:
  assumes "near_target (real k / 200) g s" and "k \<le> 6000" and "is_moving s" and "is_mock h"
    and "\<And>i. ok i" and "\<And>i. \<not> act i"
  shows "\<exists>s' h' fs. move_loop ok act (Some g) (Finite (5368709 / 536870912)) i (s, h) = Some (Inr (), (s', h')) \<and>
    \<not> is_moving s' \<and> near_target (3 / 25) g s' \<and> length fs \<le> k \<and>
    handle_calls h' = handle_calls h @ map Publish_feedback fs @ [success_report s']"
  using assms
proof (induction k arbitrary: s h i rule: less_induct)
  case (less k)
  define p where "p = calculate_next_position (current_x s) (current_y s) (target_x g) (target_y g) (Finite (5368709 / 536870912))"
  define f where "f = calculate_feedback (current_x s) (current_y s) (target_x g) (target_y g)"
  have nc: "\<not> is_canceling (act i) h" using less.prems by (simp add: is_canceling_def)
  have ok: "ok i" by (rule less.prems)
  note step = move_loop_step [where ok = ok and act = act, OF ok less.prems(3) nc p_def f_def]
  have closer: "if is_goal_reached (current_x s) (current_y s) (target_x g) (target_y g) then near_target (3 / 25) g s
      else near_target (real k / 200 - 1 / 200) g (s\<lparr>current_x := fst p, current_y := snd p\<rparr>)"
    by (rule reached_or_closer [OF less.prems(1) _ p_def]) (use less.prems(2) in simp)
  show ?case
  proof (cases "is_goal_reached (current_x s) (current_y s) (target_x g) (target_y g)")
    case True
    with closer show ?thesis
      using less.prems(4)
      by (intro exI [of _ "s\<lparr>is_moving := False\<rparr>"] exI [of _ "report (success_report s) h"] exI [of _ "[]"])
         (auto simp: step report_def success_report_def result_at_def near_target_def)
  next
    case False
    let ?s = "s\<lparr>current_x := fst p, current_y := snd p\<rparr>" and ?h = "report (Publish_feedback (Feedback_msg f)) h"
    have near: "near_target (real k / 200 - 1 / 200) g ?s" using closer False by simp
    then have "0 \<le> real k / 200 - 1 / 200"
      unfolding near_target_def by (metis order_trans real_sqrt_ge_zero sum_power2_ge_zero)
    then obtain j where j: "k = Suc j" by (cases k) auto
    then have "real k / 200 - 1 / 200 = real j / 200" by (simp add: field_simps)
    with near have near': "near_target (real j / 200) g ?s" by simp
    have small: "j < k" "j \<le> 6000" "is_moving ?s" "is_mock ?h" using j less.prems by simp_all
    obtain s' h' fs where IH: "move_loop ok act (Some g) (Finite (5368709 / 536870912)) (i + 1) (?s, ?h) = Some (Inr (), (s', h'))"
      "\<not> is_moving s'" "near_target (3 / 25) g s'" "length fs \<le> j"
      "handle_calls h' = handle_calls ?h @ map Publish_feedback fs @ [success_report s']"
      using less.IH [OF small(1) near' small(2-4) less.prems(5,6)] by blast
    then show ?thesis using False less.prems(4)
      by (intro exI [of _ s'] exI [of _ h'] exI [of _ "Feedback_msg f # fs"]) (simp add: step report_def j)
  qed
qed


text \<open>An accepted goal with finite coordinates is at most 6000 rounds away.\<close>

lemma accepted_near:
  assumes "move_handle_goal (Some g) s = Inr Accept_and_execute"
    and "target_x g = Finite tx" and "target_y g = Finite ty"
    and "current_x s = Finite cx" and "current_y s = Finite cy" and "\<bar>cx\<bar> \<le> 11" and "\<bar>cy\<bar> \<le> 11"
  shows "near_target 30 g (move_handle_accepted c s)"
proof -
  have t: "\<bar>tx\<bar> \<le> 10" "\<bar>ty\<bar> \<le> 10" using assms(1-3) by (auto simp: move_handle_goal_def split: if_splits)
  then have "\<bar>tx - cx\<bar> \<le> 21" "\<bar>ty - cy\<bar> \<le> 21" using assms(6,7) by linarith+
  then have "(tx - cx)\<^sup>2 \<le> 21\<^sup>2" "(ty - cy)\<^sup>2 \<le> 21\<^sup>2" using abs_le_square_iff [of _ "21::real"] by simp_all
  then have "dist2 (tx - cx) (ty - cy) \<le> 30" by (intro real_le_lsqrt) simp_all
  with t assms(2-5) show ?thesis by (simp add: near_target_def move_handle_accepted_def)
qed


section \<open>Properties\<close>

text \<open>C12: Accepted moves complete. From any position within 11 of the origin in both coordinates, a
  goal with finite coordinates that \<open>handle_goal\<close> accepts is reached, unless it is canceled or rclcpp
  shuts down, which is assumed not to happen: the thread returns after at most
  6000 rounds, having reported feedback and then success once, with the robot at most 0.12 from
  the target, so again within 11 of the origin and ready for the next goal. Rounding errors of the
  \<open>float\<close> arithmetic are accounted for.\<close>

theorem accepted_move_completes:
  assumes "move_handle_goal (Some g) s = Inr Accept_and_execute"
    and "target_x g = Finite tx" and "target_y g = Finite ty"
    and "current_x s = Finite cx" and "current_y s = Finite cy" and "\<bar>cx\<bar> \<le> 11" and "\<bar>cy\<bar> \<le> 11"
    and "\<And>i. ok i" and "\<And>i. \<not> act i"
  shows "\<exists>s' h' fs nx ny. execute_move ok act (move_handle_accepted c s, createMockGoalHandle (Some (Goal_msg g))) = Some (Inr (), (s', h'))
    \<and> handle_calls h' = map Publish_feedback fs @ [Succeed (result_at True ''Target reached successfully'' s')]
    \<and> length fs \<le> 6000 \<and> \<not> is_moving s' \<and> current_x s' = Finite nx \<and> current_y s' = Finite ny
    \<and> sqrt ((tx - nx)\<^sup>2 + (ty - ny)\<^sup>2) \<le> 12 / 100 \<and> \<bar>nx\<bar> \<le> 11 \<and> \<bar>ny\<bar> \<le> 11"
proof -
  let ?s = "move_handle_accepted c s" and ?h = "createMockGoalHandle (Some (Goal_msg g)) :: move_handle"
  have t: "\<bar>tx\<bar> \<le> 10" "\<bar>ty\<bar> \<le> 10" using assms(1-3) by (auto simp: move_handle_goal_def split: if_splits)
  have near: "near_target (real 6000 / 200) g ?s" using accepted_near [OF assms(1-7)] by simp
  have mock: "is_moving ?s" "is_mock ?h" "handle_calls ?h = []" "handle_goal_of ?h = Some g"
    by (simp_all add: move_handle_accepted_def createMockGoalHandle_def new_ServerGoalHandle_def handle_goal_of_def get_goal_def)
  obtain s' h' fs where loop: "move_loop ok act (Some g) (Finite (5368709 / 536870912)) 0 (?s, ?h) = Some (Inr (), (s', h'))"
    "\<not> is_moving s'" "near_target (3 / 25) g s'" "length fs \<le> 6000"
    "handle_calls h' = handle_calls ?h @ map Publish_feedback fs @ [success_report s']"
    using move_loop_completes [where ok = ok and act = act, OF near order_refl mock(1,2) assms(8,9)] by blast
  from loop(3) obtain nx ny where n: "current_x s' = Finite nx" "current_y s' = Finite ny"
    "dist2 (tx - nx) (ty - ny) \<le> 3 / 25" by (auto simp: near_target_def assms(2,3))
  moreover have "\<bar>nx\<bar> \<le> 11" "\<bar>ny\<bar> \<le> 11"
    using coordinate_bound(1) [OF t(1) n(3)] coordinate_bound(2) [OF t(2) n(3)] by simp_all
  moreover have "execute_move ok act (?s, ?h) = Some (Inr (), (s', h'))"
    by (simp add: execute_move_def mock(4) step_values loop(1))
  ultimately show ?thesis using loop mock(3) by (auto simp: success_report_def)
qed

theorem accepted_move_completes_witness:
  "\<exists>s' h' fs. execute_move (\<lambda>_. True) (\<lambda>_. False)
      (move_handle_accepted (Some 1) new_move_server,
       createMockGoalHandle (Some (Goal_msg \<lparr>target_x = Finite 2, target_y = Finite 3\<rparr>))) = Some (Inr (), (s', h'))
    \<and> handle_calls h' = map Publish_feedback fs @ [Succeed (result_at True ''Target reached successfully'' s')]"
proof -
  have "move_handle_goal (Some \<lparr>target_x = Finite 2, target_y = Finite 3\<rparr>) new_move_server = Inr Accept_and_execute"
    by code_simp
  then show ?thesis
    using accepted_move_completes [of "\<lparr>target_x = Finite 2, target_y = Finite 3\<rparr>" new_move_server 2 3 0 0
        "\<lambda>_. True" "\<lambda>_. False" "Some 1"]
    by (auto simp: new_move_server_def)
qed

text \<open>Arithmetic with a NaN.\<close>

lemma nan_distance: "tx = NaN \<or> ty = NaN \<Longrightarrow> distance32 (fp_sub binary32 tx cx) (fp_sub binary32 ty cy) = NaN"
proof -
  have add: "fp_add f NaN y = NaN" "fp_add f y NaN = NaN" for f y by (cases y; simp)+
  have mul: "fp_mul f NaN NaN = NaN" for f by simp
  assume "tx = NaN \<or> ty = NaN"
  then show ?thesis by (auto simp: fp_sub_def distance32_def add mul)
qed

text \<open>Induction over the rounds of a loop that returns.\<close>

lemma move_loop_induct [consumes 1, case_names Stop Cancel Null Reached Round]:
  assumes run: "move_loop ok act goal step i (s, h) = Some r"
    and stop: "\<And>i s h. \<not> (ok i \<and> is_moving s) \<Longrightarrow> P i s h (Inr (), (s, h))"
    and cancel: "\<And>i s h. ok i \<Longrightarrow> is_moving s \<Longrightarrow> is_canceling (act i) h \<Longrightarrow>
      P i s h (Inr (), (s\<lparr>is_moving := False\<rparr>, report (Canceled (result_at False ''Goal canceled'' s)) h))"
    and null: "\<And>i s h. goal = None \<Longrightarrow> P i s h (Inl (Undefined Null_dereference), (s, h))"
    and reached: "\<And>i s h g. ok i \<Longrightarrow> is_moving s \<Longrightarrow> \<not> is_canceling (act i) h \<Longrightarrow> goal = Some g \<Longrightarrow>
      is_goal_reached (current_x s) (current_y s) (target_x g) (target_y g) \<Longrightarrow>
      P i s h (Inr (), (s\<lparr>is_moving := False\<rparr>, report (Succeed (result_at True ''Target reached successfully'' s)) h))"
    and round: "\<And>i s h g r p. is_moving s \<Longrightarrow> \<not> is_canceling (act i) h \<Longrightarrow> goal = Some g \<Longrightarrow>
      \<not> is_goal_reached (current_x s) (current_y s) (target_x g) (target_y g) \<Longrightarrow>
      p = calculate_next_position (current_x s) (current_y s) (target_x g) (target_y g) step \<Longrightarrow>
      P (i + 1) (s\<lparr>current_x := fst p, current_y := snd p\<rparr>) (report (Publish_feedback (Feedback_msg
        (calculate_feedback (current_x s) (current_y s) (target_x g) (target_y g)))) h) r \<Longrightarrow> P i s h r"
  shows "P i s h r"
proof -
  have "ok = ok \<longrightarrow> act = act \<longrightarrow> goal = goal \<longrightarrow> step = step \<longrightarrow> P i (fst (s, h)) (snd (s, h)) r"
    by (rule move_loop.raw_induct [where P = "\<lambda>ok' act' goal' step' i sh r. ok' = ok \<longrightarrow> act' = act \<longrightarrow> goal' = goal \<longrightarrow>
          step' = step \<longrightarrow> P i (fst sh) (snd sh) r", OF _ run])
       (auto simp: Let_def intro: stop cancel null reached round split: if_splits option.splits)
  then show ?thesis by simp
qed

lemma nan_loop:
  assumes "move_loop ok act goal step i (s, h) = Some r" and goal: "goal = Some g" "target_x g = NaN \<or> target_y g = NaN"
    and "is_moving s" and "is_mock h" and env: "\<And>i. ok i" "\<And>i. \<not> act i"
  shows False
proof -
  have "is_moving s \<longrightarrow> is_mock h \<longrightarrow> False"
    using assms(1)
    by (induction rule: move_loop_induct)
       (use goal env in \<open>auto simp: is_canceling_def is_goal_reached_def is_goal_reached_within_def nan_distance\<close>)
  with assms show False by simp
qed

text \<open>C34: A goal that is not a number is accepted and never finished. A target with a NaN coordinate,
  the other one being NaN or in range, passes both range checks, and unless the goal is canceled or
  rclcpp shuts down the thread never returns; meanwhile the server rejects every further goal.\<close>

theorem nan_goal_never_ends:
  assumes "\<not> is_moving s" and "target_x g = NaN \<or> target_y g = NaN"
    and "\<forall>t \<in> {target_x g, target_y g}. t = NaN \<or> (\<exists>x. t = Finite x \<and> \<bar>x\<bar> \<le> 10)"
    and "\<And>i. ok i" and "\<And>i. \<not> act i"
  shows "move_handle_goal (Some g) s = Inr Accept_and_execute
    \<and> execute_move ok act (move_handle_accepted c s, createMockGoalHandle (Some (Goal_msg g))) = None
    \<and> move_handle_goal (Some g') (move_handle_accepted c s) = Inr Reject_goal"
proof (intro conjI)
  show "move_handle_goal (Some g) s = Inr Accept_and_execute"
    using assms(1-3) by (auto simp: move_handle_goal_def)
  show "move_handle_goal (Some g') (move_handle_accepted c s) = Inr Reject_goal"
    by (simp add: move_handle_goal_def move_handle_accepted_def)
  let ?s = "move_handle_accepted c s" and ?h = "createMockGoalHandle (Some (Goal_msg g)) :: move_handle"
  have mock: "is_moving ?s" "is_mock ?h" "handle_goal_of ?h = Some g"
    by (simp_all add: move_handle_accepted_def createMockGoalHandle_def new_ServerGoalHandle_def handle_goal_of_def get_goal_def)
  have "move_loop ok act (Some g) step 0 (?s, ?h) \<noteq> Some r" for step r
    using nan_loop [where ok = ok and act = act, OF _ refl assms(2) mock(1,2) assms(4,5)] by blast
  then show "execute_move ok act (?s, ?h) = None"
    by (simp add: execute_move_def mock(3) Let_def) (metis not_None_eq)
qed

theorem nan_goal_never_ends_witness:
  "execute_move (\<lambda>_. True) (\<lambda>_. False) (move_handle_accepted (Some 1) new_move_server,
      createMockGoalHandle (Some (Goal_msg \<lparr>target_x = NaN, target_y = Finite 0\<rparr>))) = None"
  using nan_goal_never_ends [of new_move_server "\<lparr>target_x = NaN, target_y = Finite 0\<rparr>" "\<lambda>_. True" "\<lambda>_. False" "Some 1"]
  by (simp add: new_move_server_def)

text \<open>The two ways a move ends, with the position it ends at.\<close>

fun final_report :: "move_server \<Rightarrow> move_msg handle_call list \<Rightarrow> bool" where
  "final_report s [x] = (x = Succeed (result_at True ''Target reached successfully'' s) \<or>
     x = Canceled (result_at False ''Goal canceled'' s))"
| "final_report s _ = False"

text \<open>C32: Exactly one final report. However requests to cancel and the end of rclcpp interleave with the
  rounds, a thread that returns normally has reported only feedback before one final report, which
  carries the position the robot has stopped at: success or cancellation. Only when rclcpp shuts down is there none, and then the server still counts as moving.\<close>

theorem one_final_report:
  assumes "execute_move ok act (s, h) = Some (Inr (), (s', h'))" and "is_moving s" and "is_mock h"
  shows "\<exists>fs ends. handle_calls h' = handle_calls h @ map Publish_feedback fs @ ends
    \<and> (if is_moving s' then ends = [] \<and> (\<exists>i. \<not> ok i) else final_report s' ends)"
proof -
  have "is_moving s \<longrightarrow> is_mock h \<longrightarrow> (\<forall>s' h'. r = (Inr (), (s', h')) \<longrightarrow>
      (\<exists>fs ends. handle_calls h' = handle_calls h @ map Publish_feedback fs @ ends
        \<and> (if is_moving s' then ends = [] \<and> (\<exists>i. \<not> ok i) else final_report s' ends)))"
    if "move_loop ok act goal step i (s, h) = Some r" for goal step i r
    using that
  proof (induction rule: move_loop_induct)
    case (Round i s h g r p)
    let ?f = "Feedback_msg (calculate_feedback (current_x s) (current_y s) (target_x g) (target_y g))"
    show ?case
    proof (intro impI allI)
      fix s' h'
      assume "is_mock h" and "r = (Inr (), (s', h'))"
      then obtain fs ends where "handle_calls h' = (handle_calls h @ [Publish_feedback ?f]) @ map Publish_feedback fs @ ends"
        "if is_moving s' then ends = [] \<and> (\<exists>i. \<not> ok i) else final_report s' ends"
        using Round by (auto simp: report_def)
      then show "\<exists>fs ends. handle_calls h' = handle_calls h @ map Publish_feedback fs @ ends
          \<and> (if is_moving s' then ends = [] \<and> (\<exists>i. \<not> ok i) else final_report s' ends)"
        by (intro exI [of _ "?f # fs"] exI [of _ ends]) simp
    qed
  qed (auto simp: report_def result_at_def intro: exI [of _ "[]"])
  with assms show ?thesis by (auto simp: execute_move_def Let_def)
qed


lemma canceled_run:
  "execute_move (\<lambda>_. True) (\<lambda>_. True) (new_move_server\<lparr>is_moving := True\<rparr>, createMockGoalHandle None) =
     Some (Inr (), (new_move_server\<lparr>is_moving := False\<rparr>,
       report (Canceled (result_at False ''Goal canceled'' new_move_server)) (createMockGoalHandle None)))"
  by (simp add: execute_move_def move_loop.simps is_canceling_def createMockGoalHandle_def result_at_def Let_def)

theorem one_final_report_witness:
  "\<exists>fs ends. handle_calls (report (Canceled (result_at False ''Goal canceled'' new_move_server)) (createMockGoalHandle None)) =
      handle_calls (createMockGoalHandle None :: move_handle) @ map Publish_feedback fs @ ends
    \<and> (if is_moving (new_move_server\<lparr>is_moving := False\<rparr>) then ends = [] \<and> (\<exists>i::nat. \<not> True)
       else final_report (new_move_server\<lparr>is_moving := False\<rparr>) ends)"
  by (rule one_final_report [OF canceled_run]) (simp_all add: createMockGoalHandle_def)

section \<open>Driving the move by hand\<close>

text \<open>
  What a test does instead of starting the thread: complete the goal if possible, else make a
  single step, at most \<open>n\<close> times.
\<close>

fun drive :: "(nat \<Rightarrow> bool) \<Rightarrow> move_goal option \<Rightarrow> nat \<Rightarrow> nat \<Rightarrow> move_server \<times> move_handle
    \<Rightarrow> (move_server \<times> move_handle, bool) res" where
  "drive act goal 0 i sh = (Inr False, sh)"
| "drive act goal (Suc n) i sh =
     andthen (check_and_complete_goal (act i) goal sh)
       (\<lambda>done sh1. if done then (Inr True, sh1)
          else andthen (execute_single_step goal sh1) (\<lambda>_ sh2. drive act goal n (i + 1) sh2))"

lemma drive_follows:
  assumes "move_loop ok act goal (Finite (5368709 / 536870912)) i (s, h) = Some r"
  shows "is_mock h \<longrightarrow> (\<forall>s' h' k. r = (Inr (), (s', h')) \<longrightarrow> is_moving s \<longrightarrow> \<not> is_moving s' \<longrightarrow> is_mock k \<longrightarrow>
    (\<exists>n k'. drive act goal n i (s, k) = (Inr True, (s', k')) \<and> last (handle_calls k') = last (handle_calls h')))"
  using assms
proof (induction rule: move_loop_induct)
  case (Cancel i s h)
  then show ?case
    by (auto intro!: exI [of _ 1] simp: check_and_complete_goal_def is_canceling_def report_def)
next
  case (Reached i s h g)
  then show ?case
    by (auto intro!: exI [of _ 1] simp: check_and_complete_goal_def is_canceling_def report_def)
next
  case (Round i s h g r p)
  show ?case
  proof (intro impI allI)
    fix s' h' and k :: move_handle
    assume "is_mock h" and r: "r = (Inr (), (s', h'))" "\<not> is_moving s'" and k: "is_mock k"
    let ?s = "s\<lparr>current_x := fst p, current_y := snd p\<rparr>"
    let ?f = "Feedback_msg (calculate_feedback (fst p) (snd p) (target_x g) (target_y g))"
    have "is_mock (report (Publish_feedback ?f) k)" "is_moving ?s" using k Round.hyps(1) by simp_all
    then obtain n k' where "drive act goal n (i + 1) (?s, report (Publish_feedback ?f) k) = (Inr True, (s', k'))"
      "last (handle_calls k') = last (handle_calls h')"
      using Round.IH [unfolded report_fields] r \<open>is_mock h\<close> by blast
    moreover have "\<not> act i" using Round.hyps(2) \<open>is_mock h\<close> by (simp add: is_canceling_def)
    ultimately show "\<exists>n k'. drive act goal n i (s, k) = (Inr True, (s', k')) \<and> last (handle_calls k') = last (handle_calls h')"
      using Round.hyps k
      by (intro exI [of _ "Suc n"] exI [of _ k'])
         (simp add: check_and_complete_goal_def is_canceling_def execute_single_step_def step_values split_beta Let_def)
  qed
qed auto


text \<open>C33: Single steps and the thread agree. Whatever a thread does until the move is over, calling
  \<open>check_and_complete_goal\<close> and \<open>execute_single_step\<close> in turn with the same answers of
  \<open>is_canceling\<close> leads to the same final position and state and to the same final report; only the
  feedback differs, which the thread computes before a step and \<open>execute_single_step\<close> after it.\<close>

theorem driven_move_agrees:
  assumes "execute_move ok act (s, h) = Some (Inr (), (s', h'))" and "is_moving s" and "\<not> is_moving s'" and "is_mock h"
  shows "\<exists>n k'. drive act (handle_goal_of h) n 0 (s, h) = (Inr True, (s', k')) \<and> last (handle_calls k') = last (handle_calls h')"
  using drive_follows [of ok act "handle_goal_of h" 0 s h "(Inr (), (s', h'))"] assms
  by (simp add: execute_move_def step_values)

theorem driven_move_agrees_witness:
  "\<exists>n k'. drive (\<lambda>_. True) (handle_goal_of (createMockGoalHandle None)) n 0 (new_move_server\<lparr>is_moving := True\<rparr>, createMockGoalHandle None) =
      (Inr True, (new_move_server\<lparr>is_moving := False\<rparr>, k'))
    \<and> last (handle_calls k') = last (handle_calls (report (Canceled (result_at False ''Goal canceled'' new_move_server)) (createMockGoalHandle None)))"
  by (rule driven_move_agrees [OF canceled_run]) (simp_all add: createMockGoalHandle_def)

end
