(* ===== verification/Example_Action_Threads.thy ===== *)
theory Example_Action_Threads
  imports Example_Action_Server
begin

text \<open>
  The example action server with its threads. \<open>handle_accepted\<close> detaches a thread per accepted goal;
  its loop, the callbacks that an executor runs, the shutdown of rclcpp and the destruction of the
  node interleave. A thread is cut at the points where it reads or writes members of the node or
  reports: the test of the loop, the test for a cancel request, the test for the target, the move,
  and the way out after the final report. Each piece runs on its own; what the compiler or the
  memory model may do inside a piece is left out.
\<close>

section \<open>A thread\<close>

datatype point = Loop_test | Cancel_test | Reached_test | Moving move_feedback | Leaving

text \<open>
  One piece, given what \<open>rclcpp::ok()\<close> and, for a mocked handle, \<open>is_canceling()\<close> answer: the node,
  the handle, and the next point, or none when the thread has returned.
\<close>

fun thread_step :: "bool \<Rightarrow> bool \<Rightarrow> move_server \<Rightarrow> move_handle \<Rightarrow> point
    \<Rightarrow> exn + (move_server \<times> move_handle \<times> point option)" where
  "thread_step ok act s h Loop_test = Inr (s, h, if ok \<and> is_moving s then Some Cancel_test else None)"
| "thread_step ok act s h Cancel_test =
     (if is_canceling act h
      then Inr (s, report (Canceled (result_at False ''Goal canceled'' s)) h, Some Leaving)
      else Inr (s, h, Some Reached_test))"
| "thread_step ok act s h Reached_test = (case handle_goal_of h of
      None \<Rightarrow> Inl (Undefined Null_dereference)
    | Some g \<Rightarrow>
        if is_goal_reached (current_x s) (current_y s) (target_x g) (target_y g)
        then Inr (s, report (Succeed (result_at True ''Target reached successfully'' s)) h, Some Leaving)
        else Inr (s, h, Some (Moving (calculate_feedback (current_x s) (current_y s) (target_x g) (target_y g)))))"
| "thread_step ok act s h (Moving f) = (case handle_goal_of h of
      None \<Rightarrow> Inl (Undefined Null_dereference)
    | Some g \<Rightarrow>
        let step_size = fp_mul binary32 (Finite 1) (rnd binary32 (1 / 100));
            p = calculate_next_position (current_x s) (current_y s) (target_x g) (target_y g) step_size
        in Inr (s\<lparr>current_x := fst p, current_y := snd p\<rparr>, report (Publish_feedback (Feedback_msg f)) h, Some Loop_test))"
| "thread_step ok act s h Leaving = Inr (s\<lparr>is_moving := False\<rparr>, h, None)"

section \<open>The system\<close>

text \<open>
  \<open>accepted\<close> are the goals an executor has accepted and for which it has not yet run
  \<open>handle_accepted\<close>; \<open>ended\<close> are the handles of threads that have returned.
\<close>

record move_system =
  rclcpp_ok :: bool
  node_alive :: bool
  server_state :: move_server
  accepted :: "move_handle list"
  threads :: "(move_handle \<times> point) list"
  ended :: "move_handle list"

definition start_system :: move_system where
  "start_system = \<lparr>rclcpp_ok = True, node_alive = True, server_state = new_move_server, accepted = [], threads = [], ended = []\<rparr>"

text \<open>
  The server is created in the default callback group of the node, which is mutually exclusive: at most
  one callback of the node runs at a time, so at most one goal is between acceptance and
  \<open>handle_accepted\<close>. An executor keeps the node alive while it runs a callback, so the node is
  destroyed only when there is none; the detached threads do not keep it alive. A shutdown is final:
  rclcpp is not initialised again.
\<close>

inductive move_step :: "move_system \<Rightarrow> move_system \<Rightarrow> bool" where
  Request: "node_alive y \<Longrightarrow> accepted y = [] \<Longrightarrow>
    move_handle_goal (handle_goal_of h) (server_state y) = Inr Accept_and_execute \<Longrightarrow> is_mock h \<Longrightarrow> handle_calls h = [] \<Longrightarrow>
    move_step y (y\<lparr>accepted := accepted y @ [h]\<rparr>)"
| Accepted: "accepted y = hs @ h # hs' \<Longrightarrow>
    move_step y (y\<lparr>accepted := hs @ hs', server_state := move_handle_accepted c (server_state y),
      threads := threads y @ [(h, Loop_test)]\<rparr>)"
| Thread: "node_alive y \<Longrightarrow> threads y = ts @ (h, p) # ts' \<Longrightarrow>
    thread_step (rclcpp_ok y) act (server_state y) h p = Inr (s, h', Some p') \<Longrightarrow>
    move_step y (y\<lparr>server_state := s, threads := ts @ (h', p') # ts'\<rparr>)"
| Return: "node_alive y \<Longrightarrow> threads y = ts @ (h, p) # ts' \<Longrightarrow>
    thread_step (rclcpp_ok y) act (server_state y) h p = Inr (s, h', None) \<Longrightarrow>
    move_step y (y\<lparr>server_state := s, threads := ts @ ts', ended := ended y @ [h']\<rparr>)"
| Shutdown: "move_step y (y\<lparr>rclcpp_ok := False\<rparr>)"
| Destroy: "accepted y = [] \<Longrightarrow> move_step y (y\<lparr>node_alive := False\<rparr>)"

inductive move_reachable :: "move_system \<Rightarrow> bool" where
  start: "move_reachable start_system"
| move: "move_reachable y \<Longrightarrow> move_step y y' \<Longrightarrow> move_reachable y'"

inductive_cases move_step_cases [consumes 1, case_names Request Accepted Thread Return Shutdown Destroy]: "move_step y y'"

lemma move_reachable_star:
  "move_step\<^sup>*\<^sup>* y y' \<Longrightarrow> move_reachable y \<Longrightarrow> move_reachable y'"
  by (induction rule: rtranclp_induct) (auto intro: move_reachable.move)

section \<open>The invariant\<close>

text \<open>What the calls of a handle look like while its thread runs, and after it has returned.\<close>

definition only_feedback :: "move_handle \<Rightarrow> bool" where
  "only_feedback h \<longleftrightarrow> is_mock h \<and> (\<exists>fs. handle_calls h = map Publish_feedback fs)"

definition one_final :: "move_handle \<Rightarrow> bool" where
  "one_final h \<longleftrightarrow> is_mock h \<and> (\<exists>fs r. handle_calls h = map Publish_feedback fs @ [r] \<and>
     (\<exists>s. r = Succeed (result_at True ''Target reached successfully'' s) \<or> r = Canceled (result_at False ''Goal canceled'' s)))"

fun reports_so_far :: "move_handle \<times> point \<Rightarrow> bool" where
  "reports_so_far (h, Leaving) = one_final h"
| "reports_so_far (h, _) = only_feedback h"

definition system_ok :: "move_system \<Rightarrow> bool" where
  "system_ok y \<longleftrightarrow>
     length (accepted y) + length (threads y) \<le> 1 \<and>
     (accepted y \<noteq> [] \<longrightarrow> \<not> is_moving (server_state y)) \<and>
     (threads y \<noteq> [] \<longrightarrow> is_moving (server_state y)) \<and>
     (rclcpp_ok y \<and> is_moving (server_state y) \<longrightarrow> threads y \<noteq> []) \<and>
     list_all only_feedback (accepted y) \<and> list_all reports_so_far (threads y) \<and>
     list_all (\<lambda>h. one_final h \<or> only_feedback h \<and> \<not> rclcpp_ok y) (ended y)"

lemma only_feedback_report:
  "only_feedback h \<Longrightarrow> only_feedback (report (Publish_feedback f) h)"
  by (auto simp: only_feedback_def report_def intro: exI [of _ "_ @ [f]"])

lemma only_feedback_final:
  "only_feedback h \<Longrightarrow> one_final (report (Succeed (result_at True ''Target reached successfully'' s)) h)"
  "only_feedback h \<Longrightarrow> one_final (report (Canceled (result_at False ''Goal canceled'' s)) h)"
  by (auto simp: only_feedback_def one_final_def report_def)

lemma thread_step_ok:
  assumes "thread_step ok act s h p = Inr (s', h', q)" and "reports_so_far (h, p)" and "is_moving s"
  shows "case q of
      Some p' \<Rightarrow> reports_so_far (h', p') \<and> is_moving s'
    | None \<Rightarrow> (one_final h' \<and> \<not> is_moving s') \<or> (only_feedback h' \<and> \<not> ok)"
  using assms
  by (cases p) (auto simp: only_feedback_report only_feedback_final Let_def split: if_splits option.splits)

lemma move_step_ok:
  assumes "move_step y y'" and "system_ok y"
  shows "system_ok y'"
  using assms
proof (cases rule: move_step_cases)
  case (Request h)
  then have "accepted y = []" "\<not> is_moving (server_state y)"
    by (auto simp: move_handle_goal_def split: option.splits if_splits)
  moreover from this have "threads y = []" using assms(2) by (auto simp: system_ok_def)
  ultimately show ?thesis using Request assms(2) by (auto simp: system_ok_def only_feedback_def)
next
  case (Accepted hs h hs' c)
  then have "hs = []" "hs' = []" "threads y = []" using assms(2) by (auto simp: system_ok_def)
  then show ?thesis using Accepted assms(2) by (auto simp: system_ok_def move_handle_accepted_def)
next
  case (Thread ts h p ts' act s h' p')
  then have "ts = []" "ts' = []" "accepted y = []" "reports_so_far (h, p)" "is_moving (server_state y)"
    using assms(2) by (auto simp: system_ok_def)
  with thread_step_ok [OF Thread(4)] Thread assms(2) show ?thesis by (auto simp: system_ok_def)
next
  case (Return ts h p ts' act s h')
  then have "ts = []" "ts' = []" "accepted y = []" "reports_so_far (h, p)" "is_moving (server_state y)"
    using assms(2) by (auto simp: system_ok_def)
  with thread_step_ok [OF Return(4)] Return assms(2) show ?thesis by (auto simp: system_ok_def)
qed (auto simp: system_ok_def list_all_iff)

lemma reachable_system_ok: "move_reachable y \<Longrightarrow> system_ok y"
proof (induction rule: move_reachable.induct)
  case start
  then show ?case by (simp add: system_ok_def start_system_def new_move_server_def)
qed (rule move_step_ok)

section \<open>A thread alone runs \<open>execute_move\<close>\<close>

text \<open>The system in which only one thread runs, at the test of its loop.\<close>

definition lone_thread :: "move_system \<Rightarrow> move_server \<Rightarrow> move_handle \<Rightarrow> point \<Rightarrow> move_system" where
  "lone_thread y s h p = y\<lparr>server_state := s, threads := [(h, p)]\<rparr>"

lemma lone_step:
  assumes "node_alive y" and "thread_step (rclcpp_ok y) act s h p = Inr (s', h', q)"
  shows "move_step (lone_thread y s h p) (case q of
      Some p' \<Rightarrow> lone_thread y s' h' p'
    | None \<Rightarrow> y\<lparr>server_state := s', threads := [], ended := ended y @ [h']\<rparr>)"
proof (cases q)
  case None
  then show ?thesis
    using move_step.Return [of "lone_thread y s h p" "[]" h p "[]" act s' h'] assms by (simp add: lone_thread_def)
next
  case (Some p')
  then show ?thesis
    using move_step.Thread [of "lone_thread y s h p" "[]" h p "[]" act s' h' p'] assms by (simp add: lone_thread_def)
qed

lemmas lone_continue = lone_step [where q = "Some _", simplified]
  and lone_return = lone_step [where q = None, simplified]

lemma handle_goal_of_report [simp]: "handle_goal_of (report x h) = handle_goal_of h"
  by (simp add: handle_goal_of_def get_goal_def)

text \<open>The pieces of one round, in the four ways it can go.\<close>

lemma lone_leaving:
  assumes "node_alive y"
  shows "move_step (lone_thread y s h Leaving) (y\<lparr>server_state := s\<lparr>is_moving := False\<rparr>, threads := [], ended := ended y @ [h]\<rparr>)"
  by (rule lone_return [OF assms]) simp

lemma lone_canceled:
  assumes "node_alive y" "rclcpp_ok y" "is_moving s" "is_canceling act h"
  shows "move_step\<^sup>*\<^sup>* (lone_thread y s h Loop_test) (y\<lparr>server_state := s\<lparr>is_moving := False\<rparr>, threads := [],
    ended := ended y @ [report (Canceled (result_at False ''Goal canceled'' s)) h]\<rparr>)"
proof -
  have "move_step (lone_thread y s h Loop_test) (lone_thread y s h Cancel_test)"
    by (rule lone_continue [OF assms(1)]) (use assms(2,3) in simp)
  moreover have "move_step (lone_thread y s h Cancel_test)
      (lone_thread y s (report (Canceled (result_at False ''Goal canceled'' s)) h) Leaving)"
    by (rule lone_continue [OF assms(1), where act = act]) (use assms(4) in simp)
  ultimately show ?thesis
    by (blast intro: converse_rtranclp_into_rtranclp lone_leaving [OF assms(1)] r_into_rtranclp)
qed

lemma lone_past_cancel:
  assumes "node_alive y" "rclcpp_ok y" "is_moving s" "\<not> is_canceling act h"
  shows "move_step\<^sup>*\<^sup>* (lone_thread y s h Loop_test) (lone_thread y s h Reached_test)"
proof -
  have "move_step (lone_thread y s h Loop_test) (lone_thread y s h Cancel_test)"
    by (rule lone_continue [OF assms(1)]) (use assms(2,3) in simp)
  moreover have "move_step (lone_thread y s h Cancel_test) (lone_thread y s h Reached_test)"
    by (rule lone_continue [OF assms(1), where act = act]) (use assms(4) in simp)
  ultimately show ?thesis by (rule converse_rtranclp_into_rtranclp [OF _ r_into_rtranclp])
qed

lemma lone_reached:
  assumes "node_alive y" "rclcpp_ok y" "is_moving s" "\<not> is_canceling act h" "handle_goal_of h = Some g"
    and "is_goal_reached (current_x s) (current_y s) (target_x g) (target_y g)"
  shows "move_step\<^sup>*\<^sup>* (lone_thread y s h Loop_test) (y\<lparr>server_state := s\<lparr>is_moving := False\<rparr>, threads := [],
    ended := ended y @ [report (Succeed (result_at True ''Target reached successfully'' s)) h]\<rparr>)"
proof -
  have "move_step (lone_thread y s h Reached_test)
      (lone_thread y s (report (Succeed (result_at True ''Target reached successfully'' s)) h) Leaving)"
    by (rule lone_continue [OF assms(1)]) (use assms(5,6) in simp)
  then show ?thesis
    by (rule rtranclp.rtrancl_into_rtrancl [OF rtranclp.rtrancl_into_rtrancl [OF lone_past_cancel [OF assms(1-4)]] lone_leaving [OF assms(1)]])
qed

lemma lone_round:
  assumes "node_alive y" "rclcpp_ok y" "is_moving s" "\<not> is_canceling act h" "handle_goal_of h = Some g"
    and "\<not> is_goal_reached (current_x s) (current_y s) (target_x g) (target_y g)"
    and "p = calculate_next_position (current_x s) (current_y s) (target_x g) (target_y g) (Finite (5368709 / 536870912))"
  shows "move_step\<^sup>*\<^sup>* (lone_thread y s h Loop_test) (lone_thread y (s\<lparr>current_x := fst p, current_y := snd p\<rparr>)
    (report (Publish_feedback (Feedback_msg (calculate_feedback (current_x s) (current_y s) (target_x g) (target_y g)))) h) Loop_test)"
proof -
  let ?f = "calculate_feedback (current_x s) (current_y s) (target_x g) (target_y g)"
  have "move_step (lone_thread y s h Reached_test) (lone_thread y s h (Moving ?f))"
    by (rule lone_continue [OF assms(1)]) (use assms(5,6) in simp)
  moreover have "move_step (lone_thread y s h (Moving ?f))
      (lone_thread y (s\<lparr>current_x := fst p, current_y := snd p\<rparr>) (report (Publish_feedback (Feedback_msg ?f)) h) Loop_test)"
    by (rule lone_continue [OF assms(1)]) (use assms(5,7) in \<open>simp add: step_values Let_def\<close>)
  ultimately show ?thesis
    by (rule rtranclp.rtrancl_into_rtrancl [OF rtranclp.rtrancl_into_rtrancl [OF lone_past_cancel [OF assms(1-4)]]])
qed

lemma lone_thread_runs:
  assumes "move_loop (\<lambda>_. True) act goal (Finite (5368709 / 536870912)) i (s, h) = Some r"
  shows "node_alive y \<longrightarrow> rclcpp_ok y \<longrightarrow> is_moving s \<longrightarrow> handle_goal_of h = goal \<longrightarrow> (\<forall>s' h'. r = (Inr (), (s', h')) \<longrightarrow>
    move_step\<^sup>*\<^sup>* (lone_thread y s h Loop_test) (y\<lparr>server_state := s', threads := [], ended := ended y @ [h']\<rparr>))"
  using assms
proof (induction rule: move_loop_induct)
  case (Cancel i s h)
  then show ?case using lone_canceled by blast
next
  case (Reached i s h g)
  then show ?case using lone_reached by blast
next
  case (Round i s h g r p)
  show ?case
  proof (intro impI allI)
    fix s' h'
    assume y: "node_alive y" "rclcpp_ok y" and h: "handle_goal_of h = goal" and r: "r = (Inr (), (s', h'))"
    note step = lone_round [OF y Round.hyps(1,2) _ Round.hyps(4,5)]
    show "move_step\<^sup>*\<^sup>* (lone_thread y s h Loop_test) (y\<lparr>server_state := s', threads := [], ended := ended y @ [h']\<rparr>)"
      using Round.IH y h r Round.hyps(1,3) step by (auto intro: rtranclp_trans)
  qed
qed auto

section \<open>Properties\<close>

text \<open>C21: One mover. However the callbacks of the server, the detached threads, the
  shutdown of rclcpp and the destruction of the node interleave, at most one thread moves the
  robot, and only while the server counts as moving; until rclcpp shuts down the server counts as
  moving only while a thread runs. A thread that has returned has reported feedback and then
  exactly one result, or rclcpp was shut down.\<close>

theorem one_mover:
  assumes "move_reachable y"
  shows "length (threads y) \<le> 1
    \<and> (threads y \<noteq> [] \<longrightarrow> is_moving (server_state y))
    \<and> (rclcpp_ok y \<and> is_moving (server_state y) \<longrightarrow> threads y \<noteq> [])
    \<and> (\<forall>h \<in> set (ended y). one_final h \<or> only_feedback h \<and> \<not> rclcpp_ok y)"
  using reachable_system_ok [OF assms] by (simp add: system_ok_def list_all_iff)

text \<open>A system in which a goal has been accepted, with its thread.\<close>

definition near_handle :: move_handle where
  "near_handle = createMockGoalHandle (Some (Goal_msg \<lparr>target_x = Finite 0, target_y = Finite 0\<rparr>))"

definition moving_system :: move_system where
  "moving_system = start_system\<lparr>server_state := move_handle_accepted None new_move_server, threads := [(near_handle, Loop_test)]\<rparr>"

lemma near_handle_accepted:
  "move_handle_goal (handle_goal_of near_handle) new_move_server = Inr Accept_and_execute"
  "is_mock near_handle" "handle_calls near_handle = []"
  by code_simp+

lemma reachable_moving_system: "move_reachable moving_system"
proof -
  have "move_reachable (start_system\<lparr>accepted := [near_handle]\<rparr>)"
    using move_reachable.move [OF move_reachable.start move_step.Request [of start_system near_handle]] near_handle_accepted
    by (simp add: start_system_def)
  from move_reachable.move [OF this move_step.Accepted [of _ "[]" near_handle "[]" None]] show ?thesis
    by (simp add: moving_system_def start_system_def)
qed

theorem one_mover_witness:
  "threads moving_system = [(near_handle, Loop_test)] \<and> is_moving (server_state moving_system) \<and> length (threads moving_system) \<le> 1"
  using one_mover [OF reachable_moving_system] by (simp add: moving_system_def)

text \<open>C37: A thread that no other activity disturbs does what \<open>execute_move\<close> does: whenever that function
  returns with some node and handle, the pieces of the thread lead the system to that node, with the
  thread gone and the handle as \<open>execute_move\<close> left it.\<close>

theorem thread_implements_move:
  assumes "execute_move (\<lambda>_. True) act (s, h) = Some (Inr (), (s', h'))" and "is_moving s"
    and "node_alive y" and "rclcpp_ok y" and "server_state y = s" and "threads y = [(h, Loop_test)]"
  shows "move_step\<^sup>*\<^sup>* y (y\<lparr>server_state := s', threads := [], ended := ended y @ [h']\<rparr>)"
proof -
  have "y = lone_thread y s h Loop_test" using assms(5,6) by (simp add: lone_thread_def)
  then show ?thesis
    using lone_thread_runs [of act "handle_goal_of h" 0 s h "(Inr (), (s', h'))" y] assms(1-4)
    by (simp add: execute_move_def step_values)
qed

theorem thread_implements_move_witness:
  "move_step\<^sup>*\<^sup>* moving_system (moving_system\<lparr>server_state := (move_handle_accepted None new_move_server)\<lparr>is_moving := False\<rparr>,
     threads := [], ended := [report (Canceled (result_at False ''Goal canceled'' (move_handle_accepted None new_move_server))) near_handle]\<rparr>)"
proof -
  let ?s = "move_handle_accepted None new_move_server"
  have "execute_move (\<lambda>_. True) (\<lambda>_. True) (?s, near_handle) = Some (Inr (), (?s\<lparr>is_moving := False\<rparr>,
      report (Canceled (result_at False ''Goal canceled'' ?s)) near_handle))"
    by (simp add: execute_move_def move_loop.simps is_canceling_def near_handle_def createMockGoalHandle_def
        move_handle_accepted_def Let_def)
  from thread_implements_move [OF this, of moving_system] show ?thesis
    by (simp add: moving_system_def start_system_def move_handle_accepted_def)
qed





end
