(* ===== verification/Example_Action_Client.thy ===== *)
theory Example_Action_Client
  imports Example_Action_Server Action_Client_Mock
begin

text \<open>
  The example node \<open>test_composition::ActionClient\<close> (action_client.cpp) on top of the action client
  of this library. The callbacks it passes with a goal are run by other threads or by the
  expectation of a mock; \<open>deliver\<close> runs one. Lines written to the log carry no state and are left
  out; what they dereference is kept.
\<close>

section \<open>State and callbacks\<close>

abbreviation MoveRobot :: tyname where
  "MoveRobot \<equiv> ''rtest_examples_interfaces::action::MoveRobot''"

record move_client =
  active_goal_handle :: "ctrl option"
  last_result_success :: bool
  last_result_message :: string
  last_feedback :: move_feedback
  feedback_received :: bool

definition new_ActionClient :: move_client where
  "new_ActionClient = \<lparr>active_goal_handle = None, last_result_success = False, last_result_message = '''',
     last_feedback = \<lparr>feedback_x = Finite 0, feedback_y = Finite 0, distance_remaining = Finite 0\<rparr>,
     feedback_received = False\<rparr>"

text \<open>The client the constructor creates on its node, owned by \<open>action_client_\<close>.\<close>

definition create_move_client :: "ctrl \<Rightarrow> addr \<Rightarrow> ctrl \<Rightarrow> move_msg world \<Rightarrow> move_msg world" where
  "create_move_client c a node w =
     (let w1 = new_action_client a \<lparr>aclient_type = MoveRobot, aclient_action_name = ''move_robot'', aclient_node = Some node,
                 goal_handles = []\<rparr> ''/move_robot_client'' w
      in w1\<lparr>memory := adopt c a (memory w1)\<rparr>)"

definition has_active_goal :: "move_client \<Rightarrow> bool" where
  "has_active_goal n \<longleftrightarrow> active_goal_handle n \<noteq> None"

definition get_last_result_success :: "move_client \<Rightarrow> bool" where
  "get_last_result_success n = last_result_success n"

definition get_last_result_message :: "move_client \<Rightarrow> string" where
  "get_last_result_message n = last_result_message n"

definition has_received_feedback :: "move_client \<Rightarrow> bool" where
  "has_received_feedback n = feedback_received n"

definition get_last_feedback :: "move_client \<Rightarrow> move_feedback" where
  "get_last_feedback n = last_feedback n"

definition move_goal_response_callback :: "ctrl option \<Rightarrow> move_client \<Rightarrow> move_client" where
  "move_goal_response_callback goal_handle n = (case goal_handle of
      None \<Rightarrow> n\<lparr>active_goal_handle := None\<rparr>
    | Some h \<Rightarrow> n\<lparr>active_goal_handle := Some h\<rparr>)"

definition move_feedback_callback :: "move_feedback option \<Rightarrow> move_client \<Rightarrow> (move_client, unit) res" where
  "move_feedback_callback feedback n = (case feedback of
      None \<Rightarrow> (Inl (Undefined Null_dereference), n)
    | Some f \<Rightarrow> (Inr (), n\<lparr>last_feedback := f, feedback_received := True\<rparr>))"

definition move_result_callback :: "move_result wrapped_result \<Rightarrow> move_client \<Rightarrow> (move_client, unit) res" where
  "move_result_callback r n =
     (let n1 = n\<lparr>active_goal_handle := None\<rparr>
      in case code r of
           SUCCEEDED \<Rightarrow> (case result r of
               None \<Rightarrow> (Inl (Undefined Null_dereference), n1)
             | Some m \<Rightarrow> (Inr (), n1\<lparr>last_result_success := success m, last_result_message := message m\<rparr>))
         | ABORTED \<Rightarrow> (Inr (), n1\<lparr>last_result_success := False, last_result_message := ''Goal aborted''\<rparr>)
         | CANCELED \<Rightarrow> (Inr (), n1\<lparr>last_result_success := False, last_result_message := ''Goal canceled''\<rparr>)
         | UNKNOWN \<Rightarrow> (Inr (), n1\<lparr>last_result_success := False, last_result_message := ''Unknown result code''\<rparr>))"

section \<open>Callbacks that are run\<close>

datatype client_event =
    Goal_response "ctrl option"
  | Feedback "move_feedback option"
  | Result "move_result wrapped_result"

fun deliver :: "client_event \<Rightarrow> move_client \<Rightarrow> (move_client, unit) res" where
  "deliver (Goal_response h) n = (Inr (), move_goal_response_callback h n)"
| "deliver (Feedback f) n = move_feedback_callback f n"
| "deliver (Result r) n = move_result_callback r n"

fun deliver_all :: "client_event list \<Rightarrow> move_client \<Rightarrow> (move_client, unit) res" where
  "deliver_all [] n = (Inr (), n)"
| "deliver_all (e # es) n = andthen (deliver e n) (\<lambda>_. deliver_all es)"

section \<open>Sending and canceling\<close>

text \<open>The three lambdas passed with a goal, by number.\<close>

definition move_options :: send_goal_options where
  "move_options = SendGoalOptions\<lparr>goal_response_cb := Some 0, feedback_cb := Some 1, result_cb := Some 2\<rparr>"

text \<open>
  \<open>during\<close> are the callbacks run until the future is read, \<open>arrives\<close> what a pending future becomes
  within a second.
\<close>

definition send_goal ::
  "(move_msg action_call \<Rightarrow> exn + bool) \<Rightarrow> (move_msg action_call \<Rightarrow> exn + ctrl option fut) \<Rightarrow> client_event list
     \<Rightarrow> ctrl option option \<Rightarrow> addr \<Rightarrow> fp \<Rightarrow> fp \<Rightarrow> move_msg world \<times> move_client
     \<Rightarrow> (move_msg world \<times> move_client, unit) res" where
  "send_goal act_ready act during arrives this x y wn =
     andthen (on_world (action_server_is_ready act_ready this MoveRobot (fst wn)) (snd wn))
       (\<lambda>ready wn1. if \<not> ready then (Inr (), wn1)
          else andthen (on_world (async_send_goal act this MoveRobot (Goal_msg \<lparr>target_x = x, target_y = y\<rparr>) move_options (fst wn1)) (snd wn1))
            (\<lambda>f wn2. case deliver_all during (snd wn2) of
                (Inl e, n) \<Rightarrow> (Inl e, (fst wn2, n))
              | (Inr _, n) \<Rightarrow>
                  (case (case f of Ready h \<Rightarrow> Some h | _ \<Rightarrow> arrives) of
                     None \<Rightarrow> (Inr (), (fst wn2, n))
                   | Some h \<Rightarrow> (Inr (), (fst wn2, n\<lparr>active_goal_handle := h\<rparr>)))))"

definition cancel_current_goal ::
  "(move_msg action_call \<Rightarrow> exn + move_msg fut) \<Rightarrow> move_msg \<Rightarrow> addr \<Rightarrow> move_msg world \<times> move_client
     \<Rightarrow> (move_msg world \<times> move_client, unit) res" where
  "cancel_current_goal act blank this wn =
     (if active_goal_handle (snd wn) \<noteq> None
      then andthen (on_world (async_cancel_goal act blank this MoveRobot (active_goal_handle (snd wn)) None (fst wn)) (snd wn))
             (\<lambda>_ wn1. (Inr (), wn1))
      else (Inr (), wn))"

section \<open>What a sequence of callbacks leaves\<close>

text \<open>The reference: the last callback of each kind decides.\<close>

fun last_that :: "('a \<Rightarrow> 'b option) \<Rightarrow> 'b \<Rightarrow> 'a list \<Rightarrow> 'b" where
  "last_that f d xs = (case rev (List.map_filter f xs) of [] \<Rightarrow> d | y # _ \<Rightarrow> y)"

fun goal_of_event :: "client_event \<Rightarrow> ctrl option option" where
  "goal_of_event (Goal_response h) = Some h"
| "goal_of_event (Result _) = Some None"
| "goal_of_event (Feedback _) = None"

fun feedback_of_event :: "client_event \<Rightarrow> move_feedback option" where
  "feedback_of_event (Feedback f) = f"
| "feedback_of_event _ = None"

definition outcome_of :: "move_result wrapped_result \<Rightarrow> bool \<times> string" where
  "outcome_of r = (case code r of
      SUCCEEDED \<Rightarrow> (success (the (result r)), message (the (result r)))
    | ABORTED \<Rightarrow> (False, ''Goal aborted'')
    | CANCELED \<Rightarrow> (False, ''Goal canceled'')
    | UNKNOWN \<Rightarrow> (False, ''Unknown result code''))"

fun result_of_event :: "client_event \<Rightarrow> (bool \<times> string) option" where
  "result_of_event (Result r) = Some (outcome_of r)"
| "result_of_event _ = None"

text \<open>Pointers the callbacks dereference.\<close>

fun event_defined :: "client_event \<Rightarrow> bool" where
  "event_defined (Goal_response _) = True"
| "event_defined (Feedback f) = (f \<noteq> None)"
| "event_defined (Result r) = (code r = SUCCEEDED \<longrightarrow> result r \<noteq> None)"

lemma last_that_Cons: "last_that f d (x # xs) = last_that f (case f x of None \<Rightarrow> d | Some y \<Rightarrow> y) xs"
  by (auto simp: List.map_filter_def split: list.splits option.splits)

lemma last_that_Nil: "last_that f d [] = d"
  by (simp add: List.map_filter_def)

lemmas last_that_step = last_that_Cons last_that_Nil

declare last_that.simps [simp del]

lemmas move_client_getters = get_last_feedback_def get_last_result_success_def get_last_result_message_def has_received_feedback_def

lemma deliver_effect:
  assumes "event_defined e"
  shows "\<exists>n'. deliver e n = (Inr (), n')
    \<and> active_goal_handle n' = (case goal_of_event e of None \<Rightarrow> active_goal_handle n | Some h \<Rightarrow> h)
    \<and> get_last_feedback n' = (case feedback_of_event e of None \<Rightarrow> get_last_feedback n | Some f \<Rightarrow> f)
    \<and> (get_last_result_success n', get_last_result_message n') =
       (case result_of_event e of None \<Rightarrow> (get_last_result_success n, get_last_result_message n) | Some r \<Rightarrow> r)
    \<and> (has_received_feedback n' \<longleftrightarrow> has_received_feedback n \<or> feedback_of_event e \<noteq> None)"
  using assms
  by (cases e) (auto simp: move_goal_response_callback_def move_feedback_callback_def move_result_callback_def outcome_of_def
      move_client_getters Let_def split: option.split result_code.split)

text \<open>All callbacks, with the handle itself rather than whether there is one.\<close>

lemma deliver_all_effect:
  assumes "list_all event_defined es"
  shows "\<exists>n'. deliver_all es n = (Inr (), n')
    \<and> active_goal_handle n' = last_that goal_of_event (active_goal_handle n) es
    \<and> (get_last_result_success n', get_last_result_message n') =
        last_that result_of_event (get_last_result_success n, get_last_result_message n) es
    \<and> get_last_feedback n' = last_that feedback_of_event (get_last_feedback n) es
    \<and> (has_received_feedback n' \<longleftrightarrow> has_received_feedback n \<or> list_ex (\<lambda>e. feedback_of_event e \<noteq> None) es)"
  using assms
proof (induction es arbitrary: n)
  case (Cons e es)
  obtain n1 where n1: "deliver e n = (Inr (), n1)"
    "active_goal_handle n1 = (case goal_of_event e of None \<Rightarrow> active_goal_handle n | Some h \<Rightarrow> h)"
    "get_last_feedback n1 = (case feedback_of_event e of None \<Rightarrow> get_last_feedback n | Some f \<Rightarrow> f)"
    "(get_last_result_success n1, get_last_result_message n1) =
       (case result_of_event e of None \<Rightarrow> (get_last_result_success n, get_last_result_message n) | Some r \<Rightarrow> r)"
    "has_received_feedback n1 \<longleftrightarrow> has_received_feedback n \<or> feedback_of_event e \<noteq> None"
    using deliver_effect [of e n] Cons.prems by auto
  from Cons.IH [of n1] Cons.prems n1(1) show ?case by (simp add: last_that_Cons flip: n1(2-5)) (auto simp: n1(5))
qed (simp add: last_that_Nil)

text \<open>The state of the example action client after any sequence of its callbacks (with the pointers
  they read set) is decided by the last callback of each kind: the goal is active exactly when the
  last response or result was an accepting response, the result read is the one of the last result
  by its code, and the feedback read is the last one. No callback fails.\<close>

lemma client_callbacks_latest:
  assumes "list_all event_defined es"
  shows "\<exists>n'. deliver_all es n = (Inr (), n')
    \<and> (has_active_goal n' \<longleftrightarrow> last_that goal_of_event (active_goal_handle n) es \<noteq> None)
    \<and> (get_last_result_success n', get_last_result_message n') =
        last_that result_of_event (get_last_result_success n, get_last_result_message n) es
    \<and> get_last_feedback n' = last_that feedback_of_event (get_last_feedback n) es
    \<and> (has_received_feedback n' \<longleftrightarrow> has_received_feedback n \<or> list_ex (\<lambda>e. feedback_of_event e \<noteq> None) es)"
  using deliver_all_effect [OF assms, of n] by (auto simp: has_active_goal_def)

section \<open>Sending a goal through a mock\<close>

definition action_mocked :: "addr \<Rightarrow> addr \<Rightarrow> move_msg action_call list \<Rightarrow> move_msg world \<Rightarrow> bool" where
  "action_mocked this a calls w \<longleftrightarrow> locked_ptr (memory w) (getMock this w) = Some a \<and>
     (\<exists>k. at_ptr (memory w) a = Some (Action_client_mock_obj k) \<and> am_type k = MoveRobot \<and> action_calls k = calls)"

lemma action_forward_recorded:
  assumes "action_mocked this a calls w"
  shows "\<exists>w'. forward_to_action_mock act fallback this MoveRobot x w = (act x, w') \<and> action_mocked this a (calls @ [x]) w'"
  using assms by (auto simp: action_mocked_def forward_to_action_mock_def modify_at_ptr)

text \<open>What the future of a sent goal has become when it is read; an invalid one counts as a rejection.\<close>

fun settled_goal :: "ctrl option fut \<Rightarrow> ctrl option option \<Rightarrow> ctrl option option" where
  "settled_goal (Ready h) arrives = Some h"
| "settled_goal No_state arrives = Some None"
| "settled_goal Pending arrives = arrives"

text \<open>Everything a sent goal leaves: the calls the mock has recorded and the state of the node.\<close>

lemma send_goal_effect:
  assumes "action_mocked this a calls w" and "act_ready Action_server_is_ready = Inr ready"
    and "act (Async_send_goal (Goal_msg \<lparr>target_x = x, target_y = y\<rparr>) move_options) = Inr f"
    and during: "deliver_all during n = (Inr (), n1)"
  shows "\<exists>w'. send_goal act_ready act during arrives this x y (w, n) = (Inr (), (w',
      if \<not> ready then n else case settled_goal f arrives of None \<Rightarrow> n1 | Some h \<Rightarrow> n1\<lparr>active_goal_handle := h\<rparr>))
    \<and> action_mocked this a (calls @ Action_server_is_ready #
        (if ready then [Async_send_goal (Goal_msg \<lparr>target_x = x, target_y = y\<rparr>) move_options] else [])) w'"
proof -
  let ?send = "Async_send_goal (Goal_msg \<lparr>target_x = x, target_y = y\<rparr>) move_options"
  obtain w1 where w1: "forward_to_action_mock act_ready (Pair (Inr False)) this MoveRobot Action_server_is_ready w = (Inr ready, w1)"
    "action_mocked this a (calls @ [Action_server_is_ready]) w1"
    using action_forward_recorded [OF assms(1), of act_ready "Pair (Inr False)" Action_server_is_ready] assms(2) by auto
  obtain w2 where w2: "forward_to_action_mock act (Pair (Inr No_state)) this MoveRobot ?send w1 = (Inr f, w2)"
    "action_mocked this a (calls @ [Action_server_is_ready, ?send]) w2"
    using action_forward_recorded [OF w1(2), of act "Pair (Inr No_state)" ?send] assms(3) by auto
  from w1 w2 during show ?thesis
    by (cases f; cases arrives) (simp_all add: send_goal_def on_world_def action_server_is_ready_def async_send_goal_def
        makeClientGoalHandleFuture_def)
qed

text \<open>C35: Sending a goal through a mock. The node asks for the server first and sends exactly one goal,
  with the given target and its three callbacks, only when it is ready. Afterwards the handle it keeps
  is the very handle the future holds (none for a rejection), whatever callbacks ran before the future
  was read: a goal whose result has already arrived by then is active again. Only on a timeout do the
  callbacks decide, and without a server the handle stays what it was.\<close>

theorem send_goal_protocol:
  assumes "action_mocked this a calls w" and "act_ready Action_server_is_ready = Inr ready"
    and "act (Async_send_goal (Goal_msg \<lparr>target_x = x, target_y = y\<rparr>) move_options) = Inr f"
    and "list_all event_defined during"
  shows "\<exists>w' n'. send_goal act_ready act during arrives this x y (w, n) = (Inr (), (w', n'))
    \<and> action_mocked this a (calls @ Action_server_is_ready #
        (if ready then [Async_send_goal (Goal_msg \<lparr>target_x = x, target_y = y\<rparr>) move_options] else [])) w'
    \<and> active_goal_handle n' =
        (if \<not> ready then active_goal_handle n
         else case settled_goal f arrives of Some h \<Rightarrow> h | None \<Rightarrow> last_that goal_of_event (active_goal_handle n) during)"
proof -
  obtain n1 where n1: "deliver_all during n = (Inr (), n1)"
    "active_goal_handle n1 = last_that goal_of_event (active_goal_handle n) during"
    using deliver_all_effect [OF assms(4), of n] by auto
  with send_goal_effect [where act_ready = act_ready and act = act, OF assms(1-3) n1(1), of arrives] show ?thesis by (auto split: option.split)
qed

definition mocked_move_client :: "move_msg world" where
  "mocked_move_client = (let w = create_move_client 2 40 1 init_world
     in attachMock 40 (Some 7) (w\<lparr>memory := new_shared 7 70 (Action_client_mock_obj (new_ActionClientMock MoveRobot 40)) (memory w)\<rparr>))"

lemma action_mocked_start: "action_mocked 40 70 [] mocked_move_client"
  by (simp add: action_mocked_def mocked_move_client_def mocks.get_attach locked_ptr_def lock_def at_ptr_def
      new_ActionClientMock_def Let_def)

theorem send_goal_protocol_witness:
  "\<exists>w' n'. send_goal (\<lambda>x. Inr True) (\<lambda>x. Inr (Ready (Some 9)))
      [Goal_response (Some 9), Result \<lparr>code = CANCELED, result = None, result_goal_id = []\<rparr>] None 40 (Finite 1) (Finite 2)
      (mocked_move_client, new_ActionClient) = (Inr (), (w', n'))
    \<and> action_mocked 40 70 [Action_server_is_ready, Async_send_goal (Goal_msg \<lparr>target_x = Finite 1, target_y = Finite 2\<rparr>) move_options] w'
    \<and> active_goal_handle n' = Some 9"
  using send_goal_protocol [OF action_mocked_start, of "\<lambda>x. Inr True" True "\<lambda>x. Inr (Ready (Some 9))" "Finite 1" "Finite 2" "Ready (Some 9)"
      "[Goal_response (Some 9), Result \<lparr>code = CANCELED, result = None, result_goal_id = []\<rparr>]" None new_ActionClient]
  by simp

text \<open>Canceling sends one request for the active goal, or nothing, and does not forget the goal.\<close>

lemma cancel_current_goal_calls:
  assumes "action_mocked this a calls w" and "act (Async_cancel_goal (active_goal_handle n) None) = Inr f"
  shows "\<exists>w'. cancel_current_goal act blank this (w, n) = (Inr (), (w', n))
    \<and> action_mocked this a (calls @ (if has_active_goal n then [Async_cancel_goal (active_goal_handle n) None] else [])) w'"
  using action_forward_recorded [OF assms(1), of act "Pair (Inr (Ready blank))" "Async_cancel_goal (active_goal_handle n) None"] assms
  by (auto simp: cancel_current_goal_def async_cancel_goal_def on_world_def has_active_goal_def)

end
