(* ===== verification/Example_Move_Session.thy ===== *)
theory Example_Move_Session
  imports Example_Action_Client
begin

text \<open>
  The example action client and the example action server together: a goal is sent, the server's
  thread moves the robot and reports through its goal handle, and reports reach the callbacks of the
  client. The action protocol of ROS between the two nodes is not part of the repository. What its
  documentation promises is the hypothesis \<open>delivered\<close> on the callbacks that run: the response and the
  result come with what the server decided and reported, and in this order; feedback that comes was
  published, but it may be lost, repeated, reordered, and arrive before the response or after the
  result.
\<close>

section \<open>The protocol between the nodes\<close>

fun is_result :: "client_event \<Rightarrow> bool" where
  "is_result (Result _) = True"
| "is_result _ = False"

fun is_feedback :: "client_event \<Rightarrow> bool" where
  "is_feedback (Feedback _) = True"
| "is_feedback _ = False"

fun reports_success :: "move_result option \<Rightarrow> move_msg handle_call \<Rightarrow> bool" where
  "reports_success m (Succeed (Result_msg m')) = (m = Some m')"
| "reports_success _ _ = False"

fun reports_cancel :: "move_msg handle_call \<Rightarrow> bool" where
  "reports_cancel (Canceled _) = True"
| "reports_cancel _ = False"

text \<open>A callback for an accepted goal with the handle \<open>handle\<close>, given what the server has reported.\<close>

fun event_from :: "ctrl \<Rightarrow> move_msg handle_call list \<Rightarrow> client_event \<Rightarrow> bool" where
  "event_from handle reports (Goal_response h) = (h = Some handle)"
| "event_from handle reports (Feedback f) = list_ex (\<lambda>m. f \<noteq> None \<and> m = Publish_feedback (Feedback_msg (the f))) reports"
| "event_from handle reports (Result r) = (case code r of
      SUCCEEDED \<Rightarrow> list_ex (reports_success (result r)) reports
    | CANCELED \<Rightarrow> list_ex reports_cancel reports
    | _ \<Rightarrow> False)"

text \<open>One result, which the client asks for when it has the response, so no response comes after it.\<close>

fun one_result :: "client_event list \<Rightarrow> bool" where
  "one_result [] = False"
| "one_result (Result r # es) = list_all is_feedback es"
| "one_result (e # es) = one_result es"

definition delivered :: "ctrl \<Rightarrow> move_msg handle_call list \<Rightarrow> client_event list \<Rightarrow> bool" where
  "delivered handle reports es \<longleftrightarrow> one_result es \<and> list_all (event_from handle reports) es"

section \<open>What the server reports\<close>

abbreviation feedback_report :: "move_feedback \<Rightarrow> move_msg handle_call" where
  "feedback_report f \<equiv> Publish_feedback (Feedback_msg f)"

text \<open>A move that is over: feedback, then success at the target or, if it was asked for, cancellation.\<close>

lemma move_outcome:
  assumes "move_loop ok act goal step i (s, h) = Some r"
  shows "is_mock h \<longrightarrow> is_moving s \<longrightarrow> (\<forall>s' h'. r = (Inr (), (s', h')) \<longrightarrow> \<not> is_moving s' \<longrightarrow>
    (\<exists>fs e. handle_calls h' = handle_calls h @ map feedback_report fs @ [e] \<and>
      (e = Succeed (result_at True ''Target reached successfully'' s') \<and>
         (\<exists>g. goal = Some g \<and> is_goal_reached (current_x s') (current_y s') (target_x g) (target_y g)) \<or>
       e = Canceled (result_at False ''Goal canceled'' s') \<and> (\<exists>j. act j))))"
    (is "_ \<longrightarrow> _ \<longrightarrow> (\<forall>s' h'. _ \<longrightarrow> _ \<longrightarrow> (\<exists>fs e. ?calls h' h fs e \<and> ?end s' e))")
  using assms
proof (induction rule: move_loop_induct)
  case (Cancel i s h)
  then show ?case by (auto simp: report_def result_at_def is_canceling_def intro!: exI [of _ "[]"])
next
  case (Round i s h g r p)
  let ?f = "calculate_feedback (current_x s) (current_y s) (target_x g) (target_y g)"
  show ?case
  proof (intro impI allI)
    fix s' h'
    assume "is_mock h" and r: "r = (Inr (), (s', h'))" "\<not> is_moving s'"
    moreover have "is_moving (s\<lparr>current_x := fst p, current_y := snd p\<rparr>)" using Round.hyps(1) by simp
    ultimately obtain fs e where "handle_calls h' = (handle_calls h @ [feedback_report ?f]) @ map feedback_report fs @ [e]" "?end s' e"
      using Round.IH [unfolded report_fields] by (auto simp: report_def)
    then show "\<exists>fs e. ?calls h' h fs e \<and> ?end s' e"
      by (intro exI [of _ "?f # fs"] exI [of _ e]) simp
  qed
qed (auto simp: report_def result_at_def intro: exI [of _ "[]"])

text \<open>Requests to cancel only shorten a move, so it still ends.\<close>

lemma move_loop_returns:
  assumes "near_target (real k / 200) g s" and "k \<le> 6000" and "is_moving s" and "\<And>i. ok i"
  shows "\<exists>s' h'. move_loop ok act (Some g) (Finite (5368709 / 536870912)) i (s, h) = Some (Inr (), (s', h')) \<and> \<not> is_moving s'"
  using assms
proof (induction k arbitrary: s h i rule: less_induct)
  case (less k)
  define p where "p = calculate_next_position (current_x s) (current_y s) (target_x g) (target_y g) (Finite (5368709 / 536870912))"
  define f where "f = calculate_feedback (current_x s) (current_y s) (target_x g) (target_y g)"
  show ?case
  proof (cases "is_canceling (act i) h \<or> is_goal_reached (current_x s) (current_y s) (target_x g) (target_y g)")
    case True
    then show ?thesis using less.prems(3,4) by (auto simp: move_loop.simps)
  next
    case False
    let ?s = "s\<lparr>current_x := fst p, current_y := snd p\<rparr>"
    have near: "near_target (real k / 200 - 1 / 200) g ?s"
      using reached_or_closer [OF less.prems(1) _ p_def] less.prems(2) False by simp
    then have "0 \<le> real k / 200 - 1 / 200"
      unfolding near_target_def by (metis order_trans real_sqrt_ge_zero sum_power2_ge_zero)
    then obtain j where j: "k = Suc j" by (cases k) auto
    then have "real k / 200 - 1 / 200 = real j / 200" by (simp add: field_simps)
    with near have near': "near_target (real j / 200) g ?s" by simp
    have small: "j < k" "j \<le> 6000" "is_moving ?s" using j less.prems by simp_all
    have nc: "\<not> is_canceling (act i) h" using False by simp
    from less.IH [OF small(1) near' small(2,3) less.prems(4)] False show ?thesis
      by (simp add: move_loop_step [where ok = ok and act = act, OF less.prems(4,3) nc p_def f_def])
  qed
qed

section \<open>What the client makes of it\<close>

lemma one_result_append:
  "one_result (xs @ ys) \<Longrightarrow> if list_ex is_result xs then list_all is_feedback ys else one_result ys"
proof (induction xs)
  case (Cons e xs)
  then show ?case by (cases e) auto
qed simp

lemma last_that_feedbacks:
  "list_all is_feedback es \<Longrightarrow> last_that goal_of_event d es = d"
proof (induction es)
  case (Cons e es)
  then show ?case by (cases e) (simp_all add: last_that_step)
qed (simp add: last_that_step)

lemma result_of_feedbacks: "list_all is_feedback es \<Longrightarrow> last_that result_of_event d es = d"
proof (induction es)
  case (Cons e es)
  then show ?case by (cases e) (simp_all add: last_that_step)
qed (simp add: last_that_step)

lemma last_that_one_result:
  "one_result es \<Longrightarrow> last_that goal_of_event d es = None \<and> (\<exists>r. Result r \<in> set es \<and> last_that result_of_event x es = outcome_of r)"
proof (induction es arbitrary: d)
  case (Cons e es)
  then show ?case by (cases e) (auto simp: last_that_step last_that_feedbacks result_of_feedbacks)
qed simp

lemma last_that_append: "last_that f d (xs @ ys) = last_that f (last_that f d xs) ys"
  by (induction xs arbitrary: d) (simp_all add: last_that_step)

lemma last_feedback_delivered:
  "list_all event_defined es \<Longrightarrow> if list_ex is_feedback es then Feedback (Some (last_that feedback_of_event d es)) \<in> set es
     else last_that feedback_of_event d es = d"
proof (induction es arbitrary: d)
  case (Cons e es)
  have "list_all event_defined es" using Cons.prems by simp
  note IH = Cons.IH [OF this]
  show ?case
  proof (cases e)
    case (Feedback f)
    then obtain y where "f = Some y" using Cons.prems by auto
    with IH [of y] Feedback show ?thesis by (simp add: last_that_step split: if_splits)
  qed (use IH [of d] in \<open>simp_all add: last_that_step split: if_splits\<close>)
qed (simp add: last_that_step)

lemma reports_success_iff: "reports_success m c \<longleftrightarrow> (\<exists>m'. m = Some m' \<and> c = Succeed (Result_msg m'))"
  by (cases "(m, c)" rule: reports_success.cases) auto

lemma event_from_defined: "event_from handle reports e \<Longrightarrow> event_defined e"
  by (cases e) (auto simp: list_ex_iff reports_success_iff)

text \<open>All callbacks of a move, whenever the future is read in between.\<close>

lemma delivered_session:
  assumes "delivered handle reports (during @ after)"
  shows "\<exists>n1 n2 r. deliver_all during n = (Inr (), n1)
    \<and> deliver_all after (n1\<lparr>active_goal_handle := Some handle\<rparr>) = (Inr (), n2)
    \<and> active_goal_handle n2 = (if list_ex is_result during then Some handle else None)
    \<and> event_from handle reports (Result r) \<and> (get_last_result_success n2, get_last_result_message n2) = outcome_of r
    \<and> (if list_ex is_feedback (during @ after) then feedback_report (get_last_feedback n2) \<in> set reports
       else get_last_feedback n2 = get_last_feedback n)"
proof -
  have one: "one_result (during @ after)" and evs: "list_all (event_from handle reports) (during @ after)"
    using assms by (simp_all add: delivered_def)
  have defined: "list_all event_defined (during @ after)" using evs event_from_defined by (rule list.pred_mono_strong)
  then have "list_all event_defined during" "list_all event_defined after" by simp_all
  note effect = deliver_all_effect [OF this(1)] deliver_all_effect [OF this(2)]
  obtain n1 where n1: "deliver_all during n = (Inr (), n1)"
    "(get_last_result_success n1, get_last_result_message n1) =
        last_that result_of_event (get_last_result_success n, get_last_result_message n) during"
    "get_last_feedback n1 = last_that feedback_of_event (get_last_feedback n) during"
    using effect(1) [of n] by blast
  let ?n1 = "n1\<lparr>active_goal_handle := Some handle\<rparr>"
  have same: "get_last_result_success ?n1 = get_last_result_success n1" "get_last_result_message ?n1 = get_last_result_message n1"
    "get_last_feedback ?n1 = get_last_feedback n1" by (simp_all add: move_client_getters)
  obtain n2 where n2: "deliver_all after ?n1 = (Inr (), n2)" "active_goal_handle n2 = last_that goal_of_event (Some handle) after"
    "(get_last_result_success n2, get_last_result_message n2) =
        last_that result_of_event (get_last_result_success n, get_last_result_message n) (during @ after)"
    "get_last_feedback n2 = last_that feedback_of_event (get_last_feedback n) (during @ after)"
    using effect(2) [of ?n1] unfolding same n1(2,3) last_that_append by auto
  have "active_goal_handle n2 = (if list_ex is_result during then Some handle else None)"
    using one_result_append [OF one] last_that_feedbacks last_that_one_result by (auto simp: n2(2) split: if_splits)
  moreover obtain r where "Result r \<in> set (during @ after)" "(get_last_result_success n2, get_last_result_message n2) = outcome_of r"
    using last_that_one_result [OF one] unfolding n2(3) by blast
  moreover have "feedback_report f \<in> set reports" if "Feedback (Some f) \<in> set (during @ after)" for f
    using bspec [OF evs [unfolded list_all_iff] that] by (auto simp: list_ex_iff)
  then have "if list_ex is_feedback (during @ after) then feedback_report (get_last_feedback n2) \<in> set reports
      else get_last_feedback n2 = get_last_feedback n"
    using last_feedback_delivered [OF defined, of "get_last_feedback n"] unfolding n2(4) by presburger
  moreover have "event_from handle reports (Result r)" if "Result r \<in> set (during @ after)" for r
    using evs that by (simp only: list_all_iff)
  ultimately show ?thesis using n1(1) n2(1) by blast
qed

section \<open>The session\<close>

text \<open>C22: A whole move. The server is within 11 of the origin and accepts a goal with finite coordinates; the
  client sends that goal, finding the server ready. While rclcpp runs, the server's thread ends the move
  at whatever rounds a request to cancel is seen, and the server then accepts the same goal again. The
  client asks and sends once. Whatever callbacks the reports lead to, before and after the client reads
  the future of the goal, and whatever happens to feedback on the way, none fails. In the end the client
  reports success only if the robot is within the tolerance of the target, and otherwise a cancellation,
  which was requested; the feedback it shows is one the server published, if any arrived. It has no
  active goal, unless the result arrived before the future was read: then the goal stays active.\<close>

theorem move_session:
  assumes mocked: "action_mocked this a calls w"
    and ready: "act_ready Action_server_is_ready = Inr True"
    and accepted: "move_handle_goal (Some g) s = Inr Accept_and_execute"
    and sent: "act (Async_send_goal (Goal_msg g) move_options) = Inr f"
    and target: "target_x g = Finite tx" "target_y g = Finite ty"
    and place: "current_x s = Finite cx" "current_y s = Finite cy" "\<bar>cx\<bar> \<le> 11" "\<bar>cy\<bar> \<le> 11"
    and running: "\<And>i. ok i"
  shows "\<exists>s' h'. execute_move ok cancel (move_handle_accepted c s, createMockGoalHandle (Some (Goal_msg g))) = Some (Inr (), (s', h'))
    \<and> move_handle_goal (Some g) s' = Inr Accept_and_execute
    \<and> (\<forall>during after arrives. settled_goal f arrives = Some (Some handle) \<longrightarrow> delivered handle (handle_calls h') (during @ after) \<longrightarrow>
        (\<exists>w' n1 n2. send_goal act_ready act during arrives this (target_x g) (target_y g) (w, n) = (Inr (), (w', n1))
           \<and> action_mocked this a (calls @ [Action_server_is_ready, Async_send_goal (Goal_msg g) move_options]) w'
           \<and> deliver_all after n1 = (Inr (), n2)
           \<and> active_goal_handle n2 = (if list_ex is_result during then Some handle else None)
           \<and> (if get_last_result_success n2
              then get_last_result_message n2 = ''Target reached successfully'' \<and>
                is_goal_reached (current_x s') (current_y s') (target_x g) (target_y g)
              else get_last_result_message n2 = ''Goal canceled'' \<and> (\<exists>i. cancel i))
           \<and> (if list_ex is_feedback (during @ after) then feedback_report (get_last_feedback n2) \<in> set (handle_calls h')
              else get_last_feedback n2 = get_last_feedback n)))"
proof -
  let ?s = "move_handle_accepted c s" and ?h = "createMockGoalHandle (Some (Goal_msg g)) :: move_handle"
  have mock: "is_moving ?s" "is_mock ?h" "handle_calls ?h = []" "handle_goal_of ?h = Some g"
    by (simp_all add: move_handle_accepted_def createMockGoalHandle_def new_ServerGoalHandle_def handle_goal_of_def get_goal_def)
  have near: "near_target (real 6000 / 200) g ?s" using accepted_near [OF accepted target place] by simp
  obtain s' h' where run: "move_loop ok cancel (Some g) (Finite (5368709 / 536870912)) 0 (?s, ?h) = Some (Inr (), (s', h'))"
    and over: "\<not> is_moving s'"
    using move_loop_returns [where ok = ok, OF near order_refl mock(1) running] by blast
  obtain fs e where calls: "handle_calls h' = map feedback_report fs @ [e]"
    and e: "e = Succeed (result_at True ''Target reached successfully'' s') \<and>
        is_goal_reached (current_x s') (current_y s') (target_x g) (target_y g) \<or>
      e = Canceled (result_at False ''Goal canceled'' s') \<and> (\<exists>j. cancel j)"
    using move_outcome [OF run] mock over by auto
  have outcome: "if fst (outcome_of r)
      then snd (outcome_of r) = ''Target reached successfully'' \<and> is_goal_reached (current_x s') (current_y s') (target_x g) (target_y g)
      else snd (outcome_of r) = ''Goal canceled'' \<and> (\<exists>i. cancel i)"
    if "event_from handle (handle_calls h') (Result r)" for r
    using that e unfolding calls
    by (auto simp: outcome_of_def reports_success_iff result_at_def list_ex_iff split: result_code.splits)
  have surj: "\<lparr>target_x = target_x g, target_y = target_y g\<rparr> = g" by simp
  show ?thesis
  proof (intro exI [of _ s'] exI [of _ h'] conjI allI impI)
    show "execute_move ok cancel (?s, ?h) = Some (Inr (), (s', h'))" by (simp add: execute_move_def mock(4) step_values run)
    show "move_handle_goal (Some g) s' = Inr Accept_and_execute"
      using accepted over by (auto simp: move_handle_goal_def split: if_splits)
    fix during after arrives
    assume settled: "settled_goal f arrives = Some (Some handle)" and "delivered handle (handle_calls h') (during @ after)"
    from delivered_session [OF this(2), of n] obtain n1 n2 r where n: "deliver_all during n = (Inr (), n1)"
      "deliver_all after (n1\<lparr>active_goal_handle := Some handle\<rparr>) = (Inr (), n2)"
      "active_goal_handle n2 = (if list_ex is_result during then Some handle else None)"
      "event_from handle (handle_calls h') (Result r)" "(get_last_result_success n2, get_last_result_message n2) = outcome_of r"
      "if list_ex is_feedback (during @ after) then feedback_report (get_last_feedback n2) \<in> set (handle_calls h')
       else get_last_feedback n2 = get_last_feedback n" by blast
    obtain w' where w': "send_goal act_ready act during arrives this (target_x g) (target_y g) (w, n) =
        (Inr (), (w', n1\<lparr>active_goal_handle := Some handle\<rparr>))"
      "action_mocked this a (calls @ [Action_server_is_ready, Async_send_goal (Goal_msg g) move_options]) w'"
      using send_goal_effect [where act_ready = act_ready and act = act and x = "target_x g" and y = "target_y g",
          unfolded surj, OF mocked ready sent n(1), of arrives] settled by auto
    note result = outcome [OF n(4), folded n(5), unfolded fst_conv snd_conv]
    show "\<exists>w' n1 n2. send_goal act_ready act during arrives this (target_x g) (target_y g) (w, n) = (Inr (), (w', n1))
           \<and> action_mocked this a (calls @ [Action_server_is_ready, Async_send_goal (Goal_msg g) move_options]) w'
           \<and> deliver_all after n1 = (Inr (), n2)
           \<and> active_goal_handle n2 = (if list_ex is_result during then Some handle else None)
           \<and> (if get_last_result_success n2
              then get_last_result_message n2 = ''Target reached successfully'' \<and>
                is_goal_reached (current_x s') (current_y s') (target_x g) (target_y g)
              else get_last_result_message n2 = ''Goal canceled'' \<and> (\<exists>i. cancel i))
           \<and> (if list_ex is_feedback (during @ after) then feedback_report (get_last_feedback n2) \<in> set (handle_calls h')
              else get_last_feedback n2 = get_last_feedback n)"
      by (intro exI conjI; fact w' n(2,3,6) result)
  qed
qed

text \<open>A target two rounds away, with the reports of a move to it that nobody cancels.\<close>

definition near_goal :: move_goal where
  "near_goal = \<lparr>target_x = Finite (27 / 256), target_y = Finite 0\<rparr>"

definition near_feedback :: move_feedback where
  "near_feedback = calculate_feedback (Finite 0) (Finite 0) (Finite (27 / 256)) (Finite 0)"

definition near_result :: move_result where
  "near_result = \<lparr>success = True, final_x = Finite (5368709 / 536870912), final_y = Finite 0, message = ''Target reached successfully''\<rparr>"

lemma near_steps:
  "is_goal_reached (Finite 0) (Finite 0) (Finite (27 / 256)) (Finite 0) = False"
  "calculate_next_position (Finite 0) (Finite 0) (Finite (27 / 256)) (Finite 0) (Finite (5368709 / 536870912)) =
     (Finite (5368709 / 536870912), Finite 0)"
  "is_goal_reached (Finite (5368709 / 536870912)) (Finite 0) (Finite (27 / 256)) (Finite 0) = True"
  by code_simp+

lemma near_run:
  "execute_move (\<lambda>_. True) (\<lambda>_. False) (move_handle_accepted (Some 9) new_move_server, createMockGoalHandle (Some (Goal_msg near_goal))) =
     Some (Inr (), (move_handle_accepted (Some 9) new_move_server\<lparr>current_x := Finite (5368709 / 536870912), is_moving := False\<rparr>,
       report (Succeed (Result_msg near_result)) (report (feedback_report near_feedback) (createMockGoalHandle (Some (Goal_msg near_goal))))))"
proof -
  let ?s = "move_handle_accepted (Some 9) new_move_server" and ?h = "createMockGoalHandle (Some (Goal_msg near_goal)) :: move_handle"
  let ?s1 = "?s\<lparr>current_x := Finite (5368709 / 536870912), current_y := Finite 0\<rparr>"
  have start: "current_x ?s = Finite 0" "current_y ?s = Finite 0" "is_moving ?s" "handle_goal_of ?h = Some near_goal"
    by (simp_all add: move_handle_accepted_def new_move_server_def createMockGoalHandle_def new_ServerGoalHandle_def
        handle_goal_of_def get_goal_def)
  have target: "target_x near_goal = Finite (27 / 256)" "target_y near_goal = Finite 0" by (simp_all add: near_goal_def)
  have quiet: "\<not> is_canceling False ?h" "\<not> is_canceling False (report x ?h)" for x
    by (simp_all add: is_canceling_def report_def createMockGoalHandle_def)
  have "move_loop (\<lambda>_. True) (\<lambda>_. False) (Some near_goal) (Finite (5368709 / 536870912)) 0 (?s, ?h) =
      move_loop (\<lambda>_. True) (\<lambda>_. False) (Some near_goal) (Finite (5368709 / 536870912)) 1 (?s1, report (feedback_report near_feedback) ?h)"
    by (subst move_loop.simps) (simp add: start quiet target near_steps near_feedback_def Let_def)
  also have "\<dots> = Some (Inr (), (?s1\<lparr>is_moving := False\<rparr>,
      report (Succeed (result_at True ''Target reached successfully'' ?s1)) (report (feedback_report near_feedback) ?h)))"
    by (subst move_loop.simps) (simp add: start quiet target near_steps Let_def)
  finally show ?thesis
    using start by (simp add: execute_move_def step_values result_at_def near_result_def)
qed

theorem move_session_witness:
  "\<exists>w' n1 n2. send_goal (\<lambda>_. Inr True) (\<lambda>_. Inr Pending) [Goal_response (Some 9)] (Some (Some 9)) 40 (target_x near_goal) (target_y near_goal)
       (mocked_move_client, new_ActionClient) = (Inr (), (w', n1))
    \<and> deliver_all [Result \<lparr>code = SUCCEEDED, result = Some near_result, result_goal_id = []\<rparr>, Feedback (Some near_feedback)] n1 = (Inr (), n2)
    \<and> active_goal_handle n2 = None \<and> get_last_result_success n2 \<and> get_last_feedback n2 = near_feedback"
proof -
  let ?after = "[Result \<lparr>code = SUCCEEDED, result = Some near_result, result_goal_id = []\<rparr>, Feedback (Some near_feedback)]"
  have accepted: "move_handle_goal (Some near_goal) new_move_server = Inr Accept_and_execute" by code_simp
  have place: "target_x near_goal = Finite (27 / 256)" "target_y near_goal = Finite 0"
    "current_x new_move_server = Finite 0" "current_y new_move_server = Finite 0" "\<bar>0\<bar> \<le> (11::real)"
    by (simp_all add: near_goal_def new_move_server_def)
  let ?h = "report (Succeed (Result_msg near_result)) (report (feedback_report near_feedback) (createMockGoalHandle (Some (Goal_msg near_goal))))"
  have calls: "handle_calls ?h = [feedback_report near_feedback, Succeed (Result_msg near_result)]"
    by (simp add: report_def createMockGoalHandle_def new_ServerGoalHandle_def)
  have events: "delivered 9 (handle_calls ?h) ([Goal_response (Some 9)] @ ?after)" unfolding calls by (simp add: delivered_def)
  have settled: "settled_goal Pending (Some (Some 9)) = Some (Some 9)" by simp
  show ?thesis
    using move_session [where act_ready = "\<lambda>_. Inr True" and act = "\<lambda>_. Inr Pending" and n = new_ActionClient and c = "Some 9"
      and handle = 9 and ok = "\<lambda>_. True" and cancel = "\<lambda>_. False", OF action_mocked_start refl accepted refl place(1-5,5) TrueI]
  proof (elim exE conjE, goal_cases)
    case run: (1 s' h')
    have h': "h' = ?h" using run(1) near_run by simp
    show ?case
      using run(3) [rule_format, OF settled events [folded h']] unfolding h' calls
    proof (elim exE conjE, goal_cases)
      case end_state: (1 w' n1 n2)
      then have "get_last_result_success n2" "get_last_feedback n2 = near_feedback" by (auto split: if_splits)
      with end_state show ?case by (intro exI conjI) simp_all
    qed
  qed
qed

end
