(* ===== verification/Example_Topics.thy ===== *)
theory Example_Topics
  imports Subscription_Mock Timer_Mock
begin

text \<open>
  Example nodes on topics and time: \<open>DebounceNode\<close> (debounce.hpp), \<open>Publisher\<close> (publisher.cpp) and
  \<open>Subscriber\<close> (subscriber.cpp), on top of the publishers, timers and subscriptions of this library.
  A message of type \<open>std_msgs::msg::String\<close> is its \<open>data\<close>. From rclcpp come, as parameters, the
  subtraction of two times, the loaned message and the part of the subscription count that
  \<open>PublisherBase\<close> knows.
\<close>

section \<open>Debounce\<close>

record debounce_node =
  debounced_value :: int
  debounce_time :: int
  last_set_time :: int

definition new_DebounceNode :: "int \<Rightarrow> int \<Rightarrow> debounce_node" where
  "new_DebounceNode milliseconds now = \<lparr>debounced_value = 0, debounce_time = milliseconds, last_set_time = now\<rparr>"

text \<open>The debounce time is converted from milliseconds to nanoseconds for the comparison.\<close>

definition debounce_set ::
  "(int \<Rightarrow> int \<Rightarrow> exn + int) \<Rightarrow> int \<Rightarrow> int \<Rightarrow> debounce_node \<Rightarrow> (debounce_node, unit) res" where
  "debounce_set time_minus now new_value d =
     (case time_minus now (last_set_time d) of
        Inl e \<Rightarrow> (Inl e, d)
      | Inr elapsed \<Rightarrow>
          (case checked64 (debounce_time d * 1000000) of
             Inl e \<Rightarrow> (Inl e, d)
           | Inr limit \<Rightarrow>
               (Inr (), if limit \<le> elapsed then d\<lparr>debounced_value := new_value, last_set_time := now\<rparr> else d)))"

definition debounce_get :: "debounce_node \<Rightarrow> int" where
  "debounce_get d = debounced_value d"

section \<open>Publisher\<close>

abbreviation String_type :: tyname where
  "String_type \<equiv> ''std_msgs::msg::String''"

text \<open>
  The constructor: the publisher (control block \<open>c\<close>, address \<open>a\<close>), then a timer (\<open>ct\<close>, \<open>at\<close>) of 500
  milliseconds with callback \<open>cb\<close>. rclcpp expands the topic to \<open>/test_topic\<close>. A timer that cannot
  be created fails the constructor and the publisher is gone with it.
\<close>

definition new_Publisher_node ::
  "(ctrl \<Rightarrow> string world \<Rightarrow> (string world, unit) res) \<Rightarrow> ctrl \<Rightarrow> addr \<Rightarrow> ctrl \<Rightarrow> addr \<Rightarrow> callback \<Rightarrow> ctrl
     \<Rightarrow> string world \<Rightarrow> (string world, ctrl) res" where
  "new_Publisher_node add_timer c a ct at cb node w =
     (let w1 = create_publisher c a
            \<lparr>publisher_type = String_type, publisher_topic = ''/test_topic'', publisher_node = Some node\<rparr> w
      in case create_timer add_timer ct at (Some ()) 1000000 500 cb (Some node) (Some ()) w1 of
           (Inl e, w2) \<Rightarrow> (Inl e, w2\<lparr>memory := destroy a (expire c (memory w2))\<rparr>)
         | (Inr t, w2) \<Rightarrow> (Inr t, w2))"

text \<open>The methods, on the node whose publisher is at \<open>this\<close>.\<close>

definition timer_callback_body :: "addr \<Rightarrow> string world \<Rightarrow> (string world, unit) res" where
  "timer_callback_body this w = publish_unique_ptr this String_type (Some ''timer'') w"

definition publishCopy :: "addr \<Rightarrow> string world \<Rightarrow> (string world, unit) res" where
  "publishCopy this w = publish_ref this String_type ''copy'' w"

definition publishUniquePtr :: "addr \<Rightarrow> string world \<Rightarrow> (string world, unit) res" where
  "publishUniquePtr this w = publish_unique_ptr this String_type (Some ''unique_ptr'') w"

definition publishLoanedMsg ::
  "('l \<Rightarrow> bool) \<Rightarrow> ('l \<Rightarrow> string) \<Rightarrow> (string \<Rightarrow> 'l \<Rightarrow> 'l) \<Rightarrow> 'l \<Rightarrow> addr \<Rightarrow> string world \<Rightarrow> (string world, unit) res" where
  "publishLoanedMsg is_valid get set_data borrowed this w =
     publish_loaned is_valid get this String_type (set_data ''loaned_msg'' borrowed) w"

definition publishIfSubscribersListening :: "size_t \<Rightarrow> addr \<Rightarrow> string world \<Rightarrow> (string world, unit) res" where
  "publishIfSubscribersListening base_count this w =
     (case get_subscription_count base_count this String_type w of
        Inl e \<Rightarrow> (Inl e, w)
      | Inr n \<Rightarrow>
          if n \<noteq> 0 then publish_unique_ptr this String_type (Some ''if_subscribers_listening'') w
          else (Inr (), w))"

section \<open>Subscriber\<close>

definition new_Subscriber_node :: "ctrl \<Rightarrow> addr \<Rightarrow> callback \<Rightarrow> ctrl \<Rightarrow> string world \<Rightarrow> (string world, ctrl) res" where
  "new_Subscriber_node c a cb node w =
     create_subscription False True 5 c a
       \<lparr>subscription_type = String_type, subscription_topic = ''/test_topic'', subscription_node = Some node,
        any_callback = cb, subscription_topic_statistics = False\<rparr> w"

text \<open>The user state is \<open>lastMsg_\<close> and the lines logged; the callback stores what it is given.\<close>

definition subscriber_callback :: "string \<Rightarrow> string \<times> string list \<Rightarrow> (string \<times> string list, unit) res" where
  "subscriber_callback msg u = (Inr (), (msg, snd u @ [''Received message: '' @ msg]))"

definition getLastMsg :: "string \<times> string list \<Rightarrow> string" where
  "getLastMsg u = fst u"

section \<open>Properties of the debounce node\<close>

text \<open>Calls of \<open>set\<close> at given times.\<close>

fun debounce_calls ::
  "(int \<Rightarrow> int \<Rightarrow> exn + int) \<Rightarrow> (int \<times> int) list \<Rightarrow> debounce_node \<Rightarrow> (debounce_node, unit) res" where
  "debounce_calls time_minus [] d = (Inr (), d)"
| "debounce_calls time_minus ((now, v) # calls) d =
     andthen (debounce_set time_minus now v d) (\<lambda>_. debounce_calls time_minus calls)"

text \<open>What rclcpp documents for the subtraction of times: the difference, when it is in range.\<close>

definition time_minus_laws :: "(int \<Rightarrow> int \<Rightarrow> exn + int) \<Rightarrow> bool" where
  "time_minus_laws time_minus \<longleftrightarrow> (\<forall>x y. in_int64 (x - y) \<longrightarrow> time_minus x y = Inr (x - y))"

text \<open>The specification: the calls that take effect, \<open>gap\<close> nanoseconds apart at least.\<close>

fun effective :: "int \<Rightarrow> int \<Rightarrow> (int \<times> int) list \<Rightarrow> (int \<times> int) list" where
  "effective gap last_time [] = []"
| "effective gap last_time ((now, v) # calls) =
     (if last_time + gap \<le> now then (now, v) # effective gap now calls else effective gap last_time calls)"

lemma debounce_calls_effective:
  assumes "time_minus_laws tm" and "in_int64 (ms * 1000000)" and "0 \<le> t0" and "in_int64 t0"
    and "\<forall>(t, v) \<in> set calls. 0 \<le> t \<and> in_int64 t" and "debounce_time d = ms" and "last_set_time d = t0"
  shows "debounce_calls tm calls d = (Inr (), d\<lparr>debounced_value := snd (last ((t0, debounced_value d) # effective (ms * 1000000) t0 calls)),
      last_set_time := fst (last ((t0, debounced_value d) # effective (ms * 1000000) t0 calls))\<rparr>)"
  using assms(3-)
proof (induction calls arbitrary: d t0)
  case (Cons c calls)
  obtain t v where c: "c = (t, v)" by fastforce
  have t: "0 \<le> t" "in_int64 t" using Cons.prems(3) c by auto
  have "in_int64 (t - t0)" using t Cons.prems(1,2) by (simp add: in_int64_def int64_min_def int64_max_def)
  then have diff: "tm t (last_set_time d) = Inr (t - t0)" using assms(1) Cons.prems(5) by (simp add: time_minus_laws_def)
  have limit: "checked64 (debounce_time d * 1000000) = Inr (ms * 1000000)" using assms(2) Cons.prems(4) by simp
  show ?case
  proof (cases "t0 + ms * 1000000 \<le> t")
    case True
    then have "debounce_set tm t v d = (Inr (), d\<lparr>debounced_value := v, last_set_time := t\<rparr>)"
      by (simp add: debounce_set_def diff limit)
    then show ?thesis using True Cons.IH [of t "d\<lparr>debounced_value := v, last_set_time := t\<rparr>"] t Cons.prems c by auto
  next
    case False
    then have "debounce_set tm t v d = (Inr (), d)" by (simp add: debounce_set_def diff limit)
    then show ?thesis using False Cons.IH [of t0 d] Cons.prems c by auto
  qed
qed simp

lemma effective_spaced: "0 \<le> gap \<Longrightarrow> sorted_wrt (\<lambda>x y. fst x + gap \<le> fst y) ((t0, v0) # effective gap t0 calls)"
proof (induction gap t0 calls arbitrary: v0 rule: effective.induct)
  case (2 gap t0 now v calls)
  show ?case
  proof (cases "t0 + gap \<le> now")
    case True
    have "sorted_wrt (\<lambda>x y. fst x + gap \<le> fst y) ((now, v) # effective gap now calls)" using 2 True by blast
    with True "2.prems" show ?thesis by fastforce
  next
    case False
    with 2 show ?thesis by simp
  qed
qed simp

lemma effective_complete:
  "sorted (t0 # map fst calls) \<Longrightarrow> c \<in> set calls \<Longrightarrow>
     c \<in> set (effective gap t0 calls) \<or> (\<exists>x \<in> set ((t0, v0) # effective gap t0 calls). fst x \<le> fst c \<and> fst c < fst x + gap)"
proof (induction gap t0 calls arbitrary: v0 rule: effective.induct)
  case (2 gap t0 now w calls)
  then show ?case
    by (cases "t0 + gap \<le> now") auto
qed simp

text \<open>
  Calls of \<open>set\<close> never fail for times and a debounce time in range, and the value read afterwards is
  that of the last call that took effect, or zero. Calls that take effect are at least the debounce
  time apart from each other and from the construction of the node; when time does not run
  backwards, a call that does not take effect follows one that did by less than that.
\<close>

lemma debounce_behaviour:
  assumes "time_minus_laws tm" and "0 \<le> ms" and "in_int64 (ms * 1000000)" and "0 \<le> t0" and "in_int64 t0"
    and "\<forall>(t, v) \<in> set calls. in_int64 t" and "sorted (t0 # map fst calls)" and acc: "acc = effective (ms * 1000000) t0 calls"
  shows "\<exists>d. debounce_calls tm calls (new_DebounceNode ms t0) = (Inr (), d)
    \<and> debounce_get d = snd (last ((t0, 0) # acc))
    \<and> sorted_wrt (\<lambda>x y. fst x + ms * 1000000 \<le> fst y) ((t0, 0) # acc)
    \<and> (\<forall>c \<in> set calls. c \<in> set acc \<or> (\<exists>x \<in> set ((t0, 0) # acc). fst x \<le> fst c \<and> fst c < fst x + ms * 1000000))"
proof -
  have "\<forall>(t, v) \<in> set calls. 0 \<le> t \<and> in_int64 t" using assms(4,6,7) by fastforce
  then have "debounce_calls tm calls (new_DebounceNode ms t0) = (Inr (), (new_DebounceNode ms t0)\<lparr>debounced_value := snd (last ((t0, 0) # acc)),
      last_set_time := fst (last ((t0, 0) # acc))\<rparr>)"
    using debounce_calls_effective [OF assms(1,3-5), of calls "new_DebounceNode ms t0"] by (simp add: new_DebounceNode_def acc)
  moreover have "sorted_wrt (\<lambda>x y. fst x + ms * 1000000 \<le> fst y) ((t0, 0) # acc)"
    unfolding acc by (rule effective_spaced) (use assms(2) in simp)
  ultimately show ?thesis using effective_complete [OF assms(7)] unfolding acc by (auto simp: debounce_get_def)
qed

section \<open>Properties of the publisher node\<close>

text \<open>
  What is done with the node and its mock: the timer fires, a method is called, or the test sets the
  count of simulated subscriptions. \<open>Loaned l\<close> is a call for which \<open>borrow_loaned_message\<close> gives \<open>l\<close>;
  \<open>If_listening base\<close> is one while there are \<open>base\<close> real subscriptions.
\<close>

datatype 'l publisher_step =
  Timer_fires | Copy | Unique_ptr | Loaned 'l | If_listening size_t | Set_subscribers size_t

text \<open>What the program uses of a \<open>LoanedMessage\<close>.\<close>

record 'l loan_api =
  loan_valid :: "'l \<Rightarrow> bool"
  loan_get :: "'l \<Rightarrow> string"
  loan_set_data :: "string \<Rightarrow> 'l \<Rightarrow> 'l"

text \<open>A borrowed message is valid, and writing its data leaves it valid and is what is read then.\<close>

definition loan_laws :: "'l loan_api \<Rightarrow> 'l set \<Rightarrow> bool" where
  "loan_laws api borrowed \<longleftrightarrow>
     (\<forall>l \<in> borrowed. loan_valid api l \<and> (\<forall>m. loan_valid api (loan_set_data api m l) \<and> loan_get api (loan_set_data api m l) = m))"

fun borrowed_by :: "'l publisher_step \<Rightarrow> 'l option" where
  "borrowed_by (Loaned l) = Some l"
| "borrowed_by _ = None"

definition borrowed_in :: "'l publisher_step list \<Rightarrow> 'l set" where
  "borrowed_in xs = set (List.map_filter borrowed_by xs)"

fun run_publisher_step ::
  "'l loan_api \<Rightarrow> addr \<Rightarrow> addr \<Rightarrow> 'l publisher_step \<Rightarrow> string world \<Rightarrow> (string world, unit) res" where
  "run_publisher_step api this mock Timer_fires w = timer_callback_body this w"
| "run_publisher_step api this mock Copy w = publishCopy this w"
| "run_publisher_step api this mock Unique_ptr w = publishUniquePtr this w"
| "run_publisher_step api this mock (Loaned l) w =
     publishLoanedMsg (loan_valid api) (loan_get api) (loan_set_data api) l this w"
| "run_publisher_step api this mock (If_listening base) w = publishIfSubscribersListening base this w"
| "run_publisher_step api this mock (Set_subscribers n) w =
     (Inr (), w\<lparr>memory := modify mock (on_publisher_mock (setSubscriptionCount n)) (memory w)\<rparr>)"

fun run_publisher_steps ::
  "'l loan_api \<Rightarrow> addr \<Rightarrow> addr \<Rightarrow> 'l publisher_step list \<Rightarrow> string world \<Rightarrow> (string world, unit) res" where
  "run_publisher_steps api this mock [] w = (Inr (), w)"
| "run_publisher_steps api this mock (x # xs) w =
     andthen (run_publisher_step api this mock x w) (\<lambda>_. run_publisher_steps api this mock xs)"

text \<open>
  The messages that should arrive, where \<open>n\<close> is the count set in the mock. The sum with the real
  count is one of \<open>size_t\<close>: it is zero also when it wraps around to zero.
\<close>

fun expected_messages :: "size_t \<Rightarrow> 'l publisher_step list \<Rightarrow> string list" where
  "expected_messages n [] = []"
| "expected_messages n (Timer_fires # xs) = ''timer'' # expected_messages n xs"
| "expected_messages n (Copy # xs) = ''copy'' # expected_messages n xs"
| "expected_messages n (Unique_ptr # xs) = ''unique_ptr'' # expected_messages n xs"
| "expected_messages n (Loaned l # xs) = ''loaned_msg'' # expected_messages n xs"
| "expected_messages n (If_listening base # xs) =
     (if (uint base + uint n) mod 2 ^ 64 = 0 then expected_messages n xs
      else ''if_subscribers_listening'' # expected_messages n xs)"
| "expected_messages n (Set_subscribers m # xs) = expected_messages m xs"

text \<open>The count last set in the mock.\<close>

fun last_count :: "size_t \<Rightarrow> 'l publisher_step list \<Rightarrow> size_t" where
  "last_count n [] = n"
| "last_count n (Set_subscribers m # xs) = last_count m xs"
| "last_count n (_ # xs) = last_count n xs"

lemma publish_step:
  assumes "publisher_mock_of this T w = Inr (Some (a, k))"
  shows "publish_sink this T m w = (Inr (), w\<lparr>memory := modify a (on_publisher_mock (mock_publish m)) (memory w)\<rparr>)"
    and "publisher_mock_of this T (w\<lparr>memory := modify a (on_publisher_mock (mock_publish m)) (memory w)\<rparr>) =
      Inr (Some (a, mock_publish m k))"
  using assms by (simp add: publish_sink_def)
    (rule publisher_mock_of_modify [where f = "mock_publish m", OF assms], use assms in \<open>simp add: publisher_mock_of_Some mock_publish_def\<close>)

lemma size_t_sum_zero: "(x :: size_t) + y = 0 \<longleftrightarrow> (uint x + uint y) mod 2 ^ 64 = 0"
  by (simp add: uint_word_ariths(1) flip: uint_0_iff)

text \<open>The publisher node seen through its mock. Any sequence of timer firings, calls of the node's
  methods and changes of the simulated subscription count goes through without an error, and the
  mock has then recorded exactly the expected messages in order: \<open>publishIfSubscribersListening\<close>
  publishes just when the sum of the real and the simulated count is not zero.\<close>

lemma publisher_steps_recorded:
  assumes "publisher_mock_of this String_type w = Inr (Some (a, k))" and "loan_laws api (borrowed_in xs)"
  shows "\<exists>w'. run_publisher_steps api this a xs w = (Inr (), w')
    \<and> publisher_mock_of this String_type w' =
        Inr (Some (a, k\<lparr>publish_calls := publish_calls k @ expected_messages (subscriptions_count k) xs,
          subscriptions_count := last_count (subscriptions_count k) xs\<rparr>))"
  using assms
proof (induction xs arbitrary: w k)
  case Nil
  then show ?case by simp
next
  case (Cons x xs)
  note pub = publish_step [OF Cons.prems(1)]
  have rest: "loan_laws api (borrowed_in xs)"
    using Cons.prems(2) by (auto simp: loan_laws_def borrowed_in_def List.map_filter_def split: option.splits if_splits)
  have loan: "publishLoanedMsg (loan_valid api) (loan_get api) (loan_set_data api) l this w = publish_sink this String_type ''loaned_msg'' w"
    if "x = Loaned l" for l
    using Cons.prems(2) that by (simp add: loan_laws_def borrowed_in_def List.map_filter_def publishLoanedMsg_def publish_loaned_def)
  have count: "get_subscription_count base this String_type w = Inr (base + subscriptions_count k)" for base
    using Cons.prems by (simp add: get_subscription_count_def)
  have set_count: "publisher_mock_of this String_type (w\<lparr>memory := modify a (on_publisher_mock (setSubscriptionCount n)) (memory w)\<rparr>) =
      Inr (Some (a, setSubscriptionCount n k))" for n
    by (rule publisher_mock_of_modify [where f = "setSubscriptionCount n", OF Cons.prems(1)])
       (use Cons.prems in \<open>simp add: publisher_mock_of_Some setSubscriptionCount_def\<close>)
  show ?case
    using Cons.IH [OF pub(2) rest] Cons.IH [OF set_count rest] Cons.IH [OF Cons.prems(1) rest]
    by (cases x) (auto simp: timer_callback_body_def publishCopy_def publishUniquePtr_def publishIfSubscribersListening_def loan
        publish_unique_ptr_def publish_ref_def pub(1) count mock_publish_def setSubscriptionCount_def size_t_sum_zero)
qed


text \<open>A loaned message is published like any other while the loan is valid, and refused otherwise
  without reaching the mock.\<close>

lemma loaned_message_published:
  assumes "publisher_mock_of this String_type w = Inr (Some (a, k))" and "get (set_data ''loaned_msg'' l) = ''loaned_msg''"
  shows "if is_valid (set_data ''loaned_msg'' l)
    then \<exists>w'. publishLoanedMsg is_valid get set_data l this w = (Inr (), w') \<and>
      publisher_mock_of this String_type w' = Inr (Some (a, k\<lparr>publish_calls := publish_calls k @ [''loaned_msg'']\<rparr>))
    else publishLoanedMsg is_valid get set_data l this w = (Inl (Runtime_error ''loaned message is not valid''), w)"
  using publish_step [OF assms(1), of "''loaned_msg''"] assms(2)
  by (auto simp: publishLoanedMsg_def publish_loaned_def mock_publish_def)

section \<open>Properties of the subscriber node\<close>

text \<open>How rclcpp calls the node's only callback.\<close>

definition subscriber_dispatch ::
  "callback \<Rightarrow> string \<Rightarrow> message_info \<Rightarrow> string \<times> string list \<Rightarrow> (string \<times> string list, unit) res" where
  "subscriber_dispatch cb msg info u = subscriber_callback msg u"

text \<open>The subscriber node keeps the last message. After any sequence of messages handed to the
  subscription by a test, none of them fails, \<open>getLastMsg\<close> is the last one (the empty message if there
  was none), and every message was logged once, in order.\<close>

lemma subscriber_keeps_last:
  "\<exists>d. fold (\<lambda>m r. andthen r (\<lambda>_. handle_message_ref subscriber_dispatch s m)) msgs (Inr (), \<lparr>user_state = ([], []), statistics = []\<rparr>) = (Inr (), d)
    \<and> getLastMsg (user_state d) = last ([] # msgs)
    \<and> snd (user_state d) = map (\<lambda>m. ''Received message: '' @ m) msgs"
proof -
  have "fold (\<lambda>m r. andthen r (\<lambda>_. handle_message_ref subscriber_dispatch s m)) msgs (Inr (), d) =
      (Inr (), d\<lparr>user_state := (last (fst (user_state d) # msgs), snd (user_state d) @ map (\<lambda>m. ''Received message: '' @ m) msgs)\<rparr>)" for d
  proof (induction msgs arbitrary: d)
    case (Cons m msgs)
    have "handle_message_ref subscriber_dispatch s m d =
        (Inr (), d\<lparr>user_state := (m, snd (user_state d) @ [''Received message: '' @ m])\<rparr>)"
      by (simp add: handle_message_ref_def handle_message_shared_def handle_message_void_def subscriber_dispatch_def subscriber_callback_def)
    with Cons.IH show ?case by simp
  qed simp
  then show ?thesis by (simp add: getLastMsg_def)
qed

end
