(* ===== verification/Example_Services.thy ===== *)
theory Example_Services
  imports Action_Client_Mock
begin

text \<open>
  Example nodes on services: \<open>ServiceProvider\<close> (service_provider.cpp) and \<open>ServiceClient\<close>
  (service_client.cpp), on top of the services and clients of this library. Lines written to the
  log are kept in the state of the node.
\<close>

section \<open>Messages\<close>

datatype set_bool_msg = Set_request bool | Set_response bool string

abbreviation SetBool :: tyname where
  "SetBool \<equiv> ''std_srvs::srv::SetBool''"

section \<open>ServiceProvider\<close>

record provider =
  provider_state :: bool
  locked :: bool
  provider_log :: "string list"

definition new_ServiceProvider :: provider where
  "new_ServiceProvider = \<lparr>provider_state = False, locked = False, provider_log = []\<rparr>"

text \<open>The service the constructor creates; rclcpp expands its name to \<open>/test_service\<close>.\<close>

definition create_test_service :: "ctrl \<Rightarrow> addr \<Rightarrow> callback \<Rightarrow> ctrl \<Rightarrow> set_bool_msg world \<Rightarrow> set_bool_msg world" where
  "create_test_service c a cb node w = make_shared_service c a
     \<lparr>service_type = SetBool, service_name = ''test_service'', service_node_id = Some node, any_service_callback = cb\<rparr> w"

definition getState :: "provider \<Rightarrow> bool" where
  "getState p = provider_state p"

definition lockService :: "provider \<Rightarrow> provider" where
  "lockService p = p\<lparr>locked := True\<rparr>"

definition unlockService :: "provider \<Rightarrow> provider" where
  "unlockService p = p\<lparr>locked := False\<rparr>"

text \<open>The response is the one rclcpp hands in, with both fields assigned.\<close>

definition handleServiceRequest :: "bool \<Rightarrow> provider \<Rightarrow> set_bool_msg \<times> provider" where
  "handleServiceRequest data p =
     (let p1 = p\<lparr>provider_log := provider_log p @ [''Received service request with data: '' @ (if data then ''true'' else ''false'')]\<rparr>
      in if \<not> locked p1
         then (Set_response True ''State updated successfully'',
               p1\<lparr>provider_log := provider_log p1 @ [''Service is not locked, updating state''], provider_state := data\<rparr>)
         else (Set_response False ''Service is locked, cannot update state'',
               p1\<lparr>provider_log := provider_log p1 @ [''Service is locked, cannot update state'']\<rparr>))"

section \<open>ServiceClient\<close>

record client_node =
  last_call_success :: bool
  last_response_message :: string
  client_log :: "string list"

definition new_ServiceClient :: client_node where
  "new_ServiceClient = \<lparr>last_call_success = False, last_response_message = [], client_log = []\<rparr>"

definition create_test_client :: "ctrl \<Rightarrow> addr \<Rightarrow> ctrl \<Rightarrow> set_bool_msg world \<Rightarrow> set_bool_msg world" where
  "create_test_client c a node w = make_shared_client c a
     \<lparr>client_type = SetBool, client_service_name = ''test_service'', client_node_id = Some node\<rparr> w"

definition getLastCallSuccess :: "client_node \<Rightarrow> bool" where
  "getLastCallSuccess n = last_call_success n"

definition getLastResponseMessage :: "client_node \<Rightarrow> string" where
  "getLastResponseMessage n = last_response_message n"

text \<open>What \<open>get()\<close> of a ready future does: throw, or return a response, which may be a null pointer.\<close>

type_synonym outcome = "exn + (bool \<times> string) option"

text \<open>A log line, both members, and the value returned.\<close>

definition give_up :: "string \<Rightarrow> set_bool_msg world \<times> client_node \<Rightarrow> (set_bool_msg world \<times> client_node, bool) res" where
  "give_up msg wn = (Inr False, (fst wn, (snd wn)\<lparr>client_log := client_log (snd wn) @ [msg], last_call_success := False, last_response_message := msg\<rparr>))"

text \<open>
  The \<open>try\<close> block every method ends with; \<open>what\<close> is the text of an exception. Reading through a
  null response is undefined behaviour, which no handler catches.
\<close>

definition read_response ::
  "(exn \<Rightarrow> string) \<Rightarrow> outcome \<Rightarrow> set_bool_msg world \<times> client_node \<Rightarrow> (set_bool_msg world \<times> client_node, bool) res" where
  "read_response what got wn = (case got of
      Inr (Some (success, message)) \<Rightarrow>
        (Inr success, (fst wn, (snd wn)\<lparr>last_call_success := success, last_response_message := message\<rparr>))
    | Inr None \<Rightarrow> (Inl (Undefined Null_dereference), wn)
    | Inl e \<Rightarrow>
        if is_std_exception e
        then (Inr False, (fst wn, (snd wn)\<lparr>client_log := client_log (snd wn) @ [''Service call error: '' @ what e],
                last_call_success := False, last_response_message := what e\<rparr>))
        else (Inl e, wn))"

text \<open>
  Waiting for a response. \<open>spin\<close> is \<open>spin_until_future_complete\<close>
  of rclcpp: it may run callbacks that change the world, and tells whether the future completed.
\<close>

definition await_response ::
  "(set_bool_msg client_call \<Rightarrow> exn + bool) \<Rightarrow> (outcome future_and_request_id \<Rightarrow> set_bool_msg world \<Rightarrow> (set_bool_msg world, bool) res)
     \<Rightarrow> (exn \<Rightarrow> string) \<Rightarrow> string \<Rightarrow> addr \<Rightarrow> outcome future_and_request_id \<Rightarrow> set_bool_msg world \<times> client_node
     \<Rightarrow> (set_bool_msg world \<times> client_node, bool) res" where
  "await_response act_bool wait what failure this future_and_id wn =
     andthen (on_world (wait future_and_id (fst wn)) (snd wn))
       (\<lambda>completed wn1. if \<not> completed
          then andthen (on_world (remove_pending_request_future act_bool this SetBool future_and_id (fst wn1)) (snd wn1))
                 (\<lambda>_. give_up failure)
          else read_response what (future future_and_id) wn1)"

definition setState ::
  "(set_bool_msg client_call \<Rightarrow> exn + bool) \<Rightarrow> (set_bool_msg client_call \<Rightarrow> exn + outcome future_and_request_id)
     \<Rightarrow> (outcome future_and_request_id \<Rightarrow> set_bool_msg world \<Rightarrow> (set_bool_msg world, bool) res) \<Rightarrow> (exn \<Rightarrow> string)
     \<Rightarrow> addr \<Rightarrow> bool \<Rightarrow> set_bool_msg world \<times> client_node \<Rightarrow> (set_bool_msg world \<times> client_node, bool) res" where
  "setState act_bool act spin what this state wn =
     andthen (on_world (service_is_ready act_bool this SetBool (fst wn)) (snd wn))
       (\<lambda>ready wn1. if \<not> ready then give_up ''Service not available'' wn1
          else andthen (on_world (async_send_request act this SetBool (Set_request state) (fst wn1)) (snd wn1))
                 (await_response act_bool spin what ''Service call failed'' this))"

definition setStateWithCallback ::
  "(set_bool_msg client_call \<Rightarrow> exn + bool) \<Rightarrow> (set_bool_msg client_call \<Rightarrow> exn + outcome future_and_request_id)
     \<Rightarrow> (outcome future_and_request_id \<Rightarrow> set_bool_msg world \<Rightarrow> (set_bool_msg world, bool) res) \<Rightarrow> (exn \<Rightarrow> string)
     \<Rightarrow> addr \<Rightarrow> bool \<Rightarrow> callback \<Rightarrow> set_bool_msg world \<times> client_node \<Rightarrow> (set_bool_msg world \<times> client_node, bool) res" where
  "setStateWithCallback act_bool act spin what this state cb wn =
     andthen (on_world (service_is_ready act_bool this SetBool (fst wn)) (snd wn))
       (\<lambda>ready wn1. if \<not> ready then give_up ''Service not available'' wn1
          else andthen (on_world (async_send_request_cb act this SetBool (Set_request state) cb (fst wn1)) (snd wn1))
                 (await_response act_bool spin what ''Service call failed'' this))"

text \<open>The future of this overload holds the request too, which the method does not use.\<close>

definition setStateWithRequestCallback ::
  "(set_bool_msg client_call \<Rightarrow> exn + bool) \<Rightarrow> (set_bool_msg client_call \<Rightarrow> exn + outcome future_and_request_id)
     \<Rightarrow> (outcome future_and_request_id \<Rightarrow> set_bool_msg world \<Rightarrow> (set_bool_msg world, bool) res) \<Rightarrow> (exn \<Rightarrow> string)
     \<Rightarrow> addr \<Rightarrow> bool \<Rightarrow> callback \<Rightarrow> set_bool_msg world \<times> client_node \<Rightarrow> (set_bool_msg world \<times> client_node, bool) res" where
  "setStateWithRequestCallback act_bool act spin what this state cb wn =
     andthen (on_world (service_is_ready act_bool this SetBool (fst wn)) (snd wn))
       (\<lambda>ready wn1. if \<not> ready then give_up ''Service not available'' wn1
          else andthen (on_world (async_send_request_cb_req act this SetBool (Set_request state) cb (fst wn1)) (snd wn1))
                 (await_response act_bool spin what ''Service call failed'' this))"

text \<open>\<open>wait_for\<close> of a future only waits: whether it is ready is \<open>ready\<close>. The readiness of the service is not asked.\<close>

definition setStateWithTimeout ::
  "(set_bool_msg client_call \<Rightarrow> exn + bool) \<Rightarrow> (set_bool_msg client_call \<Rightarrow> exn + outcome future_and_request_id)
     \<Rightarrow> (outcome future_and_request_id \<Rightarrow> int \<Rightarrow> bool) \<Rightarrow> (exn \<Rightarrow> string)
     \<Rightarrow> addr \<Rightarrow> bool \<Rightarrow> int \<Rightarrow> set_bool_msg world \<times> client_node \<Rightarrow> (set_bool_msg world \<times> client_node, bool) res" where
  "setStateWithTimeout act_bool act ready what this state timeout wn =
     andthen (on_world (async_send_request act this SetBool (Set_request state) (fst wn)) (snd wn))
       (await_response act_bool (\<lambda>f w. (Inr (ready f timeout), w)) what ''Service call timed out'' this)"

definition cancelPendingRequests ::
  "(set_bool_msg client_call \<Rightarrow> exn + size_t) \<Rightarrow> (size_t \<Rightarrow> string) \<Rightarrow> addr \<Rightarrow> set_bool_msg world \<times> client_node
     \<Rightarrow> (set_bool_msg world \<times> client_node, size_t) res" where
  "cancelPendingRequests act show_count this wn =
     andthen (on_world (prune_pending_requests act this SetBool (fst wn)) (snd wn))
       (\<lambda>pruned wn1. (Inr pruned, (fst wn1, (snd wn1)\<lparr>client_log :=
          client_log (snd wn1) @ [''Dropped '' @ show_count pruned @ '' pending request(s)'']\<rparr>)))"

text \<open>The time point is \<open>system_clock::now()\<close> less the age; nanoseconds are the ticks of that clock.\<close>

definition dropRequestsOlderThan ::
  "(int list option \<Rightarrow> set_bool_msg client_call \<Rightarrow> exn + size_t \<times> int list option) \<Rightarrow> (int \<Rightarrow> string) \<Rightarrow> int \<Rightarrow> addr \<Rightarrow> int
     \<Rightarrow> set_bool_msg world \<times> client_node \<Rightarrow> (set_bool_msg world \<times> client_node, int list) res" where
  "dropRequestsOlderThan act show_id now this max_age wn =
     (case checked64 (now - max_age) of
        Inl e \<Rightarrow> (Inl e, wn)
      | Inr time_point \<Rightarrow>
          andthen (on_world (prune_requests_older_than act True this SetBool time_point (Some []) (fst wn)) (snd wn))
            (\<lambda>(count, pruned) wn1.
               let ids = (case pruned of Some v \<Rightarrow> v | None \<Rightarrow> [])
               in (Inr ids, (fst wn1, (snd wn1)\<lparr>client_log := client_log (snd wn1) @
                     map (\<lambda>i. ''Request '' @ show_id i @ '' got no response in time, dropped'') ids\<rparr>))))"


section \<open>Properties of the provider\<close>

text \<open>How rclcpp calls the node's callback: with the request, and an empty response to fill in.\<close>

fun provider_dispatch ::
  "callback \<Rightarrow> ctrl \<Rightarrow> rmw_request_id \<Rightarrow> set_bool_msg \<Rightarrow> set_bool_msg world \<times> provider
     \<Rightarrow> (set_bool_msg world \<times> provider, set_bool_msg option) res" where
  "provider_dispatch cb c hdr (Set_request b) (w, p) =
     (case handleServiceRequest b p of (response, p1) \<Rightarrow> (Inr (Some response), (w, p1)))"
| "provider_dispatch cb c hdr (Set_response b m) wp = (Inl (Undefined Bad_static_cast), wp)"

text \<open>What a test does: lock, unlock, and requests through the mock \<open>k\<close> at address \<open>a\<close>.\<close>

datatype provider_step = Lock | Unlock | Request rmw_request_id bool

fun run_provider :: "addr \<Rightarrow> set_bool_msg service_mock \<Rightarrow> provider_step list \<Rightarrow> set_bool_msg world \<times> provider
    \<Rightarrow> (set_bool_msg world \<times> provider, unit) res" where
  "run_provider a k [] wp = (Inr (), wp)"
| "run_provider a k (Lock # xs) wp = run_provider a k xs (fst wp, lockService (snd wp))"
| "run_provider a k (Unlock # xs) wp = run_provider a k xs (fst wp, unlockService (snd wp))"
| "run_provider a k (Request hdr b # xs) wp =
     andthen (mock_handle_request provider_dispatch a k hdr (Set_request b) wp) (\<lambda>_. run_provider a k xs)"

text \<open>The responses and the final state, from the lock and the state at the start.\<close>

fun expected_responses :: "bool \<Rightarrow> provider_step list \<Rightarrow> (rmw_request_id \<times> set_bool_msg) list" where
  "expected_responses l [] = []"
| "expected_responses l (Lock # xs) = expected_responses True xs"
| "expected_responses l (Unlock # xs) = expected_responses False xs"
| "expected_responses l (Request hdr b # xs) =
     (hdr, if l then Set_response False ''Service is locked, cannot update state''
           else Set_response True ''State updated successfully'') # expected_responses l xs"

fun expected_state :: "bool \<Rightarrow> bool \<Rightarrow> provider_step list \<Rightarrow> bool" where
  "expected_state l st [] = st"
| "expected_state l st (Lock # xs) = expected_state True st xs"
| "expected_state l st (Unlock # xs) = expected_state False st xs"
| "expected_state l st (Request hdr b # xs) = expected_state l (if l then st else b) xs"

text \<open>The service at \<open>q\<close>, owned, and its mock at \<open>a\<close> with the recorded responses.\<close>

definition provider_world :: "addr \<Rightarrow> addr \<Rightarrow> (rmw_request_id \<times> set_bool_msg) list \<Rightarrow> set_bool_msg world \<Rightarrow> bool" where
  "provider_world q a calls w \<longleftrightarrow> (\<exists>s c k. at_ptr (memory w) q = Some (Service_obj s) \<and> shared_from_this (memory w) q = Inr c \<and>
     at_ptr (memory w) a = Some (Service_mock_obj k) \<and> send_response_calls k = calls)"

lemma shared_from_this_modify: "shared_from_this (modify a f m) b = shared_from_this m b"
  by (auto simp: shared_from_this_def modify_def lock_def split: option.split)

lemma provider_world_response:
  assumes "provider_world q a calls w"
  shows "provider_world q a (calls @ [(hdr, rsp)]) (send_response a hdr rsp w)"
proof -
  obtain s c k where "at_ptr (memory w) q = Some (Service_obj s)" "shared_from_this (memory w) q = Inr c"
    "at_ptr (memory w) a = Some (Service_mock_obj k)" "send_response_calls k = calls"
    using assms by (auto simp: provider_world_def)
  then show ?thesis
    by (auto simp: provider_world_def send_response_def shared_from_this_modify modify_at_ptr)
qed

lemma provider_request:
  assumes "provider_world q a calls w" and "sm_service k = q"
  shows "mock_handle_request provider_dispatch a k hdr (Set_request b) (w, p) =
    (Inr (), (send_response a hdr (fst (handleServiceRequest b p)) w, snd (handleServiceRequest b p)))"
  using assms by (auto simp: provider_world_def mock_handle_request_def handle_request_typed_def split_beta)

text \<open>The provider node seen through its mock. For any sequence of locking, unlocking and requests,
  no request fails, the mock records one response per request with the identity of the request,
  in order, successful exactly when the service was not locked, and the state read afterwards is
  the data of the last request that came while it was not locked.\<close>

lemma provider_run:
  assumes "provider_world (sm_service k) a calls w"
  shows "\<exists>w' p'. run_provider a k xs (w, p) = (Inr (), (w', p'))
    \<and> provider_world (sm_service k) a (calls @ expected_responses (locked p) xs) w'
    \<and> getState p' = expected_state (locked p) (getState p) xs"
  using assms
proof (induction xs arbitrary: w p calls)
  case (Cons x xs)
  show ?case
  proof (cases x)
    case (Request hdr b)
    note req = provider_request [OF Cons.prems refl, of hdr b p]
    note world = provider_world_response [OF Cons.prems, of hdr "fst (handleServiceRequest b p)"]
    show ?thesis
      using Cons.IH [OF world, of "snd (handleServiceRequest b p)"]
      by (auto simp: Request req) (auto simp: handleServiceRequest_def getState_def Let_def split: if_splits)
  qed (use Cons.IH [OF Cons.prems, of "lockService p"] Cons.IH [OF Cons.prems, of "unlockService p"] in
      \<open>simp_all add: lockService_def unlockService_def getState_def\<close>)
qed simp

section \<open>Properties of the client\<close>

text \<open>The three methods that spin, and the call each makes on the mock.\<close>

datatype variant = Plain | With_callback callback | With_request_callback callback

fun request_call :: "variant \<Rightarrow> bool \<Rightarrow> set_bool_msg client_call" where
  "request_call Plain b = Async_send_request (Set_request b)"
| "request_call (With_callback cb) b = Async_send_request_with_callback (Set_request b) cb"
| "request_call (With_request_callback cb) b = Async_send_request_with_callback_and_request (Set_request b) cb"

fun set_state where
  "set_state Plain act_bool act spin what this b wn = setState act_bool act spin what this b wn"
| "set_state (With_callback cb) act_bool act spin what this b wn = setStateWithCallback act_bool act spin what this b cb wn"
| "set_state (With_request_callback cb) act_bool act spin what this b wn = setStateWithRequestCallback act_bool act spin what this b cb wn"

text \<open>The client at \<open>this\<close> with a mock at \<open>a\<close> that has recorded \<open>calls\<close>.\<close>

definition client_mocked :: "addr \<Rightarrow> addr \<Rightarrow> set_bool_msg client_call list \<Rightarrow> set_bool_msg world \<Rightarrow> bool" where
  "client_mocked this a calls w \<longleftrightarrow> locked_ptr (memory w) (getMock this w) = Some a \<and>
     (\<exists>k. at_ptr (memory w) a = Some (Service_client_mock_obj k) \<and> cm_type k = SetBool \<and> client_calls k = calls)"

definition recorded :: "addr \<Rightarrow> set_bool_msg client_call \<Rightarrow> set_bool_msg world \<Rightarrow> set_bool_msg world" where
  "recorded a x w = w\<lparr>memory := modify a (record_client_call x) (memory w)\<rparr>"

lemma forward_recorded:
  assumes "client_mocked this a calls w"
  shows "forward_to_client_mock act fallback this SetBool x w = (act x, recorded a x w)"
    and "client_mocked this a (calls @ [x]) (recorded a x w)"
  using assms by (auto simp: client_mocked_def forward_to_client_mock_def recorded_def modify_at_ptr)

text \<open>How a call ends: not ready, not completed in time, or with what the future holds.\<close>

fun call_result :: "bool \<Rightarrow> bool \<Rightarrow> outcome \<Rightarrow> exn + bool" where
  "call_result ready completed got =
     (if \<not> ready \<or> \<not> completed then Inr False
      else case got of Inr (Some (success, message)) \<Rightarrow> Inr success
        | Inr None \<Rightarrow> Inl (Undefined Null_dereference)
        | Inl e \<Rightarrow> if is_std_exception e then Inr False else Inl e)"

lemma read_response_result:
  "fst (read_response what got wn) = call_result True True got"
  "fst (snd (read_response what got wn)) = fst wn"
  "fst (read_response what got wn) = Inr x \<Longrightarrow> last_call_success (snd (snd (read_response what got wn))) = x"
  by (auto simp: read_response_def split: sum.splits option.splits if_splits)

text \<open>The whole method, with the calls it makes on the mock.\<close>

lemma set_state_run:
  assumes "client_mocked this a calls w" and "act_bool Service_is_ready = Inr ready"
    and "act (request_call v b) = Inr f" and "act_bool (Remove_pending_request (request_id f)) = Inr removed"
    and "\<And>u. spin f u = (Inr completed, u)"
  shows "set_state v act_bool act spin what this b (w, n) =
    (let w1 = recorded a Service_is_ready w; w2 = recorded a (request_call v b) w1
     in if \<not> ready then give_up ''Service not available'' (w1, n)
        else if completed then read_response what (future f) (w2, n)
        else give_up ''Service call failed'' (recorded a (Remove_pending_request (request_id f)) w2, n))"
proof -
  let ?w1 = "recorded a Service_is_ready w" and ?w2 = "recorded a (request_call v b) (recorded a Service_is_ready w)"
  have m1: "client_mocked this a (calls @ [Service_is_ready]) ?w1" by (rule forward_recorded(2) [OF assms(1)])
  have m2: "client_mocked this a ((calls @ [Service_is_ready]) @ [request_call v b]) ?w2" by (rule forward_recorded(2) [OF m1])
  note calls = forward_recorded(1) [OF assms(1)] forward_recorded(1) [OF m1] forward_recorded(1) [OF m2]
  have await: "await_response act_bool spin what ''Service call failed'' this f (?w2, n) =
      (if completed then read_response what (future f) (?w2, n)
       else give_up ''Service call failed'' (recorded a (Remove_pending_request (request_id f)) ?w2, n))"
    by (simp add: await_response_def on_world_def assms(4,5) remove_pending_request_future_def remove_pending_request_def calls)
  have "set_state v act_bool act spin what this b (w, n) =
      (if ready then await_response act_bool spin what ''Service call failed'' this f (?w2, n)
       else give_up ''Service not available'' (?w1, n))"
    using assms(2,3)
    by (cases v) (simp_all add: setState_def setStateWithCallback_def setStateWithRequestCallback_def on_world_def
        service_is_ready_def async_send_request_def async_send_request_cb_def async_send_request_cb_req_def calls)
  then show ?thesis by (simp add: await Let_def)
qed

text \<open>C17: The protocol of a service call. All three methods that spin behave alike, whatever they pass
  as a callback: they ask whether the service is ready, send the request only then, and when no
  response arrives in time they remove exactly the pending request they sent. The result is true
  exactly for a successful response in time; every normal return leaves it in \<open>getLastCallSuccess\<close>;
  only a null response and an exception that is not a \<open>std::exception\<close> get through.\<close>

theorem set_state_protocol:
  assumes "client_mocked this a calls w" and "act_bool Service_is_ready = Inr ready"
    and "act (request_call v b) = Inr f" and "act_bool (Remove_pending_request (request_id f)) = Inr removed"
    and "\<And>u. spin f u = (Inr completed, u)"
    and "set_state v act_bool act spin what this b (w, n) = (r, (w', n'))"
  shows "r = call_result ready completed (future f)
    \<and> client_mocked this a (calls @ [Service_is_ready] @ (if ready then [request_call v b] @
        (if completed then [] else [Remove_pending_request (request_id f)]) else [])) w'
    \<and> (\<forall>x. r = Inr x \<longrightarrow> getLastCallSuccess n' = x)"
proof -
  let ?w1 = "recorded a Service_is_ready w" and ?w2 = "recorded a (request_call v b) (recorded a Service_is_ready w)"
  have m1: "client_mocked this a (calls @ [Service_is_ready]) ?w1" by (rule forward_recorded(2) [OF assms(1)])
  have m2: "client_mocked this a ((calls @ [Service_is_ready]) @ [request_call v b]) ?w2" by (rule forward_recorded(2) [OF m1])
  note m3 = forward_recorded(2) [OF m2, of "Remove_pending_request (request_id f)"]
  note run = set_state_run [where act_bool = act_bool and act = act and spin = spin, OF assms(1-5), of what n, unfolded assms(6)]
  show ?thesis
  proof (cases "ready \<and> completed")
    case True
    with run have "read_response what (future f) (?w2, n) = (r, (w', n'))" by simp
    with True m2 read_response_result [of what "future f" "(?w2, n)"] show ?thesis
      by (simp add: getLastCallSuccess_def del: call_result.simps)
  next
    case False
    with run m1 m3 show ?thesis by (auto simp: give_up_def getLastCallSuccess_def Let_def split: if_splits)
  qed
qed

text \<open>The client at 20 with its mock at 70.\<close>

definition mocked_client :: "set_bool_msg world" where
  "mocked_client = attachMock 20 (Some 7) (init_world\<lparr>memory := new_shared 7 70
     (Service_client_mock_obj (new_ServiceClientMock SetBool 20)) empty_mem\<rparr>)"

lemma client_mocked_start: "client_mocked 20 70 [] mocked_client"
  by (simp add: client_mocked_def mocked_client_def mocks.get_attach locked_ptr_def lock_def at_ptr_def new_ServiceClientMock_def)

theorem set_state_protocol_witness:
  "case set_state Plain (\<lambda>x. Inr True) (\<lambda>x. Inr \<lparr>future = Inr None, request_id = 42\<rparr>) (\<lambda>f w. (Inr False, w)) (\<lambda>e. []) 20 True
      (mocked_client, new_ServiceClient) of
    (r, (w', n')) \<Rightarrow> r = Inr False \<and>
      client_mocked 20 70 [Service_is_ready, Async_send_request (Set_request True), Remove_pending_request 42] w'"
  by (rule prod.exhaust [of "set_state Plain (\<lambda>x. Inr True) (\<lambda>x. Inr \<lparr>future = Inr None, request_id = 42\<rparr>) (\<lambda>f w. (Inr False, w)) (\<lambda>e. []) 20 True (mocked_client, new_ServiceClient)"])
     (use set_state_protocol [OF client_mocked_start, of "\<lambda>x. Inr True" True "\<lambda>x. Inr \<lparr>future = Inr None, request_id = 42\<rparr>" Plain True
        "\<lparr>future = Inr None, request_id = 42\<rparr>" True "\<lambda>f w. (Inr False, w)" False "\<lambda>e. []" new_ServiceClient] in \<open>auto\<close>)

text \<open>The variant with a timeout does not ask for readiness, and removes its request on a timeout too.\<close>

lemma set_state_timeout:
  assumes "client_mocked this a calls w" and "act (Async_send_request (Set_request b)) = Inr f"
    and "act_bool (Remove_pending_request (request_id f)) = Inr removed"
    and "setStateWithTimeout act_bool act ready what this b timeout (w, n) = (r, (w', n'))"
  shows "r = call_result True (ready f timeout) (future f)
    \<and> client_mocked this a (calls @ [Async_send_request (Set_request b)] @
        (if ready f timeout then [] else [Remove_pending_request (request_id f)])) w'"
proof -
  let ?w1 = "recorded a (Async_send_request (Set_request b)) w"
  have m1: "client_mocked this a (calls @ [Async_send_request (Set_request b)]) ?w1" by (rule forward_recorded(2) [OF assms(1)])
  note m2 = forward_recorded(2) [OF m1, of "Remove_pending_request (request_id f)"]
  have "setStateWithTimeout act_bool act ready what this b timeout (w, n) =
      (if ready f timeout then read_response what (future f) (?w1, n)
       else give_up ''Service call timed out'' (recorded a (Remove_pending_request (request_id f)) ?w1, n))"
    by (simp add: setStateWithTimeout_def await_response_def on_world_def async_send_request_def assms(2,3)
        remove_pending_request_future_def remove_pending_request_def forward_recorded(1) [OF assms(1)] forward_recorded(1) [OF m1])
  note run = this [unfolded assms(4)]
  show ?thesis
  proof (cases "ready f timeout")
    case True
    with run have "read_response what (future f) (?w1, n) = (r, (w', n'))" by simp
    with True m1 read_response_result(1,2) [of what "future f" "(?w1, n)"] show ?thesis by (simp del: call_result.simps)
  next
    case False
    with run m2 show ?thesis by (auto simp: give_up_def)
  qed
qed

text \<open>The ids dropped are those the client reports, each logged.\<close>

lemma drop_requests_ids:
  assumes "client_mocked this a calls w" and "in_int64 (now - max_age)"
    and "act (Some []) (Prune_requests_older_than (now - max_age)) = Inr (count, Some ids)"
  shows "\<exists>w' n'. dropRequestsOlderThan act show_id now this max_age (w, n) = (Inr ids, (w', n'))
    \<and> client_mocked this a (calls @ [Prune_requests_older_than (now - max_age)]) w'
    \<and> length (client_log n') = length (client_log n) + length ids"
  using forward_recorded(2) [OF assms(1), of "Prune_requests_older_than (now - max_age)"] assms(2,3)
  by (simp add: dropRequestsOlderThan_def prune_requests_older_than_def on_world_def checked64_def forward_recorded(1) [OF assms(1)])

end
