(* ===== verification/Example_Sessions.thy ===== *)
theory Example_Sessions
  imports Sample_Worlds Example_Topics Example_Services Example_Action_Client
begin

text \<open>
  The example nodes under test: the constructors of the nodes are runs of the framework, and a mock
  that a lookup returns in any reachable world, whatever else the test program has created,
  destroyed or looked up before, is one through which the node behaves as the theories of the
  examples show.
\<close>

section \<open>The constructors are runs of the framework\<close>

lemma reachable_test_service:
  "reachable w \<Longrightarrow> fresh_ctrl c w \<Longrightarrow> objs (memory w) a = None \<Longrightarrow> reachable (create_test_service c a cb node w)"
  unfolding create_test_service_def by (rule reachable.move [OF _ step.Create_service])

lemma reachable_test_client:
  "reachable w \<Longrightarrow> fresh_ctrl c w \<Longrightarrow> objs (memory w) a = None \<Longrightarrow> reachable (create_test_client c a node w)"
  unfolding create_test_client_def by (rule reachable.move [OF _ step.Create_client])

lemma reachable_move_client:
  assumes "reachable w" and "fresh_ctrl c w" and "objs (memory w) a = None" and "node \<noteq> c"
  shows "reachable (create_move_client c a node w)"
proof -
  let ?s = "\<lparr>aclient_type = MoveRobot, aclient_action_name = ''move_robot'', aclient_node = Some node, goal_handles = []\<rparr>"
  let ?w1 = "new_action_client a ?s ''/move_robot_client'' w"
  have "reachable ?w1" by (rule reachable.move [OF assms(1) step.Construct_action_client [OF assms(3)]])
  moreover have "fresh_ctrl c ?w1" by (rule fresh_new_action_client [OF assms(2)]) (use assms(4) in simp)
  moreover have "objs (memory ?w1) a = Some \<lparr>payload = Action_client_obj ?s, weak_this = None\<rparr>"
    by (simp add: new_action_client_def)
  ultimately show ?thesis
    unfolding create_move_client_def Let_def by (intro reachable.move [OF _ step.Take_ownership]) auto
qed

lemma reachable_Publisher_node:
  assumes "reachable w" and "fresh_ctrl c w" and "objs (memory w) a = None" and "fresh_ctrl ct w" and "objs (memory w) b = None"
    and "ct \<noteq> c" and "ct \<noteq> node" and "b \<noteq> a"
    and "new_Publisher_node (\<lambda>_ v. (Inr (), v)) c a ct b cb node w = (Inr t, w')"
  shows "reachable w'"
proof -
  let ?p = "\<lparr>publisher_type = String_type, publisher_topic = ''/test_topic'', publisher_node = Some node\<rparr>"
  let ?w1 = "create_publisher c a ?p w"
  have r: "reachable ?w1" by (rule reachable.move [OF assms(1) step.Create_publisher [OF assms(2,3)]])
  have "fresh_ctrl ct ?w1" by (rule fresh_create_publisher [OF assms(4)]) (use assms(6,7) in auto)
  moreover have "objs (memory ?w1) b = None"
    using assms(5,8) by (simp add: create_publisher_def publisher_post_init_setup_def pubs.register_memory)
  ultimately have "step ?w1 (snd (create_timer (\<lambda>_ v. (Inr (), v)) ct b (Some ()) 1000000 500 cb (Some node) (Some ()) ?w1))"
    by (rule step.Create_timer)
  moreover have "w' = snd (create_timer (\<lambda>_ v. (Inr (), v)) ct b (Some ()) 1000000 500 cb (Some node) (Some ()) ?w1)"
    using assms(9) by (auto simp: new_Publisher_node_def split: prod.splits sum.splits)
  ultimately show ?thesis using r reachable.move by blast
qed

section \<open>The mock a lookup creates\<close>

text \<open>
  The contract of a lookup tells the class and target of the mock; the mock is also new, that is
  it has recorded nothing yet.
\<close>

lemma findPublisher_new_mock:
  assumes "findPublisher c a T n s w = (Inr (Some c'), w')"
  shows "\<exists>p. at_ptr (memory w') a = Some (Publisher_mock_obj (new_PublisherMock T p))"
  using assms by (auto simp: findPublisher_def Let_def at_ptr_def split: if_splits option.splits obj.splits prod.splits)

lemma findService_new_mock:
  assumes "findService c a T n s w = (Inr (Some c'), w')"
  shows "\<exists>p. at_ptr (memory w') a = Some (Service_mock_obj \<lparr>sm_type = T, sm_service = p, send_response_calls = []\<rparr>)"
  using assms
  by (auto simp: findService_def new_ServiceMock_def Let_def at_ptr_def split: if_splits option.splits obj.splits prod.splits sum.splits)

lemma findServiceClient_new_mock:
  assumes "findServiceClient c a T n s w = (Inr (Some c'), w')"
  shows "\<exists>p. at_ptr (memory w') a = Some (Service_client_mock_obj (new_ServiceClientMock T p))"
  using assms by (auto simp: findServiceClient_def Let_def at_ptr_def split: if_splits option.splits prod.splits)

lemma findActionClient_new_mock:
  assumes "findActionClient c a T n s w = (Inr (Some c'), w')"
  shows "\<exists>p. at_ptr (memory w') a = Some (Action_client_mock_obj (new_ActionClientMock T p))"
proof -
  obtain r w1 where get: "getActionClient action_client_post_init_setup (Some n) s w = (Inr r, w1)"
    using assms by (auto simp: findActionClient_def andthen_Inr)
  with assms obtain p where "locked_ptr (memory w1) r = Some p" "lock (memory w1) (getMock p w1) = None"
    by (auto simp: findActionClient_def split: option.splits if_splits)
  with assms get show ?thesis by (auto simp: findActionClient_def at_ptr_def)
qed

lemma seen_publisher:
  assumes "world_ok w" and "sees Publishers T n s w = Some p"
  obtains q where "at_ptr (memory w) p = Some (Publisher_obj q)" and "publisher_node q = Some n" and "publisher_topic q = topic_key s"
proof -
  obtain x where "at_ptr (memory w) p = Some x" "entity_id x = Some (Publishers, Some n, lookup_key Publishers s)"
    by (rule seen_entity [OF assms])
  then show thesis using that by (cases x) auto
qed

lemma found_publisher_mocked:
  assumes "reachable w" and "fresh_ctrl c w" and "objs (memory w) a = None"
    and "findPublisher c a T n s w = (Inr (Some c'), w')"
  obtains p where "world_ok w'" and "sees Publishers T n s w' = Some p"
    and "publisher_mock_of p T w' = Inr (Some (a, new_PublisherMock T p))"
proof -
  note found = reachable_world_ok [OF assms(1)] fresh_unused [OF assms(2)] assms(3,4)
  obtain p k where w': "world_ok w'" "sees Publishers T n s w' = Some p" "getMock p w' = Some c"
    "owner (memory w') c = Some a" "at_ptr (memory w') a = Some k" "mock_target k = Some p"
    by (rule find_pub.find_success [OF found])
  have "k = Publisher_mock_obj (new_PublisherMock T p)"
    using w'(5,6) findPublisher_new_mock [OF assms(4)] by (auto simp: new_PublisherMock_def)
  then show thesis
    using w' by (intro that [of p]) (simp_all add: publisher_mock_of_Some locked_ptr_def lock_def new_PublisherMock_def)
qed

lemma locked_shared:
  assumes "world_ok w" and "locked_ptr (memory w) e = Some p"
  shows "\<exists>d. shared_from_this (memory w) p = Inr d"
proof -
  obtain d where d: "owner (memory w) d = Some p" using assms(2) by (auto simp: locked_ptr_Some)
  then obtain x where "objs (memory w) p = Some x" "weak_this x = Some d"
    using assms(1) unfolding world_ok_def mem_ok_def by blast
  with d show ?thesis by (simp add: shared_from_this_def lock_def)
qed

lemma fresh_make_shared_service:
  "fresh_ctrl c w \<Longrightarrow> d \<noteq> c \<Longrightarrow> service_node_id s \<noteq> Some c \<Longrightarrow> fresh_ctrl c (make_shared_service d a s w)"
  unfolding make_shared_service_def service_post_init_setup_def
  by (rule fresh_registers [OF fresh_new_shared registers_ops(3)]) auto

section \<open>Sessions\<close>

text \<open>C19: The publisher node under test. In any reachable world, when a lookup returns a mock for a topic
  of a node, the mock belongs to a publisher of that node on that topic, and any sequence of timer
  firings, calls of the example node's four publishing methods on that publisher and changes of the
  simulated subscription count goes through without an error and appears in the mock as exactly the
  expected messages in order. \<open>publishIfSubscribersListening\<close> publishes just when the 64-bit sum of the
  real subscriptions there are at that call, any number, and of the count last set is not zero. Of
  rclcpp it is assumed that borrowed messages are valid and hold what was written to them.\<close>

theorem publisher_session:
  assumes "reachable w" and "fresh_ctrl c w" and "objs (memory w) a = None"
    and "findPublisher c a String_type n s w = (Inr (Some c'), w')" and "loan_laws api (borrowed_in xs)"
  shows "\<exists>p q. at_ptr (memory w') p = Some (Publisher_obj q) \<and> publisher_node q = Some n \<and> publisher_topic q = topic_key s \<and>
    (\<exists>w''. run_publisher_steps api p a xs w' = (Inr (), w'') \<and>
      publisher_mock_of p String_type w'' = Inr (Some (a, (new_PublisherMock String_type p)
        \<lparr>publish_calls := expected_messages 0 xs, subscriptions_count := last_count 0 xs\<rparr>)))"
proof -
  obtain p where w': "world_ok w'" "sees Publishers String_type n s w' = Some p"
    "publisher_mock_of p String_type w' = Inr (Some (a, new_PublisherMock String_type p))"
    by (rule found_publisher_mocked [OF assms(1-4)])
  obtain q where "at_ptr (memory w') p = Some (Publisher_obj q)" "publisher_node q = Some n" "publisher_topic q = topic_key s"
    by (rule seen_publisher [OF w'(1,2)])
  moreover have "\<exists>w''. run_publisher_steps api p a xs w' = (Inr (), w'') \<and>
      publisher_mock_of p String_type w'' = Inr (Some (a, (new_PublisherMock String_type p)
        \<lparr>publish_calls := expected_messages 0 xs, subscriptions_count := last_count 0 xs\<rparr>))"
    using publisher_steps_recorded [OF w'(3) assms(5)] by (simp add: new_PublisherMock_def)
  ultimately show ?thesis by blast
qed

definition test_publisher_world :: "string world" where
  "test_publisher_world = create_publisher 2 20
     \<lparr>publisher_type = String_type, publisher_topic = ''/test_topic'', publisher_node = Some 1\<rparr> node_world"

text \<open>A loaned message that is its data, and a use of every method.\<close>

definition string_loans :: "string loan_api" where
  "string_loans = \<lparr>loan_valid = \<lambda>l. True, loan_get = \<lambda>l. l, loan_set_data = \<lambda>m l. m\<rparr>"

abbreviation sample_publisher_steps :: "string publisher_step list" where
  "sample_publisher_steps \<equiv> [If_listening 0, Copy, Loaned [], If_listening 3, Set_subscribers 2, If_listening 0,
     Set_subscribers (- 3), If_listening 3, Unique_ptr, Timer_fires]"

theorem publisher_session_witness:
  "\<exists>p w''. run_publisher_steps string_loans p 70 sample_publisher_steps
       (snd (findPublisher 7 70 String_type 1 ''test_topic'' test_publisher_world)) = (Inr (), w'') \<and>
     publisher_mock_of p String_type w'' = Inr (Some (70, (new_PublisherMock String_type p)
       \<lparr>publish_calls := [''copy'', ''loaned_msg'', ''if_subscribers_listening'', ''if_subscribers_listening'', ''unique_ptr'', ''timer''],
        subscriptions_count := - 3\<rparr>))"
proof -
  have dead: "objs (memory (node_world :: string world)) 20 = None" by code_simp
  have r: "reachable test_publisher_world"
    unfolding test_publisher_world_def
    by (rule reachable.move [OF reachable_node_world step.Create_publisher [OF fresh_node_world dead]]) simp
  have f: "fresh_ctrl 7 test_publisher_world"
    unfolding test_publisher_world_def by (intro fresh_create_publisher fresh_node_world) simp_all
  have new: "objs (memory test_publisher_world) 70 = None"
    and found: "fst (findPublisher 7 70 String_type 1 ''test_topic'' test_publisher_world) = Inr (Some 7)" by code_simp+
  have loans: "loan_laws string_loans (borrowed_in sample_publisher_steps)" by (simp add: loan_laws_def string_loans_def)
  have sent: "expected_messages 0 sample_publisher_steps =
      [''copy'', ''loaned_msg'', ''if_subscribers_listening'', ''if_subscribers_listening'', ''unique_ptr'', ''timer'']"
    "last_count 0 sample_publisher_steps = - 3" by code_simp+
  have find: "findPublisher 7 70 String_type 1 ''test_topic'' test_publisher_world =
      (Inr (Some 7), snd (findPublisher 7 70 String_type 1 ''test_topic'' test_publisher_world))"
    by (rule prod_eqI) (simp_all only: found fst_conv snd_conv)
  from publisher_session [OF r f new find loans] show ?thesis unfolding sent by (elim exE conjE) (intro exI conjI)
qed

text \<open>A mock found for a service of a node: the service lives, is of that node, and the mock records its responses.\<close>

lemma found_provider:
  assumes "world_ok w" and "unused c w" and "objs (memory w) a = None"
    and "findService c a SetBool n s w = (Inr (Some c'), w')"
  obtains q svc where "at_ptr (memory w') q = Some (Service_obj svc)" and "service_node_id svc = Some n"
    and "service_type svc = SetBool" and "provider_world q a [] w'" and "world_ok w'"
proof -
  obtain q k where w': "world_ok w'" "sees Services SetBool n s w' = Some q"
    "at_ptr (memory w') a = Some k" "mock_target k = Some q"
    by (rule find_srv.find_success [OF assms])
  let ?k = "\<lparr>sm_type = SetBool, sm_service = q, send_response_calls = []\<rparr>"
  have k: "k = Service_mock_obj ?k" using w'(3,4) findService_new_mock [OF assms(4)] by auto
  obtain x where x: "at_ptr (memory w') q = Some x" "entity_id x = Some (Services, Some n, lookup_key Services s)"
    "checks_type Services \<longrightarrow> entity_type x = Some SetBool"
    "locked_ptr (memory w') (entity_at (table Services (registry w')) (Some n) (lookup_key Services s)) = Some q"
    by (rule seen_entity [OF w'(1,2)])
  then obtain svc where svc: "x = Service_obj svc" "service_node_id svc = Some n" "service_type svc = SetBool" by (cases x) auto
  obtain d where "shared_from_this (memory w') q = Inr d" using locked_shared [OF w'(1) x(4)] by blast
  then have "provider_world q a [] w'" using x(1) w'(3) by (simp add: provider_world_def svc(1) k)
  with that x(1) svc w'(1) show thesis by simp
qed

text \<open>The provider node under test: any sequence of locking, unlocking and requests handed to a mock found in a
  reachable world goes through, with the responses and the final state of \<open>provider_run\<close>.\<close>

lemma provider_session:
  assumes "reachable w" and "fresh_ctrl c w" and "objs (memory w) a = None"
    and "findService c a SetBool n s w = (Inr (Some c'), w')"
  shows "\<exists>q svc. at_ptr (memory w') q = Some (Service_obj svc) \<and> service_node_id svc = Some n \<and> service_type svc = SetBool \<and>
    (\<exists>w'' p'. run_provider a \<lparr>sm_type = SetBool, sm_service = q, send_response_calls = []\<rparr> xs (w', p) = (Inr (), (w'', p')) \<and>
      provider_world q a (expected_responses (locked p) xs) w'' \<and> getState p' = expected_state (locked p) (getState p) xs)"
proof -
  obtain q svc where q: "at_ptr (memory w') q = Some (Service_obj svc)" "service_node_id svc = Some n"
    "service_type svc = SetBool" "provider_world q a [] w'"
    by (rule found_provider [OF reachable_world_ok [OF assms(1)] fresh_unused [OF assms(2)] assms(3,4)])
  let ?k = "\<lparr>sm_type = SetBool, sm_service = q, send_response_calls = []\<rparr>"
  from provider_run [of ?k, unfolded service_mock.select_convs, OF q(4), of xs p] q show ?thesis by auto
qed

definition test_provider_world :: "set_bool_msg world" where
  "test_provider_world = create_test_service 2 20 (Some 0) 1 node_world"

definition request_no :: "int \<Rightarrow> rmw_request_id" where
  "request_no i = \<lparr>writer_guid = [], sequence_number = i\<rparr>"

text \<open>
  The mocks of the two client nodes: after the lookup the client is mocked, with no calls yet, so
  that the protocols of the nodes apply.
\<close>

lemma service_client_session:
  assumes "world_ok w" and "unused c w" and "objs (memory w) a = None"
    and "findServiceClient c a SetBool n s w = (Inr (Some c'), w')"
  shows "\<exists>p cli. at_ptr (memory w') p = Some (Client_obj cli) \<and> client_node_id cli = Some n \<and> client_mocked p a [] w'"
proof -
  obtain p k where w': "world_ok w'" "sees Service_clients SetBool n s w' = Some p" "getMock p w' = Some c"
    "owner (memory w') c = Some a" "at_ptr (memory w') a = Some k" "mock_target k = Some p"
    by (rule find_cli.find_success [OF assms])
  have k: "k = Service_client_mock_obj (new_ServiceClientMock SetBool p)"
    using w'(5,6) findServiceClient_new_mock [OF assms(4)] by (auto simp: new_ServiceClientMock_def)
  obtain x where x: "at_ptr (memory w') p = Some x" "entity_id x = Some (Service_clients, Some n, lookup_key Service_clients s)"
    by (rule seen_entity [OF w'(1,2)])
  then obtain cli where "x = Client_obj cli" "client_node_id cli = Some n" by (cases x) auto
  then show ?thesis
    using x(1) w'(3-5) by (intro exI [of _ p] exI [of _ cli]) (auto simp: client_mocked_def k new_ServiceClientMock_def locked_ptr_def lock_def)
qed

lemma action_client_session:
  assumes "reachable w" and "fresh_ctrl c w" and "objs (memory w) a = None"
    and "findActionClient c a MoveRobot n s w = (Inr (Some c'), w')"
  shows "\<exists>p ac. at_ptr (memory w') p = Some (Action_client_obj ac) \<and> aclient_node ac = Some n \<and> action_mocked p a [] w'"
proof -
  note found = reachable_world_ok [OF assms(1)] fresh_unused [OF assms(2)] assms(3,4)
  obtain p k where w': "world_ok w'" "sees Action_clients MoveRobot n s w' = Some p" "getMock p w' = Some c"
    "owner (memory w') c = Some a" "at_ptr (memory w') a = Some k" "mock_target k = Some p"
    by (rule find_acli.find_success [OF found])
  have k: "k = Action_client_mock_obj (new_ActionClientMock MoveRobot p)"
    using w'(5,6) findActionClient_new_mock [OF assms(4)] by (auto simp: new_ActionClientMock_def)
  obtain x where x: "at_ptr (memory w') p = Some x" "entity_id x = Some (Action_clients, Some n, lookup_key Action_clients s)"
    by (rule seen_entity [OF w'(1,2)])
  then obtain ac where "x = Action_client_obj ac" "aclient_node ac = Some n" by (cases x) auto
  then show ?thesis
    using x(1) w'(3-5) by (intro exI [of _ p] exI [of _ ac]) (auto simp: action_mocked_def k new_ActionClientMock_def locked_ptr_def lock_def)
qed

end
