(* ===== verification/Example_Service_Session.thy ===== *)
theory Example_Service_Session
  imports Example_Sessions
begin

text \<open>
  The example service client and the example service provider in one test program: the test finds
  the mocks of both, the client node calls, and what it sends is handed to the provider through the
  mock of the service; the response that mock records becomes the content of the future the client
  waits on. The carrying between the two mocks is what the test does; each request is answered in
  time, answered too late, or lost.
\<close>

section \<open>A test with both nodes\<close>

datatype fate = Answered | Late | Lost

datatype node_step = Lock_provider | Unlock_provider | Call variant rmw_request_id bool fate

fun response_outcome :: "set_bool_msg \<Rightarrow> outcome" where
  "response_outcome (Set_response ok msg) = Inr (Some (ok, msg))"
| "response_outcome (Set_request b) = Inl (Undefined Bad_static_cast)"

text \<open>The response the mock of the service has recorded last.\<close>

definition last_response :: "addr \<Rightarrow> set_bool_msg world \<Rightarrow> outcome" where
  "last_response a w = (case at_ptr (memory w) a of
      Some (Service_mock_obj k) \<Rightarrow> response_outcome (snd (last (send_response_calls k)))
    | _ \<Rightarrow> Inl (Undefined Dangling_pointer))"

text \<open>The provider's part of a call; a lost request does not reach it.\<close>

fun carry_request where
  "carry_request pa k hdr b fate w p =
     (if fate = Lost then (Inr (), (w, p))
      else mock_handle_request provider_dispatch pa k hdr (Set_request b) (w, p))"

fun run_nodes ::
  "addr \<Rightarrow> addr \<Rightarrow> set_bool_msg service_mock \<Rightarrow> (exn \<Rightarrow> string) \<Rightarrow> node_step list \<Rightarrow> set_bool_msg world \<times> client_node \<times> provider
     \<Rightarrow> (set_bool_msg world \<times> client_node \<times> provider, bool list) res" where
  "run_nodes this pa k what [] wnp = (Inr [], wnp)"
| "run_nodes this pa k what (Lock_provider # xs) (w, n, p) = run_nodes this pa k what xs (w, n, lockService p)"
| "run_nodes this pa k what (Unlock_provider # xs) (w, n, p) = run_nodes this pa k what xs (w, n, unlockService p)"
| "run_nodes this pa k what (Call v hdr b fate # xs) (w, n, p) =
     (case carry_request pa k hdr b fate w p of
        (Inl e, (w1, p1)) \<Rightarrow> (Inl e, (w1, n, p1))
      | (Inr _, (w1, p1)) \<Rightarrow>
          (case set_state v (\<lambda>_. Inr True) (\<lambda>_. Inr \<lparr>future = last_response pa w1, request_id = sequence_number hdr\<rparr>)
                  (\<lambda>_ u. (Inr (fate = Answered), u)) what this b (w1, n) of
             (Inl e, (w2, n2)) \<Rightarrow> (Inl e, (w2, n2, p1))
           | (Inr r, (w2, n2)) \<Rightarrow>
               andthen (run_nodes this pa k what xs (w2, n2, p1)) (\<lambda>rs s. (Inr (r # rs), s))))"

section \<open>What is expected\<close>

fun provider_steps :: "node_step list \<Rightarrow> provider_step list" where
  "provider_steps [] = []"
| "provider_steps (Lock_provider # xs) = Lock # provider_steps xs"
| "provider_steps (Unlock_provider # xs) = Unlock # provider_steps xs"
| "provider_steps (Call v hdr b fate # xs) = (if fate = Lost then [] else [Request hdr b]) @ provider_steps xs"

fun expected_results :: "bool \<Rightarrow> node_step list \<Rightarrow> bool list" where
  "expected_results l [] = []"
| "expected_results l (Lock_provider # xs) = expected_results True xs"
| "expected_results l (Unlock_provider # xs) = expected_results False xs"
| "expected_results l (Call v hdr b fate # xs) = (fate = Answered \<and> \<not> l) # expected_results l xs"

fun node_calls :: "node_step \<Rightarrow> set_bool_msg client_call list" where
  "node_calls (Call v hdr b fate) = [Service_is_ready, request_call v b] @
     (if fate = Answered then [] else [Remove_pending_request (sequence_number hdr)])"
| "node_calls _ = []"

section \<open>The two mocks do not disturb each other\<close>

lemma client_mocked_response:
  assumes "client_mocked this a calls w" and "provider_world q pa resps w"
  shows "client_mocked this a calls (send_response pa hdr rsp w)"
  using assms by (auto simp: client_mocked_def provider_world_def send_response_def modify_at_ptr getMock_def)

lemma provider_world_recorded:
  assumes "client_mocked this a calls w" and "provider_world q pa resps w"
  shows "provider_world q pa resps (recorded a x w)"
  using assms by (auto simp: client_mocked_def provider_world_def recorded_def modify_at_ptr shared_from_this_modify)

definition both_mocked :: "addr \<Rightarrow> addr \<Rightarrow> set_bool_msg client_call list \<Rightarrow> addr \<Rightarrow> addr
    \<Rightarrow> (rmw_request_id \<times> set_bool_msg) list \<Rightarrow> set_bool_msg world \<Rightarrow> bool" where
  "both_mocked this a calls q pa resps w \<longleftrightarrow> client_mocked this a calls w \<and> provider_world q pa resps w"

lemma both_recorded:
  "both_mocked this a calls q pa resps w \<Longrightarrow> both_mocked this a (calls @ [x]) q pa resps (recorded a x w)"
  unfolding both_mocked_def using forward_recorded(2) provider_world_recorded by blast

lemma both_response:
  "both_mocked this a calls q pa resps w \<Longrightarrow> both_mocked this a calls q pa (resps @ [(hdr, rsp)]) (send_response pa hdr rsp w)"
  by (auto simp: both_mocked_def client_mocked_response provider_world_response)

lemma last_response_recorded:
  "both_mocked this a calls q pa (resps @ [(hdr, rsp)]) w \<Longrightarrow> last_response pa w = response_outcome rsp"
  by (auto simp: both_mocked_def provider_world_def last_response_def)

section \<open>One call\<close>

lemma carry_request_effect:
  assumes "both_mocked this a calls (sm_service k) pa resps w"
  shows "\<exists>w1 p1. carry_request pa k hdr b fate w p = (Inr (), (w1, p1)) \<and> locked p1 = locked p \<and>
    both_mocked this a calls (sm_service k) pa
      (resps @ expected_responses (locked p) (if fate = Lost then [] else [Request hdr b])) w1 \<and>
    getState p1 = expected_state (locked p) (getState p) (if fate = Lost then [] else [Request hdr b]) \<and>
    (fate \<noteq> Lost \<longrightarrow> last_response pa w1 = response_outcome (fst (handleServiceRequest b p)))"
proof (cases "fate = Lost")
  case True
  with assms show ?thesis by simp
next
  case False
  let ?rsp = "fst (handleServiceRequest b p)"
  have world: "provider_world (sm_service k) pa resps w" using assms by (simp add: both_mocked_def)
  have both: "both_mocked this a calls (sm_service k) pa (resps @ [(hdr, ?rsp)]) (send_response pa hdr ?rsp w)"
    by (rule both_response [OF assms])
  show ?thesis
    using False both last_response_recorded [OF both]
    by (auto simp: provider_request [OF world refl]) (auto simp: handleServiceRequest_def getState_def Let_def)
qed

lemma set_state_effect:
  assumes "both_mocked this a calls q pa resps w"
    and "completed \<longrightarrow> (\<exists>ok msg. got = Inr (Some (ok, msg)))"
  shows "\<exists>w1 n1. set_state v (\<lambda>_. Inr True) (\<lambda>_. Inr \<lparr>future = got, request_id = i\<rparr>) (\<lambda>_ u. (Inr completed, u)) what this b (w, n)
      = (Inr (completed \<and> (\<exists>msg. got = Inr (Some (True, msg)))), (w1, n1)) \<and>
    both_mocked this a (calls @ [Service_is_ready, request_call v b] @ (if completed then [] else [Remove_pending_request i])) q pa resps w1 \<and>
    getLastCallSuccess n1 = (completed \<and> (\<exists>msg. got = Inr (Some (True, msg))))"
proof -
  let ?f = "\<lparr>future = got, request_id = i\<rparr>"
  let ?w1 = "recorded a Service_is_ready w" and ?w2 = "recorded a (request_call v b) (recorded a Service_is_ready w)"
  have m2: "both_mocked this a ((calls @ [Service_is_ready]) @ [request_call v b]) q pa resps ?w2"
    by (rule both_recorded [OF both_recorded [OF assms(1)]])
  note m3 = both_recorded [OF m2, of "Remove_pending_request i"]
  have "client_mocked this a calls w" using assms(1) by (simp add: both_mocked_def)
  note run = set_state_run [where act_bool = "\<lambda>_. Inr True" and act = "\<lambda>_. Inr ?f" and f = ?f and spin = "\<lambda>_ u. (Inr completed, u)",
      OF this refl refl refl refl, of v what b n]
  show ?thesis
    using assms(2) m2 m3 by (auto simp: run read_response_def give_up_def getLastCallSuccess_def)
qed

section \<open>All calls\<close>

lemma handled_outcome:
  "response_outcome (fst (handleServiceRequest b p)) =
     Inr (Some (\<not> locked p, if locked p then ''Service is locked, cannot update state'' else ''State updated successfully''))"
  by (simp add: handleServiceRequest_def Let_def)

lemma run_nodes_effect:
  assumes "both_mocked this a calls (sm_service k) pa resps w"
  shows "\<exists>w' n' p'. run_nodes this pa k what xs (w, n, p) = (Inr (expected_results (locked p) xs), (w', n', p'))
    \<and> both_mocked this a (calls @ concat (map node_calls xs)) (sm_service k) pa
        (resps @ expected_responses (locked p) (provider_steps xs)) w'
    \<and> getState p' = expected_state (locked p) (getState p) (provider_steps xs)
    \<and> getLastCallSuccess n' = last (getLastCallSuccess n # expected_results (locked p) xs)"
  using assms
proof (induction xs arbitrary: calls resps w n p)
  case (Cons x xs)
  show ?case
  proof (cases x)
    case Lock_provider
    with Cons.IH [OF Cons.prems, of n "lockService p"] show ?thesis by (simp add: lockService_def getState_def)
  next
    case Unlock_provider
    with Cons.IH [OF Cons.prems, of n "unlockService p"] show ?thesis by (simp add: unlockService_def getState_def)
  next
    case (Call v hdr b fate)
    let ?req = "if fate = Lost then [] else [Request hdr b]"
    obtain w1 p1 where one: "carry_request pa k hdr b fate w p = (Inr (), (w1, p1))" "locked p1 = locked p"
      "both_mocked this a calls (sm_service k) pa (resps @ expected_responses (locked p) ?req) w1"
      "getState p1 = expected_state (locked p) (getState p) ?req"
      "fate \<noteq> Lost \<longrightarrow> last_response pa w1 = response_outcome (fst (handleServiceRequest b p))"
      using carry_request_effect [OF Cons.prems, of hdr b fate p] by blast
    have answered: "fate = Answered \<Longrightarrow> last_response pa w1 = Inr (Some (\<not> locked p,
        if locked p then ''Service is locked, cannot update state'' else ''State updated successfully''))"
      using one(5) by (simp add: handled_outcome)
    have result: "(fate = Answered \<and> (\<exists>msg. last_response pa w1 = Inr (Some (True, msg)))) = (fate = Answered \<and> \<not> locked p)"
      using answered by auto
    obtain w2 n2 where two: "set_state v (\<lambda>_. Inr True) (\<lambda>_. Inr \<lparr>future = last_response pa w1, request_id = sequence_number hdr\<rparr>)
          (\<lambda>_ u. (Inr (fate = Answered), u)) what this b (w1, n) = (Inr (fate = Answered \<and> \<not> locked p), (w2, n2))"
      "both_mocked this a (calls @ node_calls x) (sm_service k) pa (resps @ expected_responses (locked p) ?req) w2"
      "getLastCallSuccess n2 = (fate = Answered \<and> \<not> locked p)"
      using set_state_effect [OF one(3), of "fate = Answered" "last_response pa w1" v "sequence_number hdr" what b n] answered
      unfolding result by (auto simp: Call)
    obtain w' n' p' where rest: "run_nodes this pa k what xs (w2, n2, p1) = (Inr (expected_results (locked p) xs), (w', n', p'))"
      "both_mocked this a ((calls @ node_calls x) @ concat (map node_calls xs)) (sm_service k) pa
        ((resps @ expected_responses (locked p) ?req) @ expected_responses (locked p) (provider_steps xs)) w'"
      "getState p' = expected_state (locked p) (getState p1) (provider_steps xs)"
      "getLastCallSuccess n' = last (getLastCallSuccess n2 # expected_results (locked p) xs)"
      using Cons.IH [OF two(2), of n2 p1] one(2) by auto
    have "run_nodes this pa k what (x # xs) (w, n, p) = (Inr (expected_results (locked p) (x # xs)), (w', n', p'))"
      using one(1) two(1) rest(1) by (simp add: Call del: carry_request.simps set_state.simps)
    moreover have "expected_state (locked p) (getState p1) ys = expected_state (locked p) (getState p) (?req @ ys)" for ys
      using one(4) by simp
    moreover have "expected_responses (locked p) (provider_steps (x # xs)) =
        expected_responses (locked p) ?req @ expected_responses (locked p) (provider_steps xs)"
      by (simp add: Call)
    ultimately show ?thesis
      using rest(2-4) two(3) by (auto simp: Call)
  qed
qed simp

section \<open>The session\<close>

text \<open>C18: The service client and the service provider under test. In any reachable world in which lookups
  return mocks for a service and then for a client, the mocks belong to a service and a client of the
  nodes asked for, and whatever sequence of calls (of any of the three kinds), locking and unlocking
  follows, with responses in time, late or requests lost, no call fails. A call returns true exactly
  when its response came in time and the provider was not locked; the provider's state is the data of
  the last request that reached it unlocked, also when the caller had given up by then; the mock of the
  client has seen readiness, one request, and its removal exactly when no response came in time.\<close>

theorem service_session:
  assumes "reachable w0" and "fresh_ctrl c1 w0" and "fresh_ctrl c2 w0" and "c2 \<noteq> c1"
    and "objs (memory w0) a1 = None" and "objs (memory w0) a2 = None" and "a2 \<noteq> a1"
    and srv: "findService c1 a1 SetBool n1 s1 w0 = (Inr (Some d1), w1)"
    and cli: "findServiceClient c2 a2 SetBool n2 s2 w1 = (Inr (Some d2), w2)"
  shows "\<exists>q svc this c. at_ptr (memory w2) q = Some (Service_obj svc) \<and> service_node_id svc = Some n1 \<and>
    at_ptr (memory w2) this = Some (Client_obj c) \<and> client_node_id c = Some n2 \<and>
    (\<exists>w' n' p'. run_nodes this a1 \<lparr>sm_type = SetBool, sm_service = q, send_response_calls = []\<rparr> what xs (w2, n, p) =
        (Inr (expected_results (locked p) xs), (w', n', p')) \<and>
      getState p' = expected_state (locked p) (getState p) (provider_steps xs) \<and>
      getLastCallSuccess n' = last (getLastCallSuccess n # expected_results (locked p) xs) \<and>
      provider_world q a1 (expected_responses (locked p) (provider_steps xs)) w' \<and>
      client_mocked this a2 (concat (map node_calls xs)) w')"
proof -
  have ok: "world_ok w0" using assms(1) by (rule reachable_world_ok)
  have unused: "unused c1 w0" "unused c2 w0" using assms(2,3) by (simp_all add: fresh_unused)
  obtain q svc where q: "at_ptr (memory w1) q = Some (Service_obj svc)" "service_node_id svc = Some n1"
    "service_type svc = SetBool" "provider_world q a1 [] w1" "world_ok w1"
    by (rule found_provider [OF ok unused(1) assms(5) srv])
  obtain k1 where m1: "memory w1 = new_shared c1 a1 k1 (memory w0)" using find_srv.find_memory [OF ok srv] by blast
  have free: "objs (memory w1) a2 = None" using assms(6,7) by (simp add: m1)
  have c2: "unused c2 w1" by (rule find_srv.find_unused [OF ok srv unused(2) assms(4)])
  obtain this c where target: "at_ptr (memory w2) this = Some (Client_obj c)" "client_node_id c = Some n2" "client_mocked this a2 [] w2"
    using service_client_session [OF q(5) c2 free cli] by blast
  obtain k2 where m2: "memory w2 = new_shared c2 a2 k2 (memory w1)" using find_cli.find_memory [OF q(5) cli] by blast
  have kept: "at_ptr (memory w2) b = Some x" if "at_ptr (memory w1) b = Some x" for b x
    using that free by (auto simp: m2 at_ptr_def)
  have "shared_from_this (memory w2) q = Inr d" if "shared_from_this (memory w1) q = Inr d" for d
    using that free by (auto simp: m2 shared_from_this_def lock_def split: option.splits if_splits)
  then have "provider_world q a1 [] w2" using q(4) kept unfolding provider_world_def by blast
  then have "both_mocked this a2 [] (sm_service \<lparr>sm_type = SetBool, sm_service = q, send_response_calls = []\<rparr>) a1 [] w2"
    using target(3) by (simp add: both_mocked_def)
  then obtain w' n' p' where run: "run_nodes this a1 \<lparr>sm_type = SetBool, sm_service = q, send_response_calls = []\<rparr> what xs (w2, n, p) =
      (Inr (expected_results (locked p) xs), (w', n', p'))"
    "client_mocked this a2 (concat (map node_calls xs)) w'" "provider_world q a1 (expected_responses (locked p) (provider_steps xs)) w'"
    "getState p' = expected_state (locked p) (getState p) (provider_steps xs)"
    "getLastCallSuccess n' = last (getLastCallSuccess n # expected_results (locked p) xs)"
    using run_nodes_effect [of this a2 "[]" _ a1 "[]" w2 what xs n p] unfolding both_mocked_def by fastforce
  show ?thesis
    by (rule exI [of _ q], rule exI [of _ svc], rule exI [of _ this], rule exI [of _ c])
       (use kept [OF q(1)] q(2) target(1,2) run in blast)
qed

definition both_nodes_world :: "set_bool_msg world" where
  "both_nodes_world = create_test_client 3 30 1 test_provider_world"

lemma reachable_test_provider_world: "reachable test_provider_world"
proof -
  have dead: "objs (memory (node_world :: set_bool_msg world)) 20 = None" by code_simp
  show ?thesis
    unfolding test_provider_world_def by (rule reachable_test_service [OF reachable_node_world fresh_node_world dead]) simp
qed

lemma fresh_test_provider_world: "c \<noteq> 1 \<Longrightarrow> c \<noteq> 2 \<Longrightarrow> fresh_ctrl c test_provider_world"
  unfolding test_provider_world_def create_test_service_def
  by (rule fresh_make_shared_service) (simp_all add: fresh_node_world)

lemma fresh_both_nodes_world: "c \<noteq> 1 \<Longrightarrow> c \<noteq> 2 \<Longrightarrow> c \<noteq> 3 \<Longrightarrow> fresh_ctrl c both_nodes_world"
  unfolding both_nodes_world_def create_test_client_def make_shared_client_def client_post_init_setup_def
  by (rule fresh_registers [OF fresh_new_shared registers_ops(4)]) (auto intro: fresh_test_provider_world)

theorem service_session_witness:
  "\<exists>w1 w2 q this w' n' p'. findService 7 70 SetBool 1 ''test_service'' both_nodes_world = (Inr (Some 7), w1) \<and>
    findServiceClient 8 80 SetBool 1 ''test_service'' w1 = (Inr (Some 8), w2) \<and>
    run_nodes this 70 \<lparr>sm_type = SetBool, sm_service = q, send_response_calls = []\<rparr> (\<lambda>_. [])
      [Call Plain (request_no 1) True Answered, Lock_provider, Call Plain (request_no 2) False Answered,
       Unlock_provider, Call Plain (request_no 3) False Late] (w2, new_ServiceClient, new_ServiceProvider) =
      (Inr [True, False, False], (w', n', p')) \<and> \<not> getState p'"
proof -
  have dead: "objs (memory test_provider_world) 30 = None" by code_simp
  have reach: "reachable both_nodes_world"
    unfolding both_nodes_world_def by (rule reachable_test_client [OF reachable_test_provider_world fresh_test_provider_world dead]) simp_all
  let ?w1 = "snd (findService 7 70 SetBool 1 ''test_service'' both_nodes_world)"
  let ?w2 = "snd (findServiceClient 8 80 SetBool 1 ''test_service'' ?w1)"
  have "fst (findService 7 70 SetBool 1 ''test_service'' both_nodes_world) = Inr (Some 7)" by code_simp
  then have srv: "findService 7 70 SetBool 1 ''test_service'' both_nodes_world = (Inr (Some 7), ?w1)" by (simp add: prod_eq_iff)
  have "fst (findServiceClient 8 80 SetBool 1 ''test_service'' ?w1) = Inr (Some 8)" by code_simp
  then have cli: "findServiceClient 8 80 SetBool 1 ''test_service'' ?w1 = (Inr (Some 8), ?w2)" by (simp add: prod_eq_iff)
  have "objs (memory both_nodes_world) 70 = None" "objs (memory both_nodes_world) 80 = None" by code_simp+
  from service_session [OF reach fresh_both_nodes_world fresh_both_nodes_world _ this _ srv cli, where p = new_ServiceProvider and n = new_ServiceClient
      and what = "\<lambda>_. []" and xs = "[Call Plain (request_no 1) True Answered, Lock_provider, Call Plain (request_no 2) False Answered,
       Unlock_provider, Call Plain (request_no 3) False Late]"] srv cli
  show ?thesis by (simp add: new_ServiceProvider_def getState_def new_ServiceClient_def getLastCallSuccess_def) blast
qed

end
