(* ===== verification/Example_Clock_Sessions.thy ===== *)
theory Example_Clock_Sessions
  imports Example_Sessions Test_Clock
begin

text \<open>
  The example nodes in simulated time: the publisher node whose timer a \<open>TriggeringTestClock\<close> drives,
  from the construction of the node to the messages its mock has recorded, and the debounce node
  on a \<open>TestClock\<close>.
\<close>

section \<open>rcl and the program\<close>

text \<open>
  rcl keeps the clock and the timers (a state \<open>'r\<close>), the program its world. Executing the callback of
  a timer is rclcpp calling what the timer object holds; \<open>call\<close> runs a callback on the world.
\<close>

definition timer_dispatch ::
  "(callback \<Rightarrow> 'm world \<Rightarrow> ('m world, unit) res) \<Rightarrow> ctrl \<Rightarrow> 'm world \<Rightarrow> ('m world, unit) res" where
  "timer_dispatch call t w = (case locked_obj (memory w) (Some t) of
      Some (Timer_obj tm) \<Rightarrow> call (timer_callback tm) w
    | _ \<Rightarrow> (Inl (Undefined Dangling_pointer), w))"

definition program_api ::
  "('r, 'd) rcl_api \<Rightarrow> (callback \<Rightarrow> 'm world \<Rightarrow> ('m world, unit) res) \<Rightarrow> ('r \<times> 'm world, 'd) rcl_api" where
  "program_api api call = \<lparr>
     set_ros_time_override = (\<lambda>v (r, w). case set_ros_time_override api v r of (b, r') \<Rightarrow> (b, (r', w))),
     timer_get_period = (\<lambda>t (r, w). timer_get_period api t r),
     timer_is_ready = (\<lambda>t (r, w). timer_is_ready api t r),
     timer_call = (\<lambda>t (r, w). case timer_call api t r of (d, r') \<Rightarrow> (d, (r', w))),
     timer_execute_callback = (\<lambda>t d (r, w). case timer_dispatch call t w of (x, w') \<Rightarrow> (x, (r, w')))\<rparr>"

text \<open>
  What rcl documents of the clock and the timers, without the callbacks: setting the time forward
  succeeds and touches no timer, a timer is due by its period, and a call moves the due time one
  period on, provided it is not late by more than a period.
\<close>

definition rcl_clock_laws ::
  "('r, 'd) rcl_api \<Rightarrow> ctrl list \<Rightarrow> (ctrl \<Rightarrow> int) \<Rightarrow> ('r \<Rightarrow> int) \<Rightarrow> (ctrl \<Rightarrow> 'r \<Rightarrow> int) \<Rightarrow> bool" where
  "rcl_clock_laws api ts period time next_call \<longleftrightarrow>
     (\<forall>v r. time r \<le> v \<longrightarrow>
        (\<exists>r'. set_ros_time_override api v r = (True, r') \<and> time r' = v \<and> (\<forall>t \<in> set ts. next_call t r' = next_call t r))) \<and>
     (\<forall>t \<in> set ts. \<forall>r. timer_get_period api t r = Some (period t)) \<and>
     (\<forall>t \<in> set ts. \<forall>r. timer_is_ready api t r = (next_call t r \<le> time r)) \<and>
     (\<forall>t \<in> set ts. \<forall>r. \<exists>d r'. timer_call api t r = (Some d, r') \<and> time r' = time r \<and>
        (\<forall>u \<in> set ts. u \<noteq> t \<longrightarrow> next_call u r' = next_call u r) \<and>
        (time r \<le> next_call t r + period t \<longrightarrow> next_call t r' = next_call t r + period t))"

lemma rcl_clock_laws_one: "rcl_clock_laws api [t] period time next_call = rcl_clock_laws api [t] (\<lambda>_. period t) time next_call"
  by (simp add: rcl_clock_laws_def)

text \<open>rcl keeps the period a timer was created with.\<close>

definition created_period :: "'m world \<Rightarrow> ctrl \<Rightarrow> int" where
  "created_period w t = (case locked_obj (memory w) (Some t) of Some (Timer_obj tm) \<Rightarrow> timer_period tm | _ \<Rightarrow> 0)"

text \<open>Such an rcl and callbacks that keep \<open>good\<close> and are counted by \<open>fired\<close> behave as the clock expects.\<close>

lemma program_timer_laws:
  fixes api :: "('r, 'd) rcl_api" and call :: "callback \<Rightarrow> 'm world \<Rightarrow> ('m world, unit) res"
  assumes clock: "rcl_clock_laws api ts period time next_call"
    and calls: "\<And>t w. t \<in> set ts \<Longrightarrow> good w \<Longrightarrow> \<exists>w'. timer_dispatch call t w = (Inr (), w') \<and> good w' \<and>
      (\<forall>u \<in> set ts. fired u w' = (if u = t then Suc (fired u w) else fired u w))"
  shows "rcl_timer_laws (program_api api call) (\<lambda>e. good (snd e)) ts period (\<lambda>e. time (fst e))
    (\<lambda>t e. next_call t (fst e)) (\<lambda>t e. fired t (snd e))"
  unfolding rcl_timer_laws_def
proof (intro conjI allI ballI impI)
  fix v :: int and e :: "'r \<times> 'm world" assume good: "good (snd e)" and v: "time (fst e) \<le> v"
  obtain r' where "set_ros_time_override api v (fst e) = (True, r')" "time r' = v" "\<forall>t \<in> set ts. next_call t r' = next_call t (fst e)"
    using clock v unfolding rcl_clock_laws_def by blast
  with good show "\<exists>e'. set_ros_time_override (program_api api call) v e = (True, e') \<and> good (snd e') \<and> time (fst e') = v \<and>
      (\<forall>t \<in> set ts. next_call t (fst e') = next_call t (fst e) \<and> fired t (snd e') = fired t (snd e))"
    by (intro exI [of _ "(r', snd e)"]) (simp add: program_api_def split_beta)
next
  fix t and e :: "'r \<times> 'm world" assume t: "t \<in> set ts" and good: "good (snd e)"
  show "timer_get_period (program_api api call) t e = Some (period t)"
    "timer_is_ready (program_api api call) t e = (next_call t (fst e) \<le> time (fst e))"
    using clock t by (simp_all add: rcl_clock_laws_def program_api_def split_beta)
  obtain d r' where "timer_call api t (fst e) = (Some d, r')" "time r' = time (fst e)"
    "\<forall>u \<in> set ts. u \<noteq> t \<longrightarrow> next_call u r' = next_call u (fst e)"
    "time (fst e) \<le> next_call t (fst e) + period t \<longrightarrow> next_call t r' = next_call t (fst e) + period t"
    using clock t unfolding rcl_clock_laws_def by blast
  with good show "\<exists>d e'. timer_call (program_api api call) t e = (Some d, e') \<and> good (snd e') \<and> time (fst e') = time (fst e) \<and>
      (\<forall>u \<in> set ts. fired u (snd e') = fired u (snd e) \<and> (u \<noteq> t \<longrightarrow> next_call u (fst e') = next_call u (fst e))) \<and>
      (time (fst e) \<le> next_call t (fst e) + period t \<longrightarrow> next_call t (fst e') = next_call t (fst e) + period t)"
    by (intro exI [of _ d] exI [of _ "(r', snd e)"]) (simp add: program_api_def split_beta)
next
  fix t d and e :: "'r \<times> 'm world" assume "t \<in> set ts" and "good (snd e)"
  with calls obtain w' where "timer_dispatch call t (snd e) = (Inr (), w')" "good w'"
    "\<forall>u \<in> set ts. fired u w' = (if u = t then Suc (fired u (snd e)) else fired u (snd e))" by blast
  then show "\<exists>e'. timer_execute_callback (program_api api call) t d e = (Inr (), e') \<and> good (snd e') \<and> time (fst e') = time (fst e) \<and>
      (\<forall>u \<in> set ts. next_call u (fst e') = next_call u (fst e) \<and>
         fired u (snd e') = (if u = t then Suc (fired u (snd e)) else fired u (snd e)))"
    by (intro exI [of _ "(fst e, w')"]) (simp add: program_api_def split_beta)
qed

section \<open>The publisher node in simulated time\<close>

text \<open>
  The node \<open>n\<close> has just the timer at \<open>t\<close>, and the mock at \<open>b\<close> has recorded \<open>j\<close> messages of it since it
  was \<open>k\<close>.
\<close>

definition ticked :: "weak_ptr \<Rightarrow> addr \<Rightarrow> addr \<Rightarrow> string publisher_mock \<Rightarrow> ctrl \<Rightarrow> timer \<Rightarrow> nat \<Rightarrow> string world \<Rightarrow> bool" where
  "ticked n p b k t tm j w \<longleftrightarrow>
     publisher_mock_of p String_type w = Inr (Some (b, k\<lparr>publish_calls := publish_calls k @ replicate j ''timer''\<rparr>)) \<and>
     locked_obj (memory w) (Some t) = Some (Timer_obj tm) \<and> detail_findTimers n w = [t]"

definition ticks :: "addr \<Rightarrow> string publisher_mock \<Rightarrow> string world \<Rightarrow> nat" where
  "ticks p k w = (case publisher_mock_of p String_type w of
      Inr (Some (b, k')) \<Rightarrow> length (publish_calls k') - length (publish_calls k) | _ \<Rightarrow> 0)"

lemma ticked_ticks: "ticked n p b k t tm j w \<Longrightarrow> ticks p k w = j"
  by (simp add: ticked_def ticks_def)

lemma detail_findTimers_modify: "detail_findTimers n (w\<lparr>memory := modify a f (memory w)\<rparr>) = detail_findTimers n w"
proof -
  have "lock_all (modify a f (memory w)) xs = lock_all (memory w) xs" for xs by (induction xs) (simp_all split: option.split)
  then show ?thesis by (simp add: detail_findTimers_def)
qed

lemma tick:
  assumes "ticked n p b k t tm j w" and "call (timer_callback tm) = timer_callback_body p"
  shows "\<exists>w'. timer_dispatch call t w = (Inr (), w') \<and> ticked n p b k t tm (Suc j) w'"
proof -
  let ?k = "k\<lparr>publish_calls := publish_calls k @ replicate j ''timer''\<rparr>"
  have mock: "publisher_mock_of p String_type w = Inr (Some (b, ?k))" and timer: "locked_obj (memory w) (Some t) = Some (Timer_obj tm)"
    and timers: "detail_findTimers n w = [t]"
    using assms(1) by (simp_all add: ticked_def)
  let ?w = "w\<lparr>memory := modify b (on_publisher_mock (mock_publish ''timer'')) (memory w)\<rparr>"
  have "timer_dispatch call t w = (Inr (), ?w)"
    by (simp add: timer_dispatch_def timer assms(2) timer_callback_body_def publish_unique_ptr_def publish_step(1) [OF mock])
  moreover have "locked_obj (memory ?w) (Some t) = Some (Timer_obj tm)"
    using timer by (auto simp: locked_obj_def modify_at_ptr split: option.splits)
  moreover have "publisher_mock_of p String_type ?w = Inr (Some (b, k\<lparr>publish_calls := publish_calls k @ replicate (Suc j) ''timer''\<rparr>))"
    using publish_step(2) [OF mock, of "''timer''"] by (simp add: mock_publish_def replicate_append_same)
  ultimately show ?thesis using timers by (auto simp: ticked_def detail_findTimers_modify)
qed

text \<open>One call of \<open>advance\<close>.\<close>

lemma clock_drives_publisher:
  assumes "ticked n p b k t tm j w" and "call (timer_callback tm) = timer_callback_body p"
    and "rcl_clock_laws api [t] (\<lambda>_. timer_period tm) time next_call" and "0 < timer_period tm"
    and "time r = now" and "now < next_call t r"
    and "in_int64 now" and "0 \<le> d * u" and "in_int64 (d * u)" and "in_int64 (now + d * u)"
  shows "\<exists>r' w'. triggering_advance (program_api api call) snd n u d (now, (r, w)) = Some (Inr (), (now + d * u, (r', w')))
    \<and> ticked n p b k t tm (j + due_times (timer_period tm) (next_call t r) (now + d * u)) w' \<and> time r' = now + d * u
    \<and> next_call t r' = next_call t r + timer_period tm * int (due_times (timer_period tm) (next_call t r) (now + d * u))"
proof -
  let ?good = "\<lambda>w. \<exists>j. ticked n p b k t tm j w" and ?fired = "\<lambda>_. ticks p k"
  let ?due = "due_times (timer_period tm) (next_call t r) (now + d * u)"
  have "\<exists>w'. timer_dispatch call t' w = (Inr (), w') \<and> ?good w' \<and>
      (\<forall>u \<in> set [t]. ?fired u w' = (if u = t' then Suc (?fired u w) else ?fired u w))" if "t' \<in> set [t]" "?good w" for t' w
    using that tick [where call = call and tm = tm, OF _ assms(2)] ticked_ticks by fastforce
  note laws = program_timer_laws [OF assms(3), of ?good call ?fired, OF this]
  have start: "detail_findTimers n (snd (r, w)) = [t]" "\<exists>j. ticked n p b k t tm j (snd (r, w))"
    using assms(1) by (auto simp: ticked_def)
  have "\<exists>e'. triggering_advance (program_api api call) snd n u d (now, (r, w)) = Some (Inr (), (now + d * u, e')) \<and>
      ?good (snd e') \<and> time (fst e') = now + d * u \<and> (\<forall>t' \<in> set [t]. ticks p k (snd e') = ticks p k (snd (r, w)) +
        due_times (timer_period tm) (next_call t' (fst (r, w))) (now + d * u) \<and>
      next_call t' (fst e') = next_call t' (fst (r, w)) + timer_period tm *
        int (due_times (timer_period tm) (next_call t' (fst (r, w))) (now + d * u)) \<and> now + d * u < next_call t' (fst e'))"
    using advance_fires [where node = n and world_of = snd and e = "(r, w)" and d = d and k = u and now = now, OF start(1) _ _ laws]
      start(2) assms by simp
  then obtain e' where e': "triggering_advance (program_api api call) snd n u d (now, (r, w)) = Some (Inr (), (now + d * u, e'))"
    "\<exists>j. ticked n p b k t tm j (snd e')" "time (fst e') = now + d * u" "ticks p k (snd e') = ticks p k w + ?due"
    "next_call t (fst e') = next_call t r + timer_period tm * int ?due"
    by auto blast
  then have "ticked n p b k t tm (j + ?due) (snd e')"
    using ticked_ticks assms(1) by metis
  with e' show ?thesis by (intro exI [of _ "fst e'"] exI [of _ "snd e'"]) simp
qed

text \<open>Several calls, each by a number of milliseconds.\<close>

primrec advances ::
  "('r \<times> 'm world, 'd) rcl_api \<Rightarrow> weak_ptr \<Rightarrow> int list \<Rightarrow> int \<times> ('r \<times> 'm world) \<Rightarrow> (int \<times> ('r \<times> 'm world), unit) res option" where
  "advances api n [] st = Some (Inr (), st)"
| "advances api n (d # ds) st = (case triggering_advance api snd n 1000000 d st of
      Some (Inr _, st') \<Rightarrow> advances api n ds st' | r \<Rightarrow> r)"

text \<open>The calls a timer that started at time \<open>s\<close> has behind it are those of the periods that are over.\<close>

lemma due_times_from_start:
  assumes "0 < p" and "int j \<le> (T - s) div p"
  shows "j + due_times p (s + p * (int j + 1)) T = nat ((T - s) div p)"
proof -
  let ?q = "(T - s) div p"
  have "(T - (s + p * (int j + 1))) div p = ((T - s) + - (int j + 1) * p) div p" by (simp add: algebra_simps)
  also have "\<dots> = ?q - (int j + 1)" using assms(1) by simp
  finally have q: "(T - (s + p * (int j + 1))) div p = ?q - (int j + 1)" .
  have "T < s + p * (int j + 1) \<longleftrightarrow> ?q < int j + 1"
    using pos_imp_zdiv_neg_iff [OF assms(1), of "T - (s + p * (int j + 1))"] q by simp
  then show ?thesis using assms(2) q by (auto simp: due_times_def)
qed

lemma advances_drive_publisher:
  assumes "call (timer_callback tm) = timer_callback_body p"
    and "rcl_clock_laws api [t] (\<lambda>_. timer_period tm) time next_call" and pos: "0 < timer_period tm"
  shows "ticked n p b k t tm (nat ((now - s) div timer_period tm)) w \<Longrightarrow> time r = now \<Longrightarrow> s \<le> now \<Longrightarrow>
    next_call t r = s + timer_period tm * ((now - s) div timer_period tm + 1) \<Longrightarrow> in_int64 now \<Longrightarrow> 0 \<le> now \<Longrightarrow>
    \<forall>d \<in> set ds. 0 \<le> d \<Longrightarrow> in_int64 (now + sum_list ds * 1000000) \<Longrightarrow>
    \<exists>r' w'. advances (program_api api call) n ds (now, (r, w)) = Some (Inr (), (now + sum_list ds * 1000000, (r', w')))
      \<and> ticked n p b k t tm (nat ((now + sum_list ds * 1000000 - s) div timer_period tm)) w'"
proof (induction ds arbitrary: now r w)
  case (Cons d ds)
  let ?p = "timer_period tm" and ?now = "now + d * 1000000"
  have nonneg: "0 \<le> d" "0 \<le> sum_list ds" using Cons.prems(7) by (auto intro: sum_list_nonneg)
  then have range: "in_int64 (d * 1000000)" "in_int64 ?now"
    using Cons.prems(5,6,8) by (auto simp: in_int64_def int64_min_def)
  have div: "0 \<le> (now - s) div ?p" "(now - s) div ?p \<le> (?now - s) div ?p"
    using pos nonneg Cons.prems(3) by (simp_all add: pos_imp_zdiv_nonneg_iff zdiv_mono1)
  have "now < next_call t r"
    using pos_mod_bound [OF pos, of "now - s"] mult_div_mod_eq [of ?p "now - s"] Cons.prems(4) unfolding distrib_left by linarith
  moreover have due: "nat ((now - s) div ?p) + due_times ?p (next_call t r) ?now = nat ((?now - s) div ?p)"
    using due_times_from_start [OF pos, of "nat ((now - s) div ?p)" ?now s] div Cons.prems(4) by simp
  ultimately obtain r' w' where r': "triggering_advance (program_api api call) snd n 1000000 d (now, (r, w)) = Some (Inr (), (?now, (r', w')))"
    "ticked n p b k t tm (nat ((?now - s) div ?p)) w'" "time r' = ?now" "next_call t r' = next_call t r + ?p * int (due_times ?p (next_call t r) ?now)"
    using clock_drives_publisher [where call = call and tm = tm and next_call = next_call and d = d and u = 1000000,
        OF Cons.prems(1) assms(1,2) pos Cons.prems(2) _ Cons.prems(5) _ range] nonneg by auto
  have "int (due_times ?p (next_call t r) ?now) = (?now - s) div ?p - (now - s) div ?p" using due div by linarith
  from r'(4) [unfolded this] have "next_call t r' = s + ?p * ((?now - s) div ?p + 1)" using Cons.prems(4) by (simp add: algebra_simps)
  from Cons.IH [OF r'(2,3) _ this range(2)] show ?case using r'(1) Cons.prems nonneg by (simp add: algebra_simps)
qed simp

text \<open>What the lookup of the publisher sees while the rest of the constructor runs.\<close>

lemma created_publisher_seen:
  assumes "fresh_ctrl c w" and "publisher_node p = Some n" and "publisher_topic p = topic_key s" and "s \<noteq> []"
    and "lock (memory w) (entity_at (publishersRegistry (registry w)) (Some n) (topic_key s)) = None"
  shows "sees Publishers (publisher_type p) n s (create_publisher c a p w) = Some a"
    and "getMock q (create_publisher c a p w) = getMock q w"
    and "timersRegistry (registry (create_publisher c a p w)) = timersRegistry (registry w)"
proof -
  have reg: "registers Publishers (Some n) (topic_key s) (Some c)
      (w\<lparr>memory := new_shared c a (Publisher_obj p) (memory w)\<rparr>) (create_publisher c a p w)"
    unfolding create_publisher_def publisher_post_init_setup_def assms(2,3) by (rule registers_ops(1))
  have "entity_at (table Publishers (registry w)) (Some n) (topic_key s) \<noteq> Some c"
    using assms(1) unfolding fresh_ctrl_def unused_def unreferenced_def by blast
  then have "entity_at (table Publishers (registry (create_publisher c a p w))) (Some n) (topic_key s) = Some c"
    using reg assms(5) by (simp add: registers_def entity_at_register_at)
  with reg assms(4) show "sees Publishers (publisher_type p) n s (create_publisher c a p w) = Some a"
    by (simp add: sees_def registers_def locked_ptr_def lock_def at_ptr_def)
  from reg show "getMock q (create_publisher c a p w) = getMock q w"
    "timersRegistry (registry (create_publisher c a p w)) = timersRegistry (registry w)"
    by (simp_all add: registers_def same_but_tables_def getMock_def)
qed


text \<open>A timer that is created next to it changes neither.\<close>

lemma registered_timer_sees:
  assumes ok: "world_ok w" and c: "unused c w" and a: "objs (memory w) a = None"
  shows "sees kd T n s (snd (registerTimer nd (Some c) (w\<lparr>memory := new_shared c a x (memory w)\<rparr>))) = sees kd T n s w"
    and "getMock q (snd (registerTimer nd (Some c) (w\<lparr>memory := new_shared c a x (memory w)\<rparr>))) = getMock q w"
proof (rule sees_cong)
  let ?w = "snd (registerTimer nd (Some c) (w\<lparr>memory := new_shared c a x (memory w)\<rparr>))"
  show "entity_at (table kd (registry ?w)) n k = entity_at (table kd (registry w)) n k" for n k
    by (cases kd) (simp_all add: registerTimer_def split: prod.split)
  show "getMock q ?w = getMock q w" by (simp add: registerTimer_def getMock_def split: prod.split)
  fix n k
  have "entity_at (table kd (registry w)) n k \<noteq> Some c"
    using c by (simp add: unused_def unreferenced_def)
  then show "locked_ptr (memory ?w) (entity_at (table kd (registry w)) n k) =
      locked_ptr (memory w) (entity_at (table kd (registry w)) n k)"
    by (auto simp: locked_ptr_def lock_def split: option.split)
  fix q
  assume "locked_ptr (memory w) (entity_at (table kd (registry w)) n k) = Some q"
  then have "q \<noteq> a" using ok a owner_dead_address by (auto simp: world_ok_def)
  then show "at_ptr (memory ?w) q = at_ptr (memory w) q" by (simp add: at_ptr_def)
qed


abbreviation test_publisher :: "ctrl \<Rightarrow> publisher" where
  "test_publisher node \<equiv> \<lparr>publisher_type = String_type, publisher_topic = ''/test_topic'', publisher_node = Some node\<rparr>"

abbreviation test_timer :: "callback \<Rightarrow> ctrl \<Rightarrow> timer" where
  "test_timer cb node \<equiv> \<lparr>timer_period = 500000000, timer_callback = cb, timer_node = Some node\<rparr>"

text \<open>Control blocks and addresses for the two entities the constructor creates.\<close>

definition room_for_node :: "ctrl \<Rightarrow> addr \<Rightarrow> ctrl \<Rightarrow> addr \<Rightarrow> ctrl \<Rightarrow> 'm world \<Rightarrow> bool" where
  "room_for_node c a ct b node w \<longleftrightarrow> fresh_ctrl c w \<and> fresh_ctrl ct w \<and> ct \<noteq> c \<and> ct \<noteq> node \<and>
     objs (memory w) a = None \<and> objs (memory w) b = None \<and> b \<noteq> a"

lemma period_of_test_timer: "safe_cast_to_period_in_ns 1000000 500 = Inr 500000000"
  by (simp add: safe_cast_to_period_in_ns_def double_eval wrap64_def)

lemma new_Publisher_node_world:
  "new_Publisher_node (\<lambda>_ v. (Inr (), v)) c a ct b cb node w = (Inr ct,
     snd (registerTimer (Some node) (Some ct) ((create_publisher c a (test_publisher node) w)
       \<lparr>memory := new_shared ct b (Timer_obj (test_timer cb node)) (memory (create_publisher c a (test_publisher node) w))\<rparr>)))"
  by (simp add: new_Publisher_node_def create_timer_def add_and_register_def period_of_test_timer Let_def)

lemma publisher_node_created:
  assumes "reachable w" and room: "room_for_node c a ct b node w"
    and "lock (memory w) (entity_at (publishersRegistry (registry w)) (Some node) ''/test_topic'') = None"
    and "lock (memory w) (getMock a w) = None" and "detail_findTimers (Some node) w = []"
    and w1: "new_Publisher_node (\<lambda>_ v. (Inr (), v)) c a ct b cb node w = (Inr t, w1)"
  shows "reachable w1" and "sees Publishers String_type node ''/test_topic'' w1 = Some a"
    and "lock (memory w1) (getMock a w1) = None" and "detail_findTimers (Some node) w1 = [ct]"
    and "locked_obj (memory w1) (Some ct) = Some (Timer_obj (test_timer cb node))"
proof -
  let ?v = "create_publisher c a (test_publisher node) w"
  have room': "fresh_ctrl c w" "fresh_ctrl ct w" "ct \<noteq> c" "ct \<noteq> node" "objs (memory w) a = None" "objs (memory w) b = None" "b \<noteq> a"
    using room by (simp_all add: room_for_node_def)
  have w1_def: "w1 = snd (registerTimer (Some node) (Some ct) (?v\<lparr>memory := new_shared ct b (Timer_obj (test_timer cb node)) (memory ?v)\<rparr>))"
    using w1 unfolding new_Publisher_node_world by (elim Pair_inject) (rule sym)
  show "reachable w1"
    by (rule reachable_Publisher_node [OF assms(1) room'(1,5,2,6,3,4,7) w1])
  have mem: "memory ?v = new_shared c a (Publisher_obj (test_publisher node)) (memory w)"
    by (simp add: create_publisher_def publisher_post_init_setup_def pubs.register_memory)
  have v: "world_ok ?v" "unused ct ?v" "objs (memory ?v) b = None"
    using assms(1) room' fresh_create_publisher [OF room'(2)]
    by (auto simp: mem intro!: reachable_world_ok reachable.move [OF _ step.Create_publisher] fresh_unused)
  have key: "topic_key ''/test_topic'' = ''/test_topic''" by (simp add: topic_key_def)
  note seen = created_publisher_seen [OF room'(1), of "test_publisher node" node "''/test_topic''" a, unfolded key]
  note kept = registered_timer_sees [OF v]
  show "sees Publishers String_type node ''/test_topic'' w1 = Some a"
    using seen(1) assms(3) by (simp add: w1_def kept(1))
  have "Some c \<noteq> getMock a w" "Some ct \<noteq> getMock a w"
    using room'(1,2) by (auto simp: fresh_ctrl_def unused_def unreferenced_def getMock_def findEntity_def split: option.splits)
  moreover have "getMock a w1 = getMock a w" using seen(2) assms(3) by (simp add: w1_def kept(2))
  ultimately show "lock (memory w1) (getMock a w1) = None" using assms(4) by (simp add: w1_def mem)
  have "getTimers n ?v = getTimers n w" for n using seen(3) assms(3) by (simp add: getTimers_def)
  moreover have "Some c \<notin> set (getTimers n w)" "Some ct \<notin> set (getTimers n w)" for n
    using room'(1,2) by (simp_all add: fresh_ctrl_def unused_def unreferenced_def getTimers_def)
  ultimately show "detail_findTimers (Some node) w1 = [ct]"
    using assms(5) by (simp add: w1_def mem detail_findTimers_def getTimers_registerTimer lock_all_new_shared)
  show "locked_obj (memory w1) (Some ct) = Some (Timer_obj (test_timer cb node))"
    by (simp add: w1_def locked_obj_Some at_ptr_def)
qed

text \<open>The lookup of the mock leaves the timers alone.\<close>

lemma findPublisher_keeps_timers:
  assumes "world_ok w" and "unused m w" and "objs (memory w) b = None" and "findPublisher m b T node s w = (Inr (Some m'), w')"
  shows "detail_findTimers n w' = detail_findTimers n w"
    and "locked_obj (memory w) (Some t) = Some x \<Longrightarrow> locked_obj (memory w') (Some t) = Some x"
proof -
  let ?w1 = "snd (getPublisher (Some node) (topic_key s) w)"
  obtain p k where w': "w' = attached m b k p ?w1"
    using assms(4) by (auto simp: findPublisher_def attached_def Let_def split: if_splits option.splits obj.splits prod.splits)
  have look: "only_looks w ?w1" by (rule only_looks_ops(1))
  have "getTimers n w' = getTimers n w"
    using look by (simp add: w' attached_def attachMock_def getTimers_def only_looks_def same_but_tables_def)
  moreover have "Some m \<notin> set (getTimers n w)" using assms(2) by (simp add: unused_def unreferenced_def getTimers_def)
  moreover have mem: "memory w' = new_shared m b k (memory w)" using look by (simp add: w' only_looks_def same_but_tables_def)
  ultimately show "detail_findTimers n w' = detail_findTimers n w" by (simp add: detail_findTimers_def lock_all_new_shared)
  assume t: "locked_obj (memory w) (Some t) = Some x"
  then have "t \<noteq> m" using assms(2) by (auto simp: locked_obj_Some unused_def)
  with t show "locked_obj (memory w') (Some t) = Some x" using assms(3) by (auto simp: mem locked_obj_Some at_ptr_def)
qed


text \<open>C20: The publisher node in simulated time. In any reachable world in which the node has no timer and no
  publisher on its topic yet, the constructor succeeds, the lookup of the topic returns a new mock for its
  publisher, and when the test then advances the triggering clock by any milliseconds, in any number of
  calls, every call returns and the mock has recorded exactly one message per completed period of 500 ms,
  however the time was divided into calls. rcl behaves as documented, with the period it was given when
  the constructor created the timer, which started at that moment.\<close>

theorem publisher_clock_session:
  assumes "reachable w" and "room_for_node c a ct b node w"
    and "lock (memory w) (entity_at (publishersRegistry (registry w)) (Some node) ''/test_topic'') = None"
    and "lock (memory w) (getMock a w) = None" and "detail_findTimers (Some node) w = []"
    and "w1 = snd (new_Publisher_node (\<lambda>_ v. (Inr (), v)) c a ct b cb node w)"
    and "fresh_ctrl m w1" and "objs (memory w1) k = None" and "call cb = timer_callback_body a"
    and "rcl_clock_laws api [ct] (created_period w1) time next_call"
    and "time r = now" and "next_call ct r = now + created_period w1 ct" and "in_int64 now" and "0 \<le> now"
    and "\<forall>d \<in> set ds. 0 \<le> d" and "in_int64 (now + sum_list ds * 1000000)"
  shows "fst (new_Publisher_node (\<lambda>_ v. (Inr (), v)) c a ct b cb node w) = Inr ct \<and>
    (\<exists>w2 r' w3. findPublisher m k String_type node ''/test_topic'' w1 = (Inr (Some m), w2) \<and>
      advances (program_api api call) (Some node) ds (now, (r, w2)) = Some (Inr (), (now + sum_list ds * 1000000, (r', w3))) \<and>
      publisher_mock_of a String_type w3 = Inr (Some (k, (new_PublisherMock String_type a)
        \<lparr>publish_calls := replicate (nat (sum_list ds div 500)) ''timer''\<rparr>)))"
proof -
  have node: "new_Publisher_node (\<lambda>_ v. (Inr (), v)) c a ct b cb node w = (Inr ct, w1)"
    using assms(6) by (simp add: new_Publisher_node_world)
  note w1 = publisher_node_created [OF assms(1-5) node]
  have period: "created_period w1 ct = 500000000" by (simp add: created_period_def w1(5))
  have laws: "rcl_clock_laws api [ct] (\<lambda>_. 500000000) time next_call"
    using assms(10) unfolding rcl_clock_laws_one [of api ct "created_period w1"] period .
  note ok = reachable_world_ok [OF w1(1)] and new = fresh_unused [OF assms(7)]
  have settled: "settled Publishers w1" by (simp add: settled_def)
  have "fst (findPublisher m k String_type node ''/test_topic'' w1) = Inr (Some m)"
    by (rule find_pub.find_granted [OF ok settled w1(2,3)])
  then obtain w2 where w2: "findPublisher m k String_type node ''/test_topic'' w1 = (Inr (Some m), w2)" by (metis prod.collapse)
  have "publisher_mock_of a String_type w2 = Inr (Some (k, new_PublisherMock String_type a))"
    using found_publisher_mocked [OF w1(1) assms(7,8) w2] find_pub.find_keeps_sees [OF ok settled new assms(8) w2] w1(2)
    by (metis option.inject)
  then have "ticked (Some node) a k (new_PublisherMock String_type a) ct (test_timer cb node) 0 w2"
    using findPublisher_keeps_timers [OF ok new assms(8) w2] w1 by (simp add: ticked_def)
  then obtain r' w3 where w3: "advances (program_api api call) (Some node) ds (now, (r, w2)) = Some (Inr (), (now + sum_list ds * 1000000, (r', w3)))"
    "ticked (Some node) a k (new_PublisherMock String_type a) ct (test_timer cb node) (nat (sum_list ds * 1000000 div 500000000)) w3"
    using advances_drive_publisher [where call = call and tm = "test_timer cb node" and now = now and s = now and r = r
        and next_call = next_call and time = time and ds = ds and api = api and t = ct and p = a and n = "Some node" and w = w2
        and k = "new_PublisherMock String_type a" and b = k]
      assms(9,11-16) laws period by auto
  have "sum_list ds * 1000000 div 500000000 = sum_list ds div 500"
    using div_mult_mult2 [of "1000000 :: int" "sum_list ds" 500] by simp
  with w3 w2 node show ?thesis by (simp add: ticked_def new_PublisherMock_def)
qed


lemma fresh_registered_timer:
  assumes "fresh_ctrl c w" and "d \<noteq> c" and "n \<noteq> c" and "timer_node t = Some n"
  shows "fresh_ctrl c (snd (registerTimer (Some n) (Some d) (w\<lparr>memory := new_shared d a (Timer_obj t) (memory w)\<rparr>)))"
proof -
  let ?w = "snd (registerTimer (Some n) (Some d) (w\<lparr>memory := new_shared d a (Timer_obj t) (memory w)\<rparr>))"
  have tables: "table kd (registry ?w) = table kd (registry w)" for kd
    by (cases kd) (simp_all add: registerTimer_def split: prod.split)
  have mocks: "mockRegistry (registry ?w) = mockRegistry (registry w)" by (simp add: registerTimer_def split: prod.split)
  have "Some c \<notin> set (findEntity (timersRegistry (registry ?w)) m [])" for m
    using getTimers_registerTimer [of m "Some n" "Some d" "w\<lparr>memory := new_shared d a (Timer_obj t) (memory w)\<rparr>"] assms(1,2)
    by (auto simp: getTimers_def fresh_ctrl_def unused_def unreferenced_def split: if_splits)
  moreover have "omap_find (timersRegistry (registry ?w)) (Some c) = None"
    using assms(1,3) by (simp add: registerTimer_def omap_at_find fresh_ctrl_def split_beta)
  ultimately show ?thesis
    using assms by (auto simp: fresh_ctrl_def unused_def unreferenced_def tables mocks at_ptr_def)
qed

lemma sim_clock_laws: "rcl_clock_laws (sim_api period) ts period fst (\<lambda>t e. fst (snd e) t)"
  by (auto simp: rcl_clock_laws_def sim_api_def)

text \<open>The world with the node, and a simulated rcl whose only timer has the period of the timer in it.\<close>

definition publisher_node_world :: "string world" where
  "publisher_node_world = snd (new_Publisher_node (\<lambda>_ v. (Inr (), v)) 2 20 3 30 None 1 node_world)"

theorem publisher_clock_session_witness:
  "\<exists>w2 r' w3. findPublisher 7 70 String_type 1 ''/test_topic'' publisher_node_world = (Inr (Some 7), w2) \<and>
    advances (program_api (sim_api (created_period publisher_node_world)) (\<lambda>_. timer_callback_body 20)) (Some 1) [300, 300, 1000]
      (0, ((0, created_period publisher_node_world, (\<lambda>_. 0)), w2)) = Some (Inr (), (1600000000, (r', w3))) \<and>
    publisher_mock_of 20 String_type w3 = Inr (Some (70, (new_PublisherMock String_type 20)
      \<lparr>publish_calls := [''timer'', ''timer'', ''timer'']\<rparr>))"
proof -
  have "room_for_node 2 20 3 30 1 (node_world :: string world)"
    by (simp add: room_for_node_def fresh_node_world) (simp add: node_world_def init_world_def empty_mem_def)
  moreover have "lock (memory (node_world :: string world)) (entity_at (publishersRegistry (registry (node_world :: string world))) (Some 1) ''/test_topic'') = None"
    "lock (memory (node_world :: string world)) (getMock 20 (node_world :: string world)) = None"
    "detail_findTimers (Some 1) (node_world :: string world) = []" by code_simp+
  moreover have "fresh_ctrl 7 publisher_node_world"
    unfolding publisher_node_world_def new_Publisher_node_world snd_conv
    by (intro fresh_registered_timer fresh_create_publisher fresh_node_world) simp_all
  moreover have "objs (memory publisher_node_world) 70 = None"
    by (simp add: publisher_node_world_def new_Publisher_node_world create_publisher_def publisher_post_init_setup_def
        pubs.register_memory node_world_def init_world_def empty_mem_def)
  ultimately show ?thesis
    using publisher_clock_session [where w = node_world and c = 2 and a = 20 and ct = 3 and b = 30 and node = 1 and cb = None
        and m = 7 and k = 70 and call = "\<lambda>_. timer_callback_body 20" and api = "sim_api (created_period publisher_node_world)" and time = fst
        and next_call = "\<lambda>t e. fst (snd e) t" and r = "(0, created_period publisher_node_world, (\<lambda>_. 0))" and now = 0 and ds = "[300, 300, 1000]",
        folded publisher_node_world_def]
    by (simp add: reachable_node_world sim_clock_laws in_int64_def int64_min_def int64_max_def eval_nat_numeral del: advances.simps)
qed


section \<open>The debounce node on a TestClock\<close>

text \<open>A test that advances the clock and sets values; \<open>time\<close> is what the clock of the node reads from the environment.\<close>

datatype debounce_step = Advance int | Set_value int

fun run_debounce ::
  "('e, 'd) rcl_api \<Rightarrow> ('e \<Rightarrow> int) \<Rightarrow> (int \<Rightarrow> int \<Rightarrow> exn + int) \<Rightarrow> debounce_step list \<Rightarrow> (int \<times> 'e) \<times> debounce_node
     \<Rightarrow> ((int \<times> 'e) \<times> debounce_node, unit) res" where
  "run_debounce api time tm [] st = (Inr (), st)"
| "run_debounce api time tm (Advance n # xs) (clk, d) = (case advance api 1000000 n clk of
      (Inl e, clk') \<Rightarrow> (Inl e, (clk', d)) | (Inr _, clk') \<Rightarrow> run_debounce api time tm xs (clk', d))"
| "run_debounce api time tm (Set_value v # xs) (clk, d) = (case debounce_set tm (time (snd clk)) v d of
      (Inl e, d') \<Rightarrow> (Inl e, (clk, d')) | (Inr _, d') \<Rightarrow> run_debounce api time tm xs (clk, d'))"

text \<open>The calls of \<open>set\<close> with the times at which they happen, and the time at the end.\<close>

fun stamped :: "int \<Rightarrow> debounce_step list \<Rightarrow> (int \<times> int) list" where
  "stamped now [] = []"
| "stamped now (Advance n # xs) = stamped (now + n * 1000000) xs"
| "stamped now (Set_value v # xs) = (now, v) # stamped now xs"

fun end_of :: "int \<Rightarrow> debounce_step list \<Rightarrow> int" where
  "end_of now [] = now"
| "end_of now (Advance n # xs) = end_of (now + n * 1000000) xs"
| "end_of now (Set_value v # xs) = end_of now xs"

fun forward :: "debounce_step \<Rightarrow> bool" where
  "forward (Advance n) = (0 \<le> n)"
| "forward (Set_value v) = True"

lemma stamped_in_order:
  "\<forall>x \<in> set xs. forward x \<Longrightarrow> now \<le> end_of now xs \<and> sorted (now # map fst (stamped now xs)) \<and>
     (\<forall>c \<in> set (stamped now xs). fst c \<le> end_of now xs)"
proof (induction now xs rule: stamped.induct)
  case (2 now n xs)
  then show ?case by (fastforce intro: order_trans)
qed auto

lemma run_debounce_calls:
  assumes "\<And>v e. \<exists>e'. set_ros_time_override api v e = (True, e') \<and> time e' = v"
  shows "time e = now \<Longrightarrow> 0 \<le> now \<Longrightarrow> \<forall>x \<in> set xs. forward x \<Longrightarrow> in_int64 (end_of now xs) \<Longrightarrow>
    debounce_calls tm (stamped now xs) d = (Inr (), d') \<Longrightarrow>
    \<exists>e'. run_debounce api time tm xs ((now, e), d) = (Inr (), ((end_of now xs, e'), d')) \<and> time e' = end_of now xs"
proof (induction now xs arbitrary: e d rule: stamped.induct)
  case (2 now n xs)
  let ?now = "now + n * 1000000"
  have n: "0 \<le> n" and "?now \<le> end_of ?now xs" using stamped_in_order [of xs ?now] "2.prems"(3) by auto
  then have range: "in_int64 (n * 1000000)" "in_int64 ?now"
    using "2.prems"(2,4) by (auto simp: in_int64_def int64_min_def)
  obtain e' where "set_ros_time_override api ?now e = (True, e')" "time e' = ?now" using assms by blast
  then show ?case using "2.IH" [of e' d] "2.prems" range n by (auto simp: advance_def checked64_def)
next
  case (3 now v xs)
  then show ?case by (cases "debounce_set tm now v d"; cases "fst (debounce_set tm now v d)") auto
qed auto


text \<open>C36: The debounce node under a \<open>TestClock\<close>. The node is created while the ROS time is zero, the clock is
  constructed for it with \<open>use_sim_time\<close>, and the test then advances the clock by milliseconds and calls
  \<open>set\<close>, in any order. Nothing fails, the clock ends at the sum of the steps, and the value is that of
  the last call that took effect, or zero; such calls are at least the debounce time apart from each
  other and from the construction of the node, and every call that is dropped comes less than the
  debounce time after one of them.\<close>

theorem debounce_session:
  assumes override: "\<And>v e. \<exists>e'. set_ros_time_override api v e = (True, e') \<and> time e' = v"
    and "time_minus_laws tm" and "time e = 0" and "0 \<le> ms" and "in_int64 (ms * 1000000)"
    and "\<forall>x \<in> set xs. forward x" and "in_int64 (end_of 0 xs)"
    and "new_TestClock_node api (Some (True, True, Inr True)) e = (r, clk)"
    and "d0 = new_DebounceNode ms (time e)" and "acc = effective (ms * 1000000) 0 (stamped 0 xs)"
  shows "r = Inr () \<and> (\<exists>clk' d. run_debounce api time tm xs (clk, d0) = (Inr (), (clk', d))
    \<and> clock_now clk' = end_of 0 xs \<and> debounce_get d = snd (last ((0, 0) # acc))
    \<and> sorted_wrt (\<lambda>x y. fst x + ms * 1000000 \<le> fst y) ((0, 0) # acc)
    \<and> (\<forall>c \<in> set (stamped 0 xs). c \<in> set acc \<or>
          (\<exists>x \<in> set ((0, 0) # acc). fst x \<le> fst c \<and> fst c < fst x + ms * 1000000)))"
proof -
  obtain e' where e': "set_ros_time_override api 0 e = (True, e')" "time e' = 0" using override by blast
  then have clk: "r = Inr ()" "clk = (0, e')"
    using assms(8) by (auto simp: new_TestClock_node_def checkedDeref_def new_TestClock_def resetClock_def)
  note order = stamped_in_order [OF assms(6), of 0]
  have range: "\<forall>(t, v) \<in> set (stamped 0 xs). in_int64 t"
    using order assms(7) by (fastforce simp: in_int64_def int64_min_def)
  have zero: "in_int64 0" by (simp add: in_int64_def int64_min_def int64_max_def)
  obtain d where d: "debounce_calls tm (stamped 0 xs) d0 = (Inr (), d)" "debounce_get d = snd (last ((0, 0) # acc))"
    "sorted_wrt (\<lambda>x y. fst x + ms * 1000000 \<le> fst y) ((0, 0) # acc)"
    "\<forall>c \<in> set (stamped 0 xs). c \<in> set acc \<or> (\<exists>x \<in> set ((0, 0) # acc). fst x \<le> fst c \<and> fst c < fst x + ms * 1000000)"
    using debounce_behaviour [OF assms(2,4,5) order_refl zero range _ assms(10)] order
    by (auto simp: assms(3,9))
  obtain e'' where "run_debounce api time tm xs ((0, e'), d0) = (Inr (), ((end_of 0 xs, e''), d))"
    using run_debounce_calls [where api = api and time = time, OF override e'(2) order_refl assms(6,7) d(1)] by blast
  with clk d(2-4) show ?thesis by (auto simp: clock_now_def)
qed

theorem debounce_session_witness:
  "\<exists>clk' d. run_debounce (sim_api (\<lambda>_. 1)) fst (\<lambda>x y. Inr (x - y))
      [Advance 124, Set_value 42, Set_value 123, Advance 122, Set_value 321, Advance 1, Set_value 5]
      (snd (new_TestClock_node (sim_api (\<lambda>_. 1)) (Some (True, True, Inr True)) (0, (\<lambda>_. 0), (\<lambda>_. 0))), new_DebounceNode 123 0) =
      (Inr (), (clk', d)) \<and> clock_now clk' = 247000000 \<and> debounce_get d = 5"
  using debounce_session [where api = "sim_api (\<lambda>_. 1)" and time = fst and tm = "\<lambda>x y. Inr (x - y)" and e = "(0, (\<lambda>_. 0), (\<lambda>_. 0))" and ms = 123
      and xs = "[Advance 124, Set_value 42, Set_value 123, Advance 122, Set_value 321, Advance 1, Set_value 5]", OF _ _ _ _ _ _ _ prod.collapse [symmetric] refl refl]
  by (auto simp: sim_api_def time_minus_laws_def in_int64_def int64_min_def int64_max_def)

end
