(* ===== verification/Entity_Bases.thy ===== *)
theory Entity_Bases
  imports Service_Client_Mock Action_Client_Mock
begin

text \<open>
  The substituted base classes (client_base.hpp, service_base.hpp and, for Jazzy,
  action_client_base.hpp): pruning of pending requests and the registration of a callback for new
  responses or requests. The definitions are read from the Jazzy files; \<open>Distribution_Bases\<close> reads the
  copies of the other distributions.

  Telling the middleware about a callback is a function of the rclcpp library
  (\<open>set_on_new_response_callback(rcl_event_callback_t, const void *)\<close>): the parameter \<open>rcl_set\<close>, on
  a state of the middleware. It is given the storage of the callback, which is the local variable
  of the registration or the member of the object.
\<close>

section \<open>Pending requests\<close>

text \<open>
  The map from request ids to the time and the content of a request, in the order of iteration;
  the result is the count, the map and the vector afterwards.
\<close>

fun prune_loop ::
  "int \<Rightarrow> (int \<times> int \<times> 'p) list \<Rightarrow> int list option \<Rightarrow> (int \<times> int \<times> 'p) list \<times> int list option" where
  "prune_loop time_point [] pruned = ([], pruned)"
| "prune_loop time_point ((i, t, x) # pending) pruned =
     (if t < time_point then prune_loop time_point pending (map_option (\<lambda>v. v @ [i]) pruned)
      else case prune_loop time_point pending pruned of (kept, p) \<Rightarrow> ((i, t, x) # kept, p))"

definition prune_requests_older_than_impl ::
  "(int \<times> int \<times> 'p) list \<Rightarrow> int \<Rightarrow> int list option \<Rightarrow> nat \<times> (int \<times> int \<times> 'p) list \<times> int list option" where
  "prune_requests_older_than_impl pending time_point pruned =
     (let old_size = length pending; (kept, p) = prune_loop time_point pending pruned
      in (old_size - length kept, kept, p))"

section \<open>Callbacks for new responses and requests\<close>

datatype storage = Local_variable nat | Member

text \<open>The member \<open>on_new_response_callback_\<close> (or \<open>on_new_request_callback_\<close>) and the middleware.\<close>

record 'e event_base =
  on_new_callback :: callback
  middleware :: 'e

text \<open>
  The lambda around the user's callback: an exception of either kind is logged and swallowed.
  \<open>call\<close> runs the user's callback on the state of user code.
\<close>

definition guarded_callback ::
  "(nat \<Rightarrow> nat \<Rightarrow> 'u \<Rightarrow> ('u, unit) res) \<Rightarrow> nat \<Rightarrow> nat \<Rightarrow> 'u \<times> string list \<Rightarrow> ('u \<times> string list, unit) res" where
  "guarded_callback call cb n ul =
     (case call cb n (fst ul) of
        (Inr _, u) \<Rightarrow> (Inr (), (u, snd ul))
      | (Inl e, u) \<Rightarrow>
          if is_std_exception e then (Inr (), (u, snd ul @ [''exception in user-provided callback'']))
          else if is_exception e then (Inr (), (u, snd ul @ [''unhandled exception in user-provided callback'']))
          else (Inl e, (u, snd ul)))"

text \<open>Both classes register in two steps: first the local lambda, then the member that holds a copy.\<close>

definition set_callback_twice ::
  "(storage option \<Rightarrow> 'e \<Rightarrow> ('e, unit) res) \<Rightarrow> nat \<Rightarrow> 'e event_base \<Rightarrow> ('e event_base, unit) res" where
  "set_callback_twice rcl_set cb b =
     (case rcl_set (Some (Local_variable cb)) (middleware b) of
        (Inl e, m) \<Rightarrow> (Inl e, b\<lparr>middleware := m\<rparr>)
      | (Inr _, m) \<Rightarrow>
          (case rcl_set (Some Member) m of
             (r, m2) \<Rightarrow> (r, b\<lparr>on_new_callback := Some cb, middleware := m2\<rparr>)))"

definition clear_callback ::
  "(storage option \<Rightarrow> 'e \<Rightarrow> ('e, unit) res) \<Rightarrow> 'e event_base \<Rightarrow> ('e event_base, unit) res" where
  "clear_callback rcl_set b =
     (if on_new_callback b = None then (Inr (), b)
      else case rcl_set None (middleware b) of
        (Inl e, m) \<Rightarrow> (Inl e, b\<lparr>middleware := m\<rparr>)
      | (Inr _, m) \<Rightarrow> (Inr (), b\<lparr>on_new_callback := None, middleware := m\<rparr>))"

definition set_on_new_response_callback ::
  "(storage option \<Rightarrow> 'e \<Rightarrow> ('e, unit) res) \<Rightarrow> callback \<Rightarrow> 'e event_base \<Rightarrow> ('e event_base, unit) res" where
  "set_on_new_response_callback rcl_set cb b =
     (case cb of
        None \<Rightarrow> (Inl (Invalid_argument ''The callback passed to set_on_new_response_callback is not callable.''), b)
      | Some f \<Rightarrow> set_callback_twice rcl_set f b)"

definition clear_on_new_response_callback ::
  "(storage option \<Rightarrow> 'e \<Rightarrow> ('e, unit) res) \<Rightarrow> 'e event_base \<Rightarrow> ('e event_base, unit) res" where
  "clear_on_new_response_callback rcl_set b = clear_callback rcl_set b"

definition set_on_new_request_callback ::
  "(storage option \<Rightarrow> 'e \<Rightarrow> ('e, unit) res) \<Rightarrow> callback \<Rightarrow> 'e event_base \<Rightarrow> ('e event_base, unit) res" where
  "set_on_new_request_callback rcl_set cb b =
     (case cb of
        None \<Rightarrow> (Inl (Invalid_argument ''The callback passed to set_on_new_request_callback is not callable.''), b)
      | Some f \<Rightarrow> set_callback_twice rcl_set f b)"

definition clear_on_new_request_callback ::
  "(storage option \<Rightarrow> 'e \<Rightarrow> ('e, unit) res) \<Rightarrow> 'e event_base \<Rightarrow> ('e event_base, unit) res" where
  "clear_on_new_request_callback rcl_set b = clear_callback rcl_set b"

text \<open>The template of the base class converts the timeout to nanoseconds.\<close>

definition wait_for_service_base :: "(int \<Rightarrow> 'r) \<Rightarrow> int \<Rightarrow> int \<Rightarrow> exn + 'r" where
  "wait_for_service_base wait_for_service_nanoseconds tick_ns timeout =
     (case checked64 (timeout * tick_ns) of Inl e \<Rightarrow> Inl e | Inr ns \<Rightarrow> Inr (wait_for_service_nanoseconds ns))"

section \<open>The action client's base class\<close>

definition base_action_server_is_ready :: bool where
  "base_action_server_is_ready = True"

text \<open>The three asynchronous methods of the base resolve at once to a null pointer.\<close>

definition base_async_send_goal :: "'g \<Rightarrow> 'o \<Rightarrow> ctrl option fut" where
  "base_async_send_goal goal options = Ready None"

definition base_async_get_result :: "'h \<Rightarrow> ctrl option fut" where
  "base_async_get_result goal_handle = Ready None"

definition base_async_cancel_goal :: "'h \<Rightarrow> ctrl option fut" where
  "base_async_cancel_goal goal_handle = Ready None"

text \<open>Nothing is ever ready: the object never wakes an executor.\<close>

definition base_ready_entities :: "nat list" where
  "base_ready_entities = [0, 0, 0, 0, 0]"

definition base_is_ready :: "'ws \<Rightarrow> bool" where
  "base_is_ready wait_set = False"

definition base_wait_for_action_server :: "int \<Rightarrow> bool" where
  "base_wait_for_action_server timeout = True"

section \<open>The action server's base class\<close>

text \<open>It has nothing ready either; publishing and setting callbacks are empty bodies.\<close>

definition server_base_ready_entities :: "nat list" where
  "server_base_ready_entities = [0, 0, 0, 0, 0]"

definition server_base_is_ready :: "'ws \<Rightarrow> bool" where
  "server_base_is_ready wait_set = False"

definition base_take_data :: "ctrl option" where
  "base_take_data = None"

definition base_take_data_by_entity_id :: "nat \<Rightarrow> ctrl option" where
  "base_take_data_by_entity_id i = None"

section \<open>Properties of pruning\<close>

lemma prune_loop_spec:
  "prune_loop T pending pruned =
     (filter (\<lambda>(i, t, x). \<not> t < T) pending,
      map_option (\<lambda>v. v @ map fst (filter (\<lambda>(i, t, x). t < T) pending)) pruned)"
  by (induction T pending pruned rule: prune_loop.induct)
     (auto simp: option.map_comp comp_def option.map_ident split: prod.split)

text \<open>Pruning removes exactly the requests older than the time point and keeps the others in
  order; the count is the number removed, and the ids of the removed ones are appended, in the
  order of the map, to the vector if one is given.\<close>

lemma prune_exact:
  "prune_requests_older_than_impl pending T pruned =
     (length (filter (\<lambda>(i, t, x). t < T) pending),
      filter (\<lambda>(i, t, x). T \<le> t) pending,
      map_option (\<lambda>v. v @ map fst (filter (\<lambda>(i, t, x). t < T) pending)) pruned)"
proof -
  have "length pending - length (filter (\<lambda>(i, t, x). T \<le> t) pending) =
      length (filter (\<lambda>(i, t, x). t < T) pending)"
    using sum_length_filter_compl [of "\<lambda>(i, t, x). t < T" pending]
    by (simp add: case_prod_beta' not_less)
  then show ?thesis
    by (simp add: prune_requests_older_than_impl_def prune_loop_spec Let_def not_less)
qed

section \<open>Properties of the callbacks\<close>

text \<open>
  What the middleware documents: setting succeeds and stores the reference, or fails and keeps
  the one it had; \<open>slot\<close> reads it.
\<close>

definition rcl_set_laws :: "(storage option \<Rightarrow> 'e \<Rightarrow> ('e, unit) res) \<Rightarrow> ('e \<Rightarrow> storage option) \<Rightarrow> bool" where
  "rcl_set_laws rcl_set slot \<longleftrightarrow>
     (\<forall>x m. case rcl_set x m of (Inr _, m') \<Rightarrow> slot m' = x | (Inl _, m') \<Rightarrow> slot m' = slot m)"

text \<open>The reference the middleware holds is null, or the member while it holds a callback.\<close>

definition callback_ok :: "('e \<Rightarrow> storage option) \<Rightarrow> 'e event_base \<Rightarrow> bool" where
  "callback_ok slot b \<longleftrightarrow> slot (middleware b) = None \<or> (slot (middleware b) = Some Member \<and> on_new_callback b \<noteq> None)"

lemma rcl_set_success: "rcl_set_laws f slot \<Longrightarrow> f x m = (Inr u, m') \<Longrightarrow> slot m' = x"
  unfolding rcl_set_laws_def by (metis (mono_tags, lifting) case_prod_conv sum.case(2))

lemma rcl_set_failure: "rcl_set_laws f slot \<Longrightarrow> f x m = (Inl e, m') \<Longrightarrow> slot m' = slot m"
  unfolding rcl_set_laws_def by (metis (mono_tags, lifting) case_prod_conv sum.case(1))

text \<open>
  The two steps, by what the middleware answers to each: a failure of the first changes neither the
  reference nor the member, a failure of the second leaves the reference to the local variable.
\<close>

lemma set_callback_twice_outcome:
  assumes "rcl_set_laws rcl_set slot" and reg: "set_callback_twice rcl_set f b = (r, b')"
  shows "case rcl_set (Some (Local_variable f)) (middleware b) of
      (Inl e, m) \<Rightarrow> r = Inl e \<and> slot (middleware b') = slot (middleware b) \<and> on_new_callback b' = on_new_callback b
    | (Inr _, m) \<Rightarrow> r = fst (rcl_set (Some Member) m) \<and> on_new_callback b' = Some f \<and>
        slot (middleware b') = Some (case r of Inl e \<Rightarrow> Local_variable f | Inr _ \<Rightarrow> Member)"
proof -
  obtain r1 m1 where one: "rcl_set (Some (Local_variable f)) (middleware b) = (r1, m1)" by fastforce
  obtain r2 m2 where two: "rcl_set (Some Member) m1 = (r2, m2)" by fastforce
  show ?thesis
  proof (cases r1)
    case (Inl e)
    with reg one rcl_set_failure [OF assms(1)] show ?thesis by (auto simp: set_callback_twice_def)
  next
    case (Inr u)
    then have "slot m1 = Some (Local_variable f)" using one rcl_set_success [OF assms(1)] by simp
    then have "slot m2 = Some (case r2 of Inl e \<Rightarrow> Local_variable f | Inr _ \<Rightarrow> Member)"
      using two rcl_set_success [OF assms(1)] rcl_set_failure [OF assms(1)] by (cases r2) fastforce+
    with Inr reg one two show ?thesis by (auto simp: set_callback_twice_def)
  qed
qed

lemma clear_callback_outcome:
  assumes "rcl_set_laws rcl_set slot" and "callback_ok slot b" and clear: "clear_callback rcl_set b = (r, b')"
  shows "callback_ok slot b' \<and> (r = Inr () \<longrightarrow> on_new_callback b' = None \<and> slot (middleware b') = None)"
proof (cases "on_new_callback b")
  case None
  with clear assms(2) show ?thesis by (simp add: clear_callback_def callback_ok_def)
next
  case (Some f)
  obtain r1 m where one: "rcl_set None (middleware b) = (r1, m)" by fastforce
  show ?thesis
  proof (cases r1)
    case (Inl e)
    with one rcl_set_failure [OF assms(1), of None "middleware b" e m] assms(2) clear Some show ?thesis
      by (auto simp: clear_callback_def callback_ok_def)
  next
    case (Inr u)
    with one rcl_set_success [OF assms(1), of None "middleware b" u m] clear Some show ?thesis
      by (auto simp: clear_callback_def callback_ok_def)
  qed
qed

text \<open>Clearing also repairs a reference to a dead local variable, since the member then holds a callback.\<close>

lemma clear_callback_success:
  assumes "rcl_set_laws rcl_set slot" and "callback_ok slot b \<or> on_new_callback b \<noteq> None"
    and "clear_callback rcl_set b = (Inr (), b')"
  shows "on_new_callback b' = None \<and> slot (middleware b') = None"
  using assms(2,3) rcl_set_success [OF assms(1), of None "middleware b"]
  by (auto simp: clear_callback_def callback_ok_def split: if_splits prod.splits sum.splits)

text \<open>An exception of the user's callback never reaches the middleware: the registered lambda
  returns normally whatever the callback throws, after one line in the log.\<close>

lemma guarded_callback_contains:
  assumes "call cb n u = (r, u')" and "\<forall>e. r = Inl e \<longrightarrow> is_exception e"
  shows "\<exists>msgs. guarded_callback call cb n (u, log) = (Inr (), (u', log @ msgs)) \<and>
    (msgs = [] \<longleftrightarrow> r = Inr ())"
  using assms by (cases r) (auto simp: guarded_callback_def)

end
