(* ===== verification/Distribution_Bases.thy ===== *)
theory Distribution_Bases
  imports Entity_Bases
begin

text \<open>
  The copies of \<open>client_base.hpp\<close> and \<open>service_base.hpp\<close> for the distributions Kilted and Lyrical. A
  build takes the headers of one distribution; the three copies are edited separately, so each is
  translated from its own file, and the facts about pruning and about the registration of callbacks
  are shown for all of them: what holds of a client or a service does not depend on the distribution.
\<close>

section \<open>Kilted\<close>

fun kilted_prune_loop ::
  "int \<Rightarrow> (int \<times> int \<times> 'p) list \<Rightarrow> int list option \<Rightarrow> (int \<times> int \<times> 'p) list \<times> int list option" where
  "kilted_prune_loop time_point [] pruned = ([], pruned)"
| "kilted_prune_loop time_point ((i, t, x) # pending) pruned =
     (if t < time_point then kilted_prune_loop time_point pending (map_option (\<lambda>v. v @ [i]) pruned)
      else case kilted_prune_loop time_point pending pruned of (kept, p) \<Rightarrow> ((i, t, x) # kept, p))"

definition kilted_prune_requests_older_than_impl ::
  "(int \<times> int \<times> 'p) list \<Rightarrow> int \<Rightarrow> int list option \<Rightarrow> nat \<times> (int \<times> int \<times> 'p) list \<times> int list option" where
  "kilted_prune_requests_older_than_impl pending time_point pruned =
     (let old_size = length pending; (kept, p) = kilted_prune_loop time_point pending pruned
      in (old_size - length kept, kept, p))"

definition kilted_guarded_callback ::
  "(nat \<Rightarrow> nat \<Rightarrow> 'u \<Rightarrow> ('u, unit) res) \<Rightarrow> nat \<Rightarrow> nat \<Rightarrow> 'u \<times> string list \<Rightarrow> ('u \<times> string list, unit) res" where
  "kilted_guarded_callback call cb n ul =
     (case call cb n (fst ul) of
        (Inr _, u) \<Rightarrow> (Inr (), (u, snd ul))
      | (Inl e, u) \<Rightarrow>
          if is_std_exception e then (Inr (), (u, snd ul @ [''exception in user-provided callback'']))
          else if is_exception e then (Inr (), (u, snd ul @ [''unhandled exception in user-provided callback'']))
          else (Inl e, (u, snd ul)))"

definition kilted_set_on_new_response_callback ::
  "(storage option \<Rightarrow> 'e \<Rightarrow> ('e, unit) res) \<Rightarrow> callback \<Rightarrow> 'e event_base \<Rightarrow> ('e event_base, unit) res" where
  "kilted_set_on_new_response_callback rcl_set cb b =
     (case cb of
        None \<Rightarrow> (Inl (Invalid_argument ''The callback passed to set_on_new_response_callback is not callable.''), b)
      | Some new_callback \<Rightarrow>
          andthen (case rcl_set (Some (Local_variable new_callback)) (middleware b) of (r, m) \<Rightarrow> (r, b\<lparr>middleware := m\<rparr>))
            (\<lambda>_ b1. let b2 = b1\<lparr>on_new_callback := Some new_callback\<rparr>
               in case rcl_set (Some Member) (middleware b2) of (r, m) \<Rightarrow> (r, b2\<lparr>middleware := m\<rparr>)))"

definition kilted_clear_on_new_response_callback ::
  "(storage option \<Rightarrow> 'e \<Rightarrow> ('e, unit) res) \<Rightarrow> 'e event_base \<Rightarrow> ('e event_base, unit) res" where
  "kilted_clear_on_new_response_callback rcl_set b =
     (if on_new_callback b \<noteq> None
      then andthen (case rcl_set None (middleware b) of (r, m) \<Rightarrow> (r, b\<lparr>middleware := m\<rparr>))
             (\<lambda>_ b1. (Inr (), b1\<lparr>on_new_callback := None\<rparr>))
      else (Inr (), b))"

definition kilted_set_on_new_request_callback ::
  "(storage option \<Rightarrow> 'e \<Rightarrow> ('e, unit) res) \<Rightarrow> callback \<Rightarrow> 'e event_base \<Rightarrow> ('e event_base, unit) res" where
  "kilted_set_on_new_request_callback rcl_set cb b =
     (case cb of
        None \<Rightarrow> (Inl (Invalid_argument ''The callback passed to set_on_new_request_callback is not callable.''), b)
      | Some new_callback \<Rightarrow>
          andthen (case rcl_set (Some (Local_variable new_callback)) (middleware b) of (r, m) \<Rightarrow> (r, b\<lparr>middleware := m\<rparr>))
            (\<lambda>_ b1. let b2 = b1\<lparr>on_new_callback := Some new_callback\<rparr>
               in case rcl_set (Some Member) (middleware b2) of (r, m) \<Rightarrow> (r, b2\<lparr>middleware := m\<rparr>)))"

definition kilted_clear_on_new_request_callback ::
  "(storage option \<Rightarrow> 'e \<Rightarrow> ('e, unit) res) \<Rightarrow> 'e event_base \<Rightarrow> ('e event_base, unit) res" where
  "kilted_clear_on_new_request_callback rcl_set b =
     (if on_new_callback b \<noteq> None
      then andthen (case rcl_set None (middleware b) of (r, m) \<Rightarrow> (r, b\<lparr>middleware := m\<rparr>))
             (\<lambda>_ b1. (Inr (), b1\<lparr>on_new_callback := None\<rparr>))
      else (Inr (), b))"

definition kilted_wait_for_service_base :: "(int \<Rightarrow> 'r) \<Rightarrow> int \<Rightarrow> int \<Rightarrow> exn + 'r" where
  "kilted_wait_for_service_base wait_for_service_nanoseconds tick_ns timeout =
     (case checked64 (timeout * tick_ns) of Inl e \<Rightarrow> Inl e | Inr ns \<Rightarrow> Inr (wait_for_service_nanoseconds ns))"

section \<open>Lyrical\<close>

fun lyrical_prune_loop ::
  "int \<Rightarrow> (int \<times> int \<times> 'p) list \<Rightarrow> int list option \<Rightarrow> (int \<times> int \<times> 'p) list \<times> int list option" where
  "lyrical_prune_loop time_point [] pruned = ([], pruned)"
| "lyrical_prune_loop time_point ((i, t, x) # pending) pruned =
     (if t < time_point then lyrical_prune_loop time_point pending (map_option (\<lambda>v. v @ [i]) pruned)
      else case lyrical_prune_loop time_point pending pruned of (kept, p) \<Rightarrow> ((i, t, x) # kept, p))"

definition lyrical_prune_requests_older_than_impl ::
  "(int \<times> int \<times> 'p) list \<Rightarrow> int \<Rightarrow> int list option \<Rightarrow> nat \<times> (int \<times> int \<times> 'p) list \<times> int list option" where
  "lyrical_prune_requests_older_than_impl pending time_point pruned =
     (let old_size = length pending; (kept, p) = lyrical_prune_loop time_point pending pruned
      in (old_size - length kept, kept, p))"

definition lyrical_guarded_callback ::
  "(nat \<Rightarrow> nat \<Rightarrow> 'u \<Rightarrow> ('u, unit) res) \<Rightarrow> nat \<Rightarrow> nat \<Rightarrow> 'u \<times> string list \<Rightarrow> ('u \<times> string list, unit) res" where
  "lyrical_guarded_callback call cb n ul =
     (case call cb n (fst ul) of
        (Inr _, u) \<Rightarrow> (Inr (), (u, snd ul))
      | (Inl e, u) \<Rightarrow>
          if is_std_exception e then (Inr (), (u, snd ul @ [''exception in user-provided callback'']))
          else if is_exception e then (Inr (), (u, snd ul @ [''unhandled exception in user-provided callback'']))
          else (Inl e, (u, snd ul)))"

definition lyrical_set_on_new_response_callback ::
  "(storage option \<Rightarrow> 'e \<Rightarrow> ('e, unit) res) \<Rightarrow> callback \<Rightarrow> 'e event_base \<Rightarrow> ('e event_base, unit) res" where
  "lyrical_set_on_new_response_callback rcl_set cb b =
     (case cb of
        None \<Rightarrow> (Inl (Invalid_argument ''The callback passed to set_on_new_response_callback is not callable.''), b)
      | Some new_callback \<Rightarrow>
          andthen (case rcl_set (Some (Local_variable new_callback)) (middleware b) of (r, m) \<Rightarrow> (r, b\<lparr>middleware := m\<rparr>))
            (\<lambda>_ b1. let b2 = b1\<lparr>on_new_callback := Some new_callback\<rparr>
               in case rcl_set (Some Member) (middleware b2) of (r, m) \<Rightarrow> (r, b2\<lparr>middleware := m\<rparr>)))"

definition lyrical_clear_on_new_response_callback ::
  "(storage option \<Rightarrow> 'e \<Rightarrow> ('e, unit) res) \<Rightarrow> 'e event_base \<Rightarrow> ('e event_base, unit) res" where
  "lyrical_clear_on_new_response_callback rcl_set b =
     (if on_new_callback b \<noteq> None
      then andthen (case rcl_set None (middleware b) of (r, m) \<Rightarrow> (r, b\<lparr>middleware := m\<rparr>))
             (\<lambda>_ b1. (Inr (), b1\<lparr>on_new_callback := None\<rparr>))
      else (Inr (), b))"

definition lyrical_set_on_new_request_callback ::
  "(storage option \<Rightarrow> 'e \<Rightarrow> ('e, unit) res) \<Rightarrow> callback \<Rightarrow> 'e event_base \<Rightarrow> ('e event_base, unit) res" where
  "lyrical_set_on_new_request_callback rcl_set cb b =
     (case cb of
        None \<Rightarrow> (Inl (Invalid_argument ''The callback passed to set_on_new_request_callback is not callable.''), b)
      | Some new_callback \<Rightarrow>
          andthen (case rcl_set (Some (Local_variable new_callback)) (middleware b) of (r, m) \<Rightarrow> (r, b\<lparr>middleware := m\<rparr>))
            (\<lambda>_ b1. let b2 = b1\<lparr>on_new_callback := Some new_callback\<rparr>
               in case rcl_set (Some Member) (middleware b2) of (r, m) \<Rightarrow> (r, b2\<lparr>middleware := m\<rparr>)))"

definition lyrical_clear_on_new_request_callback ::
  "(storage option \<Rightarrow> 'e \<Rightarrow> ('e, unit) res) \<Rightarrow> 'e event_base \<Rightarrow> ('e event_base, unit) res" where
  "lyrical_clear_on_new_request_callback rcl_set b =
     (if on_new_callback b \<noteq> None
      then andthen (case rcl_set None (middleware b) of (r, m) \<Rightarrow> (r, b\<lparr>middleware := m\<rparr>))
             (\<lambda>_ b1. (Inr (), b1\<lparr>on_new_callback := None\<rparr>))
      else (Inr (), b))"

definition lyrical_wait_for_service_base :: "(int \<Rightarrow> 'r) \<Rightarrow> int \<Rightarrow> int \<Rightarrow> exn + 'r" where
  "lyrical_wait_for_service_base wait_for_service_nanoseconds tick_ns timeout =
     (case checked64 (timeout * tick_ns) of Inl e \<Rightarrow> Inl e | Inr ns \<Rightarrow> Inr (wait_for_service_nanoseconds ns))"

section \<open>All distributions\<close>

text \<open>The implementations of each operation, one per distribution (and per entity).\<close>

definition prune_impls ::
  "((int \<times> int \<times> 'p) list \<Rightarrow> int \<Rightarrow> int list option \<Rightarrow> nat \<times> (int \<times> int \<times> 'p) list \<times> int list option) list" where
  "prune_impls = [prune_requests_older_than_impl, kilted_prune_requests_older_than_impl, lyrical_prune_requests_older_than_impl]"

definition registrations ::
  "(((storage option \<Rightarrow> 'e \<Rightarrow> ('e, unit) res) \<Rightarrow> callback \<Rightarrow> 'e event_base \<Rightarrow> ('e event_base, unit) res) \<times>
    ((storage option \<Rightarrow> 'e \<Rightarrow> ('e, unit) res) \<Rightarrow> 'e event_base \<Rightarrow> ('e event_base, unit) res)) list" where
  "registrations =
     [(set_on_new_response_callback, clear_on_new_response_callback),
      (set_on_new_request_callback, clear_on_new_request_callback),
      (kilted_set_on_new_response_callback, kilted_clear_on_new_response_callback),
      (kilted_set_on_new_request_callback, kilted_clear_on_new_request_callback),
      (lyrical_set_on_new_response_callback, lyrical_clear_on_new_response_callback),
      (lyrical_set_on_new_request_callback, lyrical_clear_on_new_request_callback)]"

lemma prune_loops:
  "kilted_prune_loop T pending pruned = prune_loop T pending pruned"
  "lyrical_prune_loop T pending pruned = prune_loop T pending pruned"
  by (induction T pending pruned rule: prune_loop.induct) (simp_all split: prod.split)

lemma prune_impls_exact:
  assumes "prune \<in> set prune_impls"
  shows "prune pending T pruned =
     (length (filter (\<lambda>(i, t, x). t < T) pending),
      filter (\<lambda>(i, t, x). T \<le> t) pending,
      map_option (\<lambda>v. v @ map fst (filter (\<lambda>(i, t, x). t < T) pending)) pruned)"
proof -
  have "prune pending T pruned = prune_requests_older_than_impl pending T pruned"
    using assms by (auto simp: prune_impls_def prune_requests_older_than_impl_def prune_loops
        kilted_prune_requests_older_than_impl_def lyrical_prune_requests_older_than_impl_def)
  then show ?thesis by (simp only: prune_exact)
qed

lemma two_steps:
  "andthen (case rcl_set (Some (Local_variable f)) (middleware b) of (r, m) \<Rightarrow> (r, b\<lparr>middleware := m\<rparr>))
     (\<lambda>_ b1. let b2 = b1\<lparr>on_new_callback := Some f\<rparr>
        in case rcl_set (Some Member) (middleware b2) of (r, m) \<Rightarrow> (r, b2\<lparr>middleware := m\<rparr>)) =
   set_callback_twice rcl_set f b"
  by (simp add: set_callback_twice_def andthen_def split: prod.split sum.split)

lemma one_step:
  "(if on_new_callback b \<noteq> None
    then andthen (case rcl_set None (middleware b) of (r, m) \<Rightarrow> (r, b\<lparr>middleware := m\<rparr>))
           (\<lambda>_ b1. (Inr (), b1\<lparr>on_new_callback := None\<rparr>))
    else (Inr (), b)) = clear_callback rcl_set b"
  by (simp add: clear_callback_def andthen_def split: prod.split sum.split)

lemmas registration_defs = set_on_new_response_callback_def set_on_new_request_callback_def
  kilted_set_on_new_response_callback_def kilted_set_on_new_request_callback_def
  lyrical_set_on_new_response_callback_def lyrical_set_on_new_request_callback_def
  clear_on_new_response_callback_def clear_on_new_request_callback_def
  kilted_clear_on_new_response_callback_def kilted_clear_on_new_request_callback_def
  lyrical_clear_on_new_response_callback_def lyrical_clear_on_new_request_callback_def

lemma registrations_same:
  assumes "(register, clear) \<in> set registrations"
  shows "register rcl_set (Some f) b = set_callback_twice rcl_set f b"
    and "clear rcl_set b = clear_callback rcl_set b"
    and "\<exists>msg. register rcl_set None b = (Inl (Invalid_argument msg), b)"
  using assms unfolding registrations_def by (auto simp only: registration_defs two_steps one_step list.set insert_iff empty_iff
      prod.inject option.case)

text \<open>The guarded lambda never lets an exception of the user's callback through, in any copy.\<close>

lemma guarded_callbacks:
  "kilted_guarded_callback call cb n ul = guarded_callback call cb n ul"
  "lyrical_guarded_callback call cb n ul = guarded_callback call cb n ul"
  by (simp_all add: kilted_guarded_callback_def lyrical_guarded_callback_def guarded_callback_def)

text \<open>A timeout whose nanoseconds fit is passed on exactly; any other is undefined behaviour.\<close>

lemma wait_timeouts:
  assumes "wait \<in> {wait_for_service_base, kilted_wait_for_service_base, lyrical_wait_for_service_base}"
  shows "wait w tick timeout = (if in_int64 (timeout * tick) then Inr (w (timeout * tick)) else Inl (Undefined Signed_overflow))"
  using assms by (auto simp: wait_for_service_base_def kilted_wait_for_service_base_def lyrical_wait_for_service_base_def checked64_def)

text \<open>C30: Registering and clearing callbacks for new responses or requests, for clients and services of every
  distribution. A callback that is not callable is refused without effect. When the first step of a
  registration fails, its error is thrown, and the reference of the middleware and the member are what
  they were. When the first succeeds and the second fails, the error of the second is thrown, the member
  holds the new callback, and the middleware refers to the local variable, which no longer exists then.
  When both succeed, the middleware refers to the member, which holds the new callback. Clearing
  before or afterwards, if it succeeds, leaves no callback in the middleware or the member in each of
  these cases; clearing a valid registration keeps the reference valid, even when it fails.\<close>

theorem callback_registration:
  assumes "rcl_set_laws rcl_set slot" and "callback_ok slot b" and "(register, clear) \<in> set registrations"
    and "register rcl_set (Some f) b = (r, b')"
  shows "(case rcl_set (Some (Local_variable f)) (middleware b) of
      (Inl e, m) \<Rightarrow> r = Inl e \<and> slot (middleware b') = slot (middleware b) \<and> on_new_callback b' = on_new_callback b
    | (Inr _, m) \<Rightarrow> r = fst (rcl_set (Some Member) m) \<and> on_new_callback b' = Some f \<and>
        slot (middleware b') = Some (case r of Inl e \<Rightarrow> Local_variable f | Inr _ \<Rightarrow> Member))
    \<and> (\<forall>b3. clear rcl_set b = (Inr (), b3) \<or> clear rcl_set b' = (Inr (), b3) \<longrightarrow> on_new_callback b3 = None \<and> slot (middleware b3) = None)
    \<and> callback_ok slot (snd (clear rcl_set b))
    \<and> (\<exists>msg. register rcl_set None b = (Inl (Invalid_argument msg), b))"
proof -
  have same: "set_callback_twice rcl_set f b = (r, b')" "\<And>b. clear rcl_set b = clear_callback rcl_set b"
    using assms(4) registrations_same(1,2) [OF assms(3)] by simp_all
  note twice = set_callback_twice_outcome [OF assms(1) same(1)]
  have "callback_ok slot b' \<or> on_new_callback b' \<noteq> None"
    using twice assms(2) by (auto simp: callback_ok_def split: prod.splits sum.splits)
  note repaired = clear_callback_success [OF assms(1) disjI1 [OF assms(2)]] clear_callback_success [OF assms(1) this]
  have "callback_ok slot (snd (clear_callback rcl_set b))"
    using clear_callback_outcome [OF assms(1,2) prod.collapse [symmetric]] by blast
  with twice repaired registrations_same(3) [OF assms(3)] show ?thesis unfolding same(2) by blast
qed

text \<open>A middleware that accepts the local variable and refuses the member.\<close>

definition refuses_member :: "storage option \<Rightarrow> storage option \<Rightarrow> (storage option, unit) res" where
  "refuses_member x m = (if x = Some Member then (Inl (Runtime_error ''refused''), m) else (Inr (), x))"

theorem callback_registration_witness:
  "fst (kilted_set_on_new_response_callback refuses_member (Some 5) \<lparr>on_new_callback = None, middleware = None\<rparr>) =
      Inl (Runtime_error ''refused'')
    \<and> middleware (snd (kilted_set_on_new_response_callback refuses_member (Some 5) \<lparr>on_new_callback = None, middleware = None\<rparr>)) =
      Some (Local_variable 5)"
  using callback_registration [of refuses_member "\<lambda>m. m" "\<lparr>on_new_callback = None, middleware = None\<rparr>"
      kilted_set_on_new_response_callback kilted_clear_on_new_response_callback 5, OF _ _ _ prod.collapse [symmetric]]
  by (simp add: rcl_set_laws_def callback_ok_def registrations_def refuses_member_def)

end
