(* ===== verification/Response_Futures.thy ===== *)
theory Response_Futures
  imports Example_Services Distribution_Bases
begin

text \<open>
  \<open>FutureAndRequestId\<close> (client_base.hpp), what sending a request returns: a future with the id of the
  request, whose methods delegate to \<open>std::future\<close>. The shared states of promises are numbered; a
  future is the number of its state, or nothing once its value was taken or it was moved from. While
  a thread waits, the others change the states: \<open>others d\<close> is what they do in a wait of at most \<open>d\<close>,
  and \<open>others None\<close> what they do until the state waited for is ready, if it ever is.
\<close>

section \<open>Promises\<close>

datatype 'v shared_state = Unresolved | Value 'v | Exception exn

type_synonym 'v states = "nat \<Rightarrow> 'v shared_state"

type_synonym 'v others = "int option \<Rightarrow> 'v states \<Rightarrow> 'v states"

definition broken_promise :: exn where
  "broken_promise = Future_error ''broken_promise''"

definition promise_set :: "'v \<Rightarrow> nat \<Rightarrow> 'v states \<Rightarrow> ('v states, unit) res" where
  "promise_set v p st = (if st p = Unresolved then (Inr (), st(p := Value v))
     else (Inl (Future_error ''promise_already_satisfied''), st))"

text \<open>The destructor of a promise.\<close>

definition abandon :: "nat \<Rightarrow> 'v states \<Rightarrow> 'v states" where
  "abandon p st = (if st p = Unresolved then st(p := Exception broken_promise) else st)"

section \<open>Futures with a request id\<close>

type_synonym response_future = "nat option future_and_request_id"

definition new_FutureAndRequestId :: "nat option \<Rightarrow> int \<Rightarrow> response_future" where
  "new_FutureAndRequestId impl req_id = \<lparr>future = impl, request_id = req_id\<rparr>"

text \<open>The state after waiting, and what it holds then; \<open>None\<close> is a wait without end.\<close>

definition future_wait :: "'v others \<Rightarrow> response_future \<Rightarrow> 'v states \<Rightarrow> ('v states, unit) res option" where
  "future_wait others f st = (case future f of
      None \<Rightarrow> Some (Inl (Undefined No_shared_state), st)
    | Some i \<Rightarrow> (let st' = (if st i = Unresolved then others None st else st)
        in if st' i = Unresolved then None else Some (Inr (), st')))"

text \<open>\<open>get\<close> of a \<open>std::future\<close> waits, takes the value and leaves the future without a state.\<close>

definition future_get ::
  "'v others \<Rightarrow> response_future \<Rightarrow> 'v states \<Rightarrow> ((exn + 'v) \<times> response_future \<times> 'v states) option" where
  "future_get others f st = (case future_wait others f st of
      None \<Rightarrow> None
    | Some (Inl e, st') \<Rightarrow> Some (Inl e, f, st')
    | Some (Inr _, st') \<Rightarrow> Some (case future f of
          None \<Rightarrow> Inl (Undefined No_shared_state)
        | Some i \<Rightarrow> (case st' i of Value v \<Rightarrow> Inr v | Exception e \<Rightarrow> Inl e | Unresolved \<Rightarrow> Inl (Undefined No_shared_state)),
        f\<lparr>future := None\<rparr>, st'))"

text \<open>\<open>get\<close> of a \<open>std::shared_future\<close> keeps the state.\<close>

definition shared_future_get ::
  "'v others \<Rightarrow> response_future \<Rightarrow> 'v states \<Rightarrow> ((exn + 'v) \<times> response_future \<times> 'v states) option" where
  "shared_future_get others f st = (case future_get others f st of
      None \<Rightarrow> None | Some (r, _, st') \<Rightarrow> Some (r, f, st'))"

definition future_valid :: "response_future \<Rightarrow> bool" where
  "future_valid f \<longleftrightarrow> future f \<noteq> None"

datatype future_status = Status_ready | Status_timeout

definition future_wait_for ::
  "'v others \<Rightarrow> int \<Rightarrow> response_future \<Rightarrow> 'v states \<Rightarrow> ('v states, future_status) res" where
  "future_wait_for others timeout_duration f st = (case future f of
      None \<Rightarrow> (Inl (Undefined No_shared_state), st)
    | Some i \<Rightarrow> (let st' = (if st i = Unresolved then others (Some timeout_duration) st else st)
        in (Inr (if st' i = Unresolved then Status_timeout else Status_ready), st')))"

text \<open>The clock shows \<open>now\<close> when the wait begins.\<close>

definition future_wait_until ::
  "'v others \<Rightarrow> int \<Rightarrow> int \<Rightarrow> response_future \<Rightarrow> 'v states \<Rightarrow> ('v states, future_status) res" where
  "future_wait_until others now timeout_time f st = future_wait_for others (max 0 (timeout_time - now)) f st"

text \<open>\<open>share\<close> gives the state away, without the id; so do the move constructor and assignment, with it.\<close>

definition future_share :: "response_future \<Rightarrow> nat option \<times> response_future" where
  "future_share f = (future f, f\<lparr>future := None\<rparr>)"

definition future_move :: "response_future \<Rightarrow> response_future \<times> response_future" where
  "future_move other = (other, other\<lparr>future := None\<rparr>)"

section \<open>Pruning ends the waits\<close>

text \<open>
  The pending requests with their promises: an erased entry takes its promise with it.
\<close>

fun destroy_entries :: "(int \<times> int \<times> nat) list \<Rightarrow> 'v states \<Rightarrow> 'v states" where
  "destroy_entries [] st = st"
| "destroy_entries ((i, t, p) # es) st = destroy_entries es (abandon p st)"

definition prune_promises ::
  "((int \<times> int \<times> nat) list \<Rightarrow> int \<Rightarrow> int list option \<Rightarrow> nat \<times> (int \<times> int \<times> nat) list \<times> int list option)
     \<Rightarrow> (int \<times> int \<times> nat) list \<Rightarrow> int \<Rightarrow> int list option \<Rightarrow> 'v states
     \<Rightarrow> (nat \<times> (int \<times> int \<times> nat) list \<times> int list option) \<times> 'v states" where
  "prune_promises prune pending time_point pruned st =
     (case prune pending time_point pruned of
        (n, kept, ids) \<Rightarrow> ((n, kept, ids), destroy_entries (filter (\<lambda>e. e \<notin> set kept) pending) st))"

lemma destroy_entries_state:
  "destroy_entries es st p = (if p \<in> (\<lambda>e. snd (snd e)) ` set es then abandon p st p else st p)"
  by (induction es st rule: destroy_entries.induct) (auto simp: abandon_def)

lemma prune_promises_exact:
  assumes "prune \<in> set prune_impls"
  shows "prune_promises prune pending T pruned st =
    ((length (filter (\<lambda>(i, t, x). t < T) pending), filter (\<lambda>(i, t, x). T \<le> t) pending,
      map_option (\<lambda>v. v @ map fst (filter (\<lambda>(i, t, x). t < T) pending)) pruned),
     destroy_entries (filter (\<lambda>(i, t, x). t < T) pending) st)"
proof -
  have "filter (\<lambda>e. e \<notin> set (filter (\<lambda>(i, t, x). T \<le> t) pending)) pending = filter (\<lambda>(i, t, x). t < T) pending"
    by (rule filter_cong) auto
  then show ?thesis by (simp add: prune_promises_def prune_impls_exact [OF assms])
qed


lemma unresolved_broken: "st p = Unresolved \<Longrightarrow> abandon p st p = Exception broken_promise"
  by (simp add: abandon_def)

lemma ready_at_once:
  assumes "st p = Exception e"
  shows "future_wait_for others d (new_FutureAndRequestId (Some p) i) st = (Inr Status_ready, st)"
    and "future_get others (new_FutureAndRequestId (Some p) i) st = Some (Inl e, \<lparr>future = None, request_id = i\<rparr>, st)"
  using assms by (simp_all add: future_wait_for_def future_get_def future_wait_def new_FutureAndRequestId_def)

text \<open>A value is taken once from a future, and any number of times from a shared one.\<close>

lemma response_taken_once:
  assumes "future f = Some p" and "st p = Value v"
  shows "\<exists>f'. future_get others f st = Some (Inr v, f', st) \<and> \<not> future_valid f' \<and> request_id f' = request_id f \<and>
      future_get others f' st = Some (Inl (Undefined No_shared_state), f', st)"
    and "shared_future_get others f st = Some (Inr v, f, st)"
  using assms by (auto simp: future_get_def shared_future_get_def future_wait_def future_valid_def)

lemma moved_future:
  "future_move f = (g, h) \<Longrightarrow> g = f \<and> \<not> future_valid h \<and> request_id h = request_id f"
  "future_share f = (s, h) \<Longrightarrow> s = future f \<and> \<not> future_valid h"
  by (auto simp: future_move_def future_share_def future_valid_def)

section \<open>Properties\<close>

text \<open>C39: Pruning pending requests, in the copy of every distribution. It removes exactly the requests older than the time point and keeps the
  others in order; the count is the number removed, and their ids are appended, in the order of the
  map, to the vector if one is given. Whoever waits for a removed request that had no response is
  done at once, with a broken promise; the promises of the others are as before.\<close>

theorem pruned_requests:
  assumes "prune \<in> set prune_impls" and "distinct (map (\<lambda>(i, t, p). p) pending)"
    and "prune_promises prune pending T pruned st = ((n, kept, ids), st')"
  shows "n = length (filter (\<lambda>(i, t, p). t < T) pending) \<and> kept = filter (\<lambda>(i, t, p). T \<le> t) pending \<and>
    ids = map_option (\<lambda>v. v @ map fst (filter (\<lambda>(i, t, p). t < T) pending)) pruned \<and>
    (\<forall>(i, t, p) \<in> set pending. if t < T
       then st p = Unresolved \<longrightarrow> future_wait_for others d (new_FutureAndRequestId (Some p) i) st' = (Inr Status_ready, st') \<and>
         future_get others (new_FutureAndRequestId (Some p) i) st' = Some (Inl broken_promise, \<lparr>future = None, request_id = i\<rparr>, st')
       else st' p = st p)"
proof -
  have st'_def: "st' = destroy_entries (filter (\<lambda>(i, t, p). t < T) pending) st"
    using assms(3) by (simp add: prune_promises_exact [OF assms(1)])
  have st': "st' p = (if p \<in> (\<lambda>e. snd (snd e)) ` set (filter (\<lambda>(i, t, p). t < T) pending) then abandon p st p else st p)" for p
    unfolding st'_def by (rule destroy_entries_state)
  have same: "t' = t" if "(i, t, p) \<in> set pending" "(i', t', p) \<in> set pending" for i i' t t' p
    using that assms(2) by (fastforce simp: distinct_map inj_on_def)
  have old: "st' p = Exception broken_promise" if "(i, t, p) \<in> set pending" "t < T" "st p = Unresolved" for i t p
    using that by (force simp: st' unresolved_broken)
  have young: "st' p = st p" if "(i, t, p) \<in> set pending" "\<not> t < T" for i t p
    using that by (auto simp: st' dest: same [OF that(1)])
  have "n = length (filter (\<lambda>(i, t, p). t < T) pending)" "kept = filter (\<lambda>(i, t, p). T \<le> t) pending"
    "ids = map_option (\<lambda>v. v @ map fst (filter (\<lambda>(i, t, p). t < T) pending)) pruned"
    using assms(3) by (simp_all add: prune_promises_exact [OF assms(1)])
  then show ?thesis using old young by (auto simp: ready_at_once)
qed

theorem pruned_requests_witness:
  "prune_promises lyrical_prune_requests_older_than_impl [(1, 10, 0), (2, 20, 1)] 15 (Some []) (\<lambda>_. Unresolved :: nat shared_state) =
      ((1, [(2, 20, 1)], Some [1]), (\<lambda>_. Unresolved)(0 := Exception broken_promise))
    \<and> future_get (\<lambda>_ st. st) (new_FutureAndRequestId (Some 0) 1) ((\<lambda>_. Unresolved :: nat shared_state)(0 := Exception broken_promise)) =
      Some (Inl broken_promise, \<lparr>future = None, request_id = 1\<rparr>, (\<lambda>_. Unresolved)(0 := Exception broken_promise))"
proof -
  have impl: "lyrical_prune_requests_older_than_impl \<in> set prune_impls" by (simp add: prune_impls_def)
  have "prune_promises lyrical_prune_requests_older_than_impl [(1, 10, 0), (2, 20, 1)] 15 (Some []) (\<lambda>_. Unresolved :: nat shared_state) =
      ((1, [(2, 20, 1)], Some [1]), (\<lambda>_. Unresolved)(0 := Exception broken_promise))"
    by (simp add: prune_promises_exact [OF impl] abandon_def)
  with pruned_requests [OF impl _ this, of "\<lambda>_ st. st" 0] show ?thesis by simp
qed

text \<open>The future of a request as the node sees it: what \<open>get\<close> does with it.\<close>

definition held_outcome ::
  "(bool \<times> string) option others \<Rightarrow> response_future \<Rightarrow> (bool \<times> string) option states \<Rightarrow> outcome future_and_request_id" where
  "held_outcome others f st = \<lparr>future = (case future_get others f st of
      Some (r, _) \<Rightarrow> r | None \<Rightarrow> Inl (Undefined No_shared_state)), request_id = request_id f\<rparr>"

text \<open>C40: A request dropped during the wait. When another thread drops the pending requests that are too old
  while the example client waits for the response to one of them, the call does not wait any
  longer: it returns false with the text of the broken promise as its message, and it
  does not ask for the request to be removed, which is gone already; its id is among those dropped.\<close>

theorem dropped_request_gives_up:
  assumes "client_mocked this a calls w" and "(i, t, p) \<in> set pending" and "t < T" and "st p = Unresolved"
    and "prune \<in> set prune_impls" and "prune_promises prune pending T (Some []) st = ((n, kept, Some ids), st')" and "others (Some timeout) st = st'"
    and "f = new_FutureAndRequestId (Some p) i"
    and "act (Async_send_request (Set_request b)) = Inr (held_outcome others f st')"
    and "setStateWithTimeout act_bool act (\<lambda>_ d. fst (future_wait_for others d f st) = Inr Status_ready)
      what this b timeout (w, nd) = (r, (w', nd'))"
  shows "r = Inr False \<and> getLastResponseMessage nd' = what broken_promise \<and> \<not> getLastCallSuccess nd' \<and>
    client_mocked this a (calls @ [Async_send_request (Set_request b)]) w' \<and> i \<in> set ids \<and> (i, t, p) \<notin> set kept"
proof -
  have st': "st' = destroy_entries (filter (\<lambda>(i, t, x). t < T) pending) st" and ids: "ids = map fst (filter (\<lambda>(i, t, x). t < T) pending)"
    and kept: "kept = filter (\<lambda>(i, t, x). T \<le> t) pending"
    using assms(6) by (auto simp: prune_promises_exact [OF assms(5)])
  have broken: "st' p = Exception broken_promise"
    using assms(2-4) by (force simp: st' destroy_entries_state unresolved_broken)
  have "future (held_outcome others f st') = Inl broken_promise"
    using ready_at_once(2) [of st' p broken_promise others i, OF broken] by (simp add: held_outcome_def assms(8))
  moreover have "fst (future_wait_for others timeout f st) = Inr Status_ready"
    using broken assms(4,7) by (simp add: future_wait_for_def assms(8) new_FutureAndRequestId_def Let_def)
  ultimately have "setStateWithTimeout act_bool act (\<lambda>_ d. fst (future_wait_for others d f st) = Inr Status_ready)
      what this b timeout (w, nd) = read_response what (Inl broken_promise) (recorded a (Async_send_request (Set_request b)) w, nd)"
    by (simp add: setStateWithTimeout_def await_response_def on_world_def async_send_request_def assms(9) forward_recorded(1) [OF assms(1)])
  moreover have "is_std_exception broken_promise" by (simp add: broken_promise_def)
  ultimately show ?thesis
    using assms(2,3,10) forward_recorded(2) [OF assms(1), of "Async_send_request (Set_request b)"]
    by (force simp: read_response_def getLastResponseMessage_def getLastCallSuccess_def ids kept)
qed


theorem dropped_request_gives_up_witness:
  "\<exists>w' nd'. setStateWithTimeout (\<lambda>_. Inr False)
      (\<lambda>_. Inr (held_outcome (\<lambda>_ _. (\<lambda>_. Unresolved)(0 := Exception broken_promise)) (new_FutureAndRequestId (Some 0) 42)
        ((\<lambda>_. Unresolved)(0 := Exception broken_promise))))
      (\<lambda>_ d. fst (future_wait_for (\<lambda>_ _. (\<lambda>_. Unresolved :: (bool \<times> string) option shared_state)(0 := Exception broken_promise)) d
        (new_FutureAndRequestId (Some 0) 42) (\<lambda>_. Unresolved)) = Inr Status_ready)
      (\<lambda>_. ''broken'') 20 True 1000 (mocked_client, new_ServiceClient) = (Inr False, (w', nd'))
    \<and> getLastResponseMessage nd' = ''broken'' \<and> client_mocked 20 70 [Async_send_request (Set_request True)] w'"
proof -
  let ?st = "\<lambda>_. Unresolved :: (bool \<times> string) option shared_state"
  let ?st' = "?st(0 := Exception broken_promise)"
  have impl: "kilted_prune_requests_older_than_impl \<in> set prune_impls" by (simp add: prune_impls_def)
  have "prune_promises kilted_prune_requests_older_than_impl [(42, 10, 0)] 15 (Some []) ?st = ((1, [], Some [42]), ?st')"
    by (simp add: prune_promises_exact [OF impl] abandon_def)
  note gives_up = dropped_request_gives_up [OF client_mocked_start, of 42 10 0 "[(42, 10, 0)]" 15 ?st, OF _ _ _ impl this, of "\<lambda>_ _. ?st'" 1000
      "new_FutureAndRequestId (Some 0) 42" "\<lambda>_. Inr (held_outcome (\<lambda>_ _. ?st') (new_FutureAndRequestId (Some 0) 42) ?st')" True
      "\<lambda>_. Inr False" "\<lambda>_. ''broken''" new_ServiceClient]
  show ?thesis (is "\<exists>w' nd'. ?run = _ \<and> _")
  proof (cases ?run)
    case (fields r w' nd')
    from gives_up [OF _ _ _ refl refl refl fields] fields show ?thesis by simp
  qed
qed

end
