(* ===== verification/Spec2Isabelle.thy ===== *)
theory Spec2Isabelle
  imports Logger_Mock Mock_Attachment Lazy_Thread_Runs Example_Action_Threads Example_Move_Session
    Example_Service_Session Example_Clock_Sessions Response_Futures
begin

text \<open>
  Verification of rtest, a library that lets GoogleTest suites run ROS 2 nodes deterministically:
  headers that replace the communication classes of rclcpp by ones that register themselves and
  forward to mocks. This theory imports all others and holds the properties that span components.

  \<^bold>\<open>The program.\<close> A publisher, subscription, service, client, action client, action server or timer
  created by a node registers itself in the \<open>StaticMocksRegistry\<close> under its node and name, as a weak
  pointer. A test looks an entity up with \<open>findPublisher\<close> and the like, which create a mock and file
  it under the address of the entity; from then on the methods of the entity forward to the mock
  until it is destroyed. Action clients and servers cannot register in their constructor and queue
  a callback that the next lookup runs. \<open>TestClock\<close> and \<open>TriggeringTestClock\<close> drive simulated time
  and the timers of a node. \<open>LoggerMock\<close> and \<open>DisableLogs\<close> replace the output handler of the logger.
  The examples are nodes tested with the library.

  \<^bold>\<open>Shared parts.\<close>
  \<^item> Rtest_Prelude: exceptions and undefined behaviour as values of a result type, 64-bit ranges.
  \<^item> Std_Map: \<open>std::map\<close> as an ordered association list, behind the locale \<open>std_map\<close>.
  \<^item> Smart_Ptr: a memory of objects by address and of control blocks by number; \<open>new_shared\<close>,
    \<open>adopt\<close>, \<open>lock\<close>, \<open>shared_from_this\<close>. Addresses can be used again after an object is destroyed.
  \<^item> Mock_Objects: the records of all classes and the datatype of objects the memory holds.

  \<^bold>\<open>The library, src/rtest/include/rtest and src/rtest/src.\<close>
  \<^item> Static_Registry (static_registry.hpp, registry_cleaner.cpp): every operation on a \<open>world\<close>
    (memory, registry, printed diagnostics); locale \<open>entity_registry\<close>, interpreted for the six kinds
    of entities, and \<open>mock_table\<close>.
  \<^item> Publisher_Mock, Subscription_Mock, Service_Mock, Service_Client_Mock, Action_Client_Mock,
    Action_Server_Mock (the headers of the same names): constructors, methods, mocks, lookups.
  \<^item> Timer_Mock (create_timer_mock.hpp): creation of timers; the period check with its conversions
    to \<open>double\<close>. Test_Clock (test_clock.hpp): the clocks.
  \<^item> Logger_Mock (logger_mock.hpp, logger_mock.cpp, single_instance.hpp).
  \<^item> Entity_Bases (client_base.hpp, service_base.hpp, action_client_base.hpp, action_server_base.hpp,
    read from the Jazzy files), Distribution_Bases (the copies of the first two for Kilted and
    Lyrical; its facts hold for every distribution), and Response_Futures (\<open>FutureAndRequestId\<close> of client_base.hpp, over promises with numbered states).

  \<^bold>\<open>How they fit together.\<close> World_Invariant states the invariant \<open>world_ok\<close> of a world and that every
  operation preserves it. Lazy_Registration treats the queued callbacks in the locale
  \<open>lazy_entities\<close>, interpreted for action clients and servers. Mock_Finders states what a lookup of a
  mock promises as the locale \<open>mock_finder\<close>, interpreted for the five lookups. Framework defines the
  step relation \<open>step\<close> (creation, lookup, calls, release of pointers, destruction, in any order) and
  the reachable worlds, which satisfy \<open>world_ok\<close>. Sample_Worlds holds concrete reachable worlds.
  Mock_Attachment treats the runs (\<open>disciplined\<close>) in which a suite ends only when no mock is alive.
  Lazy_Threads is the lazy registration with several threads: the step relation \<open>lazy_step\<close> on a
  world with the mutex, strong counts and the point each thread is at, and its invariant; in
  Lazy_Thread_Runs a lookup left alone computes \<open>tryLazyInit\<close>, and what interference can do.

  \<^bold>\<open>The examples, src/examples.\<close>
  \<^item> Example_Topics: \<open>DebounceNode\<close>, \<open>Publisher\<close>, \<open>Subscriber\<close>. Example_Services: \<open>ServiceProvider\<close>,
    \<open>ServiceClient\<close>. Example_Action_Client: \<open>ActionClient\<close>.
  \<^item> Ieee_Float: rounding, the operations and the square root of binary32 and binary64, executable,
    with bounds on their errors. Example_Action_Server: \<open>ActionServer\<close>, on binary32.
  \<^item> Example_Action_Threads: the same server with its detached threads, each cut into pieces
    (\<open>thread_step\<close>), as a step relation \<open>move_step\<close> in which the pieces interleave with the callbacks
    of the server, one at a time as in its default callback group, shutdown and destruction.
  \<^item> Example_Move_Session: the action client and the action server together. Which callbacks
    of the client run is arbitrary up to what the action protocol of ROS promises (\<open>delivered\<close>):
    feedback may be lost, repeated, reordered and late.
  \<^item> Example_Sessions: the constructors of the example nodes are runs of the framework, and the
    nodes behave as shown through a mock that a lookup returns in any reachable world.
  \<^item> Example_Service_Session: the service client and the service provider together, each behind the mock
    that a lookup returns, with responses in time or late and requests that are lost.
  \<^item> Example_Clock_Sessions: the publisher node with the timer that a \<open>TriggeringTestClock\<close> drives, and
    the debounce node on a \<open>TestClock\<close>; the environment of the clock is rcl together with the world.

  \<^bold>\<open>What is shown.\<close> Identity of registered entities in spite of reused
  addresses; lookups return mocks for the entity asked for, one at a time, which stay attached; lazy
  registration never touches a destroyed object; a new node starts empty (this theory). Registration
  refines a map in which the first live entity wins; forwarded calls are recorded completely and in
  order; both ways to deliver a request agree; pruning equals filtering. Advancing the triggering
  clock fires each timer once per due time and returns, except for a timer of period zero; the
  period conversion is exact or fails. Log instances restore the handler. Of the examples: an
  accepted finite move reaches its target in spite of rounding, with one final report; at most one
  thread moves the robot, and left alone it does what the function does;
  one timer message per completed period of the timer the node creates, however the time is divided;
  the protocols of calls as seen by the mocks; a dropped request ends the wait for it; a whole move
  ends, and the client then reports success only if the robot is at the target, and calls of the service client agree with what the provider did.
  Threads that look up, share and release action clients and servers never run a callback of a
  destroyed object, and every lookup returns as long as no object loses its last owner meanwhile.
  Where the code does less than it seems to mean, that is stated as a theorem too: a period of zero
  blocks \<open>advance\<close>, \<open>resetClock\<close> is forgotten, a mock can outlive its
  entity or the end of its suite, \<open>findServiceClient\<close> does not check types, a NaN goal
  never ends, a finished goal can become active again, a shutdown during a move leaves the server
  rejecting every goal, a failing registration can leave a reference to a dead local variable, a
  lookup that becomes the last owner of an object locks its mutex twice, log instances destroyed out
  of order leave a dead handler.

  \<^bold>\<open>Loops and bounds.\<close> The loop of \<open>TriggeringTestClock::advance\<close> and that of \<open>execute_move\<close> may not
  end: they are partial functions into \<open>option\<close>, and that they return is proved. A move needs at
  most 6000 rounds (targets and positions lie within 11 of the origin and a step gains at least
  0.005). \<open>drive\<close> runs a given number of single steps; the theorem states that some number suffices.
  All other functions terminate by structure. Times and durations are integers with the 64-bit range
  checked where the code computes; counts of subscriptions are 64-bit words.

  \<^bold>\<open>Parameters.\<close> The actions of expectations, user callbacks, rcl, rcutils, spinning and waiting are
  not part of the repository: they are arguments of the definitions, with what is needed of them as
  hypotheses. The floating-point arithmetic is that of IEEE 754 with rounding to nearest even and
  no excess precision, and a correctly rounded square root.

  \<^bold>\<open>Not modelled.\<close> Mutexes other than that of the lazy registration, and the
  memory order inside a piece of a thread; threads that use the tables of the registry at the same
  time, which no lock protects, and \<open>reset\<close> during a lookup, which takes no lock either
  (the steps of Lazy_Threads leave both out); the text of most log lines; the allocation of empty
  requests, responses and headers (\<open>create_request\<close> and the like) and of loaned
  messages; methods that are only declared and live in rclcpp, or whose bodies are empty; the copies
  for Kilted and Lyrical of \<open>FutureAndRequestId\<close> and of the constant answers of the
  action server's base; the type-adapter overload \<open>publish(const T &)\<close>, which cannot be
  instantiated; include and version macros; \<open>manual_composition.cpp\<close>, which only starts
  an executor. What is left of src/ beyond this is declarations, comments and aliases.
\<close>

section \<open>Identity of entities\<close>

text \<open>C1: Identity under reuse of addresses. In every reachable world, an entry of the registry that is
  still alive is an entity of the table's kind that was created by the very node, and under the
  very name, it is filed under; a live timer entry belongs to the node it is listed for; a live
  mock in the mock table was made for the address it is filed under. Nodes, entities and mocks may
  have been destroyed and their addresses used again any number of times.\<close>

theorem registry_identity:
  assumes "reachable w"
  shows "(\<forall>kd n k x. locked_obj (memory w) (entity_at (table kd (registry w)) n k) = Some x
        \<longrightarrow> entity_id x = Some (kd, n, k))
    \<and> (\<forall>n x. \<forall>t \<in> set (getTimers n w). locked_obj (memory w) t = Some x \<longrightarrow> timer_node_of x = Some n)
    \<and> (\<forall>p x. locked_obj (memory w) (getMock p w) = Some x \<longrightarrow> mock_target x = Some p)"
proof -
  have ok: "world_ok w" using assms by (rule reachable_world_ok)
  then have "locked_obj (memory w) (getMock p w) = Some x \<longrightarrow> mock_target x = Some p" for p x
    by (auto simp: world_ok_def mocks_ok_def getMock_def locked_obj_Some split: option.splits)
  with ok show ?thesis by (simp add: world_ok_def entries_ok_def timers_ok_def getTimers_def)
qed

theorem registry_identity_witness:
  "entity_id (Publisher_obj chat_publisher :: nat obj) = Some (Publishers, Some 1, ''/chat'')
   \<and> locked_obj (memory chat_world) (entity_at (table Publishers (registry chat_world)) (Some 1) ''/chat'')
       = Some (Publisher_obj chat_publisher)"
proof -
  have "locked_obj (memory chat_world) (entity_at (table Publishers (registry chat_world)) (Some 1) ''/chat'')
      = Some (Publisher_obj chat_publisher)" by code_simp
  with registry_identity [OF reachable_chat_world] show ?thesis by blast
qed

text \<open>C10: A new node starts empty. Whatever nodes existed before it, at whatever address it is
  placed, no lookup on it finds an entity of an earlier node, and it has no timers: its identity
  is its control block, which no reference of the registry can still name.\<close>

theorem new_node_starts_empty:
  assumes "reachable w" and "fresh_ctrl c w" and "objs (memory w) a = None"
    and "w' = w\<lparr>memory := new_shared c a (Node_obj name) (memory w)\<rparr>"
  shows "(\<forall>kd T s m b k. fst (find_mock kd m b T c s w') \<noteq> Inr (Some k)) \<and> findTimers c w' = []"
proof (intro conjI allI notI)
  have ok: "world_ok w'"
    using assms by (metis reachable_world_ok world_ok_new_shared fresh_unused)
  show "findTimers c w' = []"
    using assms(2,4) by (simp add: findTimers_def detail_findTimers_def getTimers_def findEntity_def fresh_ctrl_def)
  fix kd T s m b k
  assume "fst (find_mock kd m b T c s w') = Inr (Some k)"
  then obtain p x j where "at_ptr (memory w') p = Some x" "entity_id x = Some (kd, Some c, j)"
    using find_mock_entity [OF ok] by blast
  moreover from this(1) assms(4) have "x = Node_obj name \<or> at_ptr (memory w) p = Some x"
    by (auto simp: at_ptr_def split: if_splits)
  ultimately show False using assms(2) unfolding fresh_ctrl_def by auto
qed

theorem new_node_starts_empty_witness:
  "\<forall>kd T s m b k. fst (find_mock kd m b T 3 s
      ((release 1 chat_world)\<lparr>memory := new_shared 3 10 (Node_obj None) (memory (release 1 chat_world))\<rparr>)) \<noteq> Inr (Some k)"
proof -
  have "reachable (release 1 chat_world)" by (rule reachable.move [OF reachable_chat_world step.Release])
  moreover have "fresh_ctrl 3 (release 1 chat_world)"
    by (rule fresh_release) (simp add: fresh_chat_world)
  moreover have "objs (memory (release 1 chat_world)) 10 = None" by code_simp
  ultimately show ?thesis using new_node_starts_empty by blast
qed

section \<open>Lookups that attach a mock\<close>

text \<open>C2: A mock returned by a lookup is made for the entity asked for: it is alive, of the mock class
  for the requested type, and points to a live entity of the right kind that the given node
  created under the given name; where the lookup checks the type, the entity has it too.\<close>

theorem find_mock_correct:
  assumes "reachable w" and "fresh_ctrl c w" and "objs (memory w) a = None" and "kd \<noteq> Subscriptions"
    and "find_mock kd c a T n s w = (Inr (Some c'), w')"
  shows "\<exists>k p x. locked_obj (memory w') (Some c') = Some k \<and> mock_target k = Some p
    \<and> mock_type k = Some (kd, T) \<and> at_ptr (memory w') p = Some x
    \<and> entity_id x = Some (kd, Some n, lookup_key kd s) \<and> (checks_type kd \<longrightarrow> entity_type x = Some T)"
  by (rule mock_finder.found_entity [OF find_mock_finder [OF assms(4)] reachable_world_ok [OF assms(1)]
        fresh_unused [OF assms(2)] assms(3,5)])

theorem find_mock_correct_witness:
  "\<exists>k p x. locked_obj (memory chat_mock_world) (Some 7) = Some k \<and> mock_target k = Some p
    \<and> mock_type k = Some (Publishers, ''String'') \<and> at_ptr (memory chat_mock_world) p = Some x
    \<and> entity_id x = Some (Publishers, Some 1, lookup_key Publishers ''chat'')
    \<and> (checks_type Publishers \<longrightarrow> entity_type x = Some ''String'')"
  using find_mock_correct [OF reachable_chat_world fresh_chat_world dead_chat_world, of 7 70 Publishers "''String''" 1 "''chat''" 7 chat_mock_world]
    find_chat_mock_world by simp

text \<open>C3: One mock at a time. After a successful lookup the same lookup returns no mock; once the
  mock is released, the lookup succeeds again.\<close>

theorem find_mock_exclusive:
  assumes "reachable w" and "fresh_ctrl c w" and "objs (memory w) a = None" and "kd \<noteq> Subscriptions"
    and "find_mock kd c a T n s w = (Inr (Some c'), w')"
  shows "fst (find_mock kd c2 a2 T n s w') = Inr None
    \<and> fst (find_mock kd c2 a2 T n s (release c' w')) = Inr (Some c2)"
proof -
  note finder = find_mock_finder [OF assms(4)]
  note pre = reachable_world_ok [OF assms(1)] fresh_unused [OF assms(2)] assms(3)
  have "c' = c" by (rule mock_finder.find_success [OF finder pre assms(5)])
  then show ?thesis
    using mock_finder.second_find_refused [OF finder pre assms(5)]
      mock_finder.find_after_release [OF finder pre assms(5)] by simp
qed

theorem find_mock_exclusive_witness:
  "fst (find_mock Publishers 8 80 ''String'' 1 ''chat'' chat_mock_world) = Inr None
   \<and> fst (find_mock Publishers 8 80 ''String'' 1 ''chat'' (release 7 chat_mock_world)) = Inr (Some 8)"
  by (rule find_mock_exclusive [OF reachable_chat_world fresh_chat_world [of 7] dead_chat_world [of 70]])
     (use find_chat_mock_world in simp_all)

text \<open>C5: Lazy registration is safe and complete. In every reachable world the lookup of an action
  client or action server returns without an error, in particular without touching a destroyed
  object; afterwards exactly the objects that no \<open>shared_ptr\<close> owns are still queued, and for every
  queued object that one owns, its node and name lead to a live entity.\<close>

theorem lazy_lookup_safe:
  assumes "reachable w"
  shows "(\<exists>r w'. getActionClient action_client_post_init_setup n k w = (Inr r, w')
      \<and> lazy_init_action_clients (registry w') =
          filter (\<lambda>e. \<not> owned (memory w) e) (lazy_init_action_clients (registry w))
      \<and> (\<forall>e s. e \<in> set (lazy_init_action_clients (registry w)) \<longrightarrow> owned (memory w) e \<longrightarrow>
           at_ptr (memory w) (raw_ptr e) = Some (Action_client_obj s) \<longrightarrow>
           lock (memory w') (entity_at (actionClientsRegistry (registry w')) (aclient_node s) (aclient_action_name s)) \<noteq> None))
    \<and> (\<exists>r w'. getActionServer action_server_post_init_setup n k w = (Inr r, w')
      \<and> lazy_init_action_servers (registry w') =
          filter (\<lambda>e. \<not> owned (memory w) e) (lazy_init_action_servers (registry w))
      \<and> (\<forall>e s. e \<in> set (lazy_init_action_servers (registry w)) \<longrightarrow> owned (memory w) e \<longrightarrow>
           at_ptr (memory w) (raw_ptr e) = Some (Action_server_obj s) \<longrightarrow>
           lock (memory w') (entity_at (actionServersRegistry (registry w')) (server_node s) (server_action_name s)) \<noteq> None))"
proof
  have ok: "world_ok w" using assms by (rule reachable_world_ok)
  show "\<exists>r w'. getActionClient action_client_post_init_setup n k w = (Inr r, w')
      \<and> lazy_init_action_clients (registry w') =
          filter (\<lambda>e. \<not> owned (memory w) e) (lazy_init_action_clients (registry w))
      \<and> (\<forall>e s. e \<in> set (lazy_init_action_clients (registry w)) \<longrightarrow> owned (memory w) e \<longrightarrow>
           at_ptr (memory w) (raw_ptr e) = Some (Action_client_obj s) \<longrightarrow>
           lock (memory w') (entity_at (actionClientsRegistry (registry w')) (aclient_node s) (aclient_action_name s)) \<noteq> None)"
    by (rule lazy_lookup_result [OF getActionClient_lookup [OF ok, of n k]]) fastforce
  show "\<exists>r w'. getActionServer action_server_post_init_setup n k w = (Inr r, w')
      \<and> lazy_init_action_servers (registry w') =
          filter (\<lambda>e. \<not> owned (memory w) e) (lazy_init_action_servers (registry w))
      \<and> (\<forall>e s. e \<in> set (lazy_init_action_servers (registry w)) \<longrightarrow> owned (memory w) e \<longrightarrow>
           at_ptr (memory w) (raw_ptr e) = Some (Action_server_obj s) \<longrightarrow>
           lock (memory w') (entity_at (actionServersRegistry (registry w')) (server_node s) (server_action_name s)) \<noteq> None)"
    by (rule lazy_lookup_result [OF getActionServer_lookup [OF ok, of n k]]) fastforce
qed

theorem lazy_lookup_safe_witness:
  "\<exists>r w'. getActionClient action_client_post_init_setup (Some 1) ''fib'' fib_pair_world = (Inr r, w')
      \<and> map raw_ptr (lazy_init_action_clients (registry w')) = [41]
      \<and> lock (memory w') (entity_at (actionClientsRegistry (registry w')) (Some 1) ''fib'') \<noteq> None"
proof -
  let ?w = fib_pair_world
  have queue: "map raw_ptr (filter (\<lambda>e. \<not> owned (memory ?w) e) (lazy_init_action_clients (registry ?w))) = [41]"
    "\<exists>e \<in> set (lazy_init_action_clients (registry ?w)). raw_ptr e = 40 \<and> owned (memory ?w) e"
    by code_simp+
  have "at_ptr (memory ?w) 40 = Some (Action_client_obj fib_client)" by code_simp
  moreover obtain r w' where "getActionClient action_client_post_init_setup (Some 1) ''fib'' ?w = (Inr r, w')"
    "lazy_init_action_clients (registry w') = filter (\<lambda>e. \<not> owned (memory ?w) e) (lazy_init_action_clients (registry ?w))"
    "\<forall>e s. e \<in> set (lazy_init_action_clients (registry ?w)) \<longrightarrow> owned (memory ?w) e \<longrightarrow>
       at_ptr (memory ?w) (raw_ptr e) = Some (Action_client_obj s) \<longrightarrow>
       lock (memory w') (entity_at (actionClientsRegistry (registry w')) (aclient_node s) (aclient_action_name s)) \<noteq> None"
    using lazy_lookup_safe [OF reachable_fib_pair_world, of "Some 1" "''fib''"] by blast
  ultimately show ?thesis using queue by (auto simp: fib_client_def)
qed

section \<open>From creation to lookup\<close>

text \<open>C6: A created publisher is found and observed. A publisher created under a name that no live
  publisher of its node has, at an address no live mock is filed under, is found under that name
  and type, and its mock records exactly the messages published from then on, in order.\<close>

theorem created_publisher_observed:
  assumes "reachable w" and "fresh_ctrl c w" and "objs (memory w) a = None"
    and "publisher_node p = Some n" and "publisher_topic p = topic_key s" and "s \<noteq> []"
    and "lock (memory w) (entity_at (publishersRegistry (registry w)) (Some n) (topic_key s)) = None"
    and "lock (memory w) (getMock a w) = None"
    and "m \<noteq> c" and "b \<noteq> a"
    and "found = findPublisher m b (publisher_type p) n s (create_publisher c a p w)"
    and "w' = fold (\<lambda>x v. snd (publish_sink a (publisher_type p) x v)) xs (snd found)"
  shows "fst found = Inr (Some m) \<and> publisher_mock_of a (publisher_type p) w' =
    Inr (Some (b, (new_PublisherMock (publisher_type p) a)\<lparr>publish_calls := xs\<rparr>))"
proof -
  let ?w1 = "create_publisher c a p w" and ?T = "publisher_type p"
  obtain w2 where w2: "w2 = snd (getPublisher (Some n) (topic_key s) ?w1)" by simp
  let ?w3 = "attachMock a (Some m) (w2\<lparr>memory := new_shared m b (Publisher_mock_obj (new_PublisherMock ?T a)) (memory w2)\<rparr>)"
  have reg: "registers Publishers (Some n) (topic_key s) (Some c)
      (w\<lparr>memory := new_shared c a (Publisher_obj p) (memory w)\<rparr>) ?w1"
    unfolding create_publisher_def publisher_post_init_setup_def assms(4,5) by (rule registers_ops(1))
  have look: "only_looks ?w1 w2" unfolding w2 by (rule only_looks_ops(1))
  have mem: "memory w2 = new_shared c a (Publisher_obj p) (memory w)"
    using look reg by (simp add: only_looks_def registers_def)
  have mocks: "getMock a w2 = getMock a w"
    using look reg by (simp add: getMock_def only_looks_def registers_def same_but_tables_def)
  have free: "unreferenced c (registry w)" using assms(2) by (simp add: fresh_ctrl_def unused_def)
  have "entity_at (table Publishers (registry w)) (Some n) (topic_key s) \<noteq> Some c"
    using free unfolding unreferenced_def by blast
  then have "entity_at (table Publishers (registry ?w1)) (Some n) (topic_key s) = Some c"
    using reg assms(7) by (simp add: registers_def entity_at_register_at)
  then have get: "getPublisher (Some n) (topic_key s) ?w1 = (Some c, w2)"
    using fst_get_ops(1) [of "Some n" "topic_key s" ?w1] by (simp add: w2 prod_eq_iff)
  have "getMock a w \<noteq> Some c"
    using free by (auto simp: unreferenced_def getMock_def split: option.split)
  then have "lock (memory w2) (getMock a w2) = None" using assms(8) by (simp add: mocks mem)
  moreover have "locked_ptr (memory w2) (Some c) = Some a" "at_ptr (memory w2) a = Some (Publisher_obj p)"
    by (simp_all add: mem locked_ptr_def lock_def at_ptr_def)
  ultimately have found: "found = (Inr (Some m), ?w3)"
    using assms(6,11) by (simp add: findPublisher_def get)
  have "publisher_mock_of a ?T ?w3 = Inr (Some (b, new_PublisherMock ?T a))"
    by (simp add: publisher_mock_of_Some mocks.get_attach locked_ptr_def lock_def at_ptr_def new_PublisherMock_def)
  from publish_fold [OF this, of xs] show ?thesis
    by (simp add: found assms(12) new_PublisherMock_def)
qed
theorem created_publisher_observed_witness:
  "fst (findPublisher 7 70 ''String'' 1 ''chat'' chat_world) = Inr (Some 7) \<and>
   publisher_mock_of 20 ''String'' (fold (\<lambda>x v. snd (publish_sink 20 ''String'' x v)) [5, 6] chat_mock_world) =
     Inr (Some (70, (new_PublisherMock ''String'' 20)\<lparr>publish_calls := [5, 6]\<rparr>))"
proof -
  have "lock (memory (node_world :: nat world)) (getMock 20 (node_world :: nat world)) = None"
    "lock (memory (node_world :: nat world)) (entity_at (publishersRegistry (registry (node_world :: nat world))) (Some 1) (topic_key ''chat'')) = None"
    "objs (memory (node_world :: nat world)) 20 = None"
    by code_simp+
  then show ?thesis
    using created_publisher_observed [OF reachable_node_world fresh_node_world, of 2 20 chat_publisher 1 "''chat''" 7 70 _ _ "[5, 6 :: nat]"]
    by (simp add: chat_publisher_def topic_key_def chat_mock_world_def chat_world_def)
qed

text \<open>A wrong type goes unnoticed. \<open>findServiceClient\<close> does not compare the service type: the mock it
  attaches works exactly when the type given to the lookup is the client's; otherwise the next
  request of the client casts the mock to a class it is not.\<close>

lemma service_client_type_unchecked:
  assumes "reachable w" and "fresh_ctrl c w" and "objs (memory w) a = None"
    and "findServiceClient c a T n s w = (Inr (Some c'), w')"
  shows "\<exists>p cli. at_ptr (memory w') p = Some (Client_obj cli) \<and> client_node_id cli = Some n
    \<and> fst (async_send_request act p (client_type cli) request w') =
        (if client_type cli = T then act (Async_send_request request) else Inl (Undefined Bad_static_cast))"
proof -
  obtain p k where w': "world_ok w'" "sees Service_clients T n s w' = Some p" "getMock p w' = Some c"
    "owner (memory w') c = Some a" "at_ptr (memory w') a = Some k" "mock_type k = Some (Service_clients, T)"
    by (rule find_cli.find_success [OF reachable_world_ok [OF assms(1)] fresh_unused [OF assms(2)] assms(3,4)])
  obtain x where "at_ptr (memory w') p = Some x" "entity_id x = Some (Service_clients, Some n, lookup_key Service_clients s)"
    by (rule world_ok_found [OF w'(1), of Service_clients "Some n" "lookup_key Service_clients s" p])
       (use w'(2) in \<open>auto simp: sees_def split: option.splits if_splits\<close>)
  then obtain cli where "at_ptr (memory w') p = Some (Client_obj cli)" "client_node_id cli = Some n"
    by (cases x) auto
  moreover obtain k' where "k = Service_client_mock_obj k'" "cm_type k' = T"
    using w'(6) by (cases k) auto
  ultimately show ?thesis
    using w'(3-5) by (intro exI [of _ p] exI [of _ cli]) (auto simp: async_send_request_def forward_to_client_mock_def locked_ptr_def lock_def)
qed

text \<open>C31: A mock can outlive its entity. When a publisher is destroyed while its mock is held and a
  publisher of another type is placed at the same address, the old mock is still filed under that
  address and the next publication casts it to a class it is not. And when the registry is reset at
  the end of a suite while the mock is held, its destructor later detaches the live mock of
  a new publisher at that address, so that messages are no longer seen and a second mock is granted.\<close>

theorem stale_mock_confusion:
  "(\<exists>w p q. reachable w \<and> at_ptr (memory w) p = Some (Publisher_obj q)
      \<and> fst (publish_sink p (publisher_type q) (m :: nat) w) = Inl (Undefined Bad_static_cast))
    \<and> (\<exists>w c d p T n s. reachable (w :: nat world) \<and> d \<noteq> c \<and> getMock p w = Some c \<and> lock (memory w) (Some c) = Some c
      \<and> lock (memory (release d w)) (Some c) = Some c \<and> getMock p (release d w) = None
      \<and> fst (findPublisher 9 90 T n s (release d w)) = Inr (Some 9))"
proof
  let ?old = "release 2 chat_mock_world" and ?q = "\<lparr>publisher_type = ''Int'', publisher_topic = ''/count'', publisher_node = Some 1\<rparr>"
  let ?w = "create_publisher 4 20 ?q ?old"
  have "reachable ?old" by (rule reachable.move [OF reachable_chat_mock_world step.Release])
  moreover have "fresh_ctrl 4 ?old" by (intro fresh_release fresh_chat_mock_world) simp_all
  moreover have "objs (memory ?old) 20 = None" by code_simp
  ultimately have "reachable ?w" by (intro reachable.move [OF _ step.Create_publisher])
  moreover have "at_ptr (memory ?w) 20 = Some (Publisher_obj ?q)" by code_simp
  moreover have "publisher_mock_of 20 ''Int'' ?w = Inl (Undefined Bad_static_cast)" by code_simp
  then have "fst (publish_sink 20 ''Int'' m ?w) = Inl (Undefined Bad_static_cast)" by (simp add: publish_sink_def)
  ultimately show "\<exists>w p q. reachable w \<and> at_ptr (memory w) p = Some (Publisher_obj q)
      \<and> fst (publish_sink p (publisher_type q) (m :: nat) w) = Inl (Undefined Bad_static_cast)"
    by (intro exI [of _ ?w] exI [of _ 20] exI [of _ ?q]) simp
  have "getMock 20 second_mock_world = Some 8" "lock (memory second_mock_world) (Some 8) = Some 8"
    "lock (memory (release 7 second_mock_world)) (Some 8) = Some 8" "getMock 20 (release 7 second_mock_world) = None"
    "fst (findPublisher 9 90 ''String'' 1 ''chat'' (release 7 second_mock_world)) = Inr (Some 9)" by code_simp+
  then show "\<exists>w c d p T n s. reachable (w :: nat world) \<and> d \<noteq> c \<and> getMock p w = Some c \<and> lock (memory w) (Some c) = Some c
      \<and> lock (memory (release d w)) (Some c) = Some c \<and> getMock p (release d w) = None
      \<and> fst (findPublisher 9 90 T n s (release d w)) = Inr (Some 9)"
    using reachable_second_mock_world
    by (intro exI [of _ second_mock_world] exI [of _ 8] exI [of _ 7] exI [of _ 20] exI [of _ "''String''"] exI [of _ 1] exI [of _ "''chat''"]) simp
qed


text \<open>C15: A subscription returned by a lookup is the one asked for: alive, of the requested message type,
  created by the given node on the given topic.\<close>

theorem find_subscription_correct:
  assumes "reachable w" and "findSubscription T n s w = (Inr (Some c), w')"
  shows "\<exists>x. locked_obj (memory w') (Some c) = Some (Subscription_obj x) \<and> subscription_type x = T
    \<and> subscription_node x = Some n \<and> subscription_topic x = topic_key s"
proof -
  obtain r w1 where get: "getSubscription (Some n) (topic_key s) w = (r, w1)" by fastforce
  have look: "only_looks w w1" by (metis get only_looks_ops(2) snd_conv)
  have ok: "world_ok w1" by (rule world_ok_only_looks [OF reachable_world_ok [OF assms(1)] look])
  have r: "r = entity_at (table Subscriptions (registry w1)) (Some n) (topic_key s)"
    using fst_getSubscription [of "Some n" "topic_key s" w] by (simp add: get)
  have s: "s \<noteq> []" using assms(2) by (auto simp: findSubscription_def)
  obtain y where y: "locked_obj (memory w1) r = Some y"
    using assms(2) s by (cases "locked_obj (memory w1) r") (simp_all add: findSubscription_def get)
  obtain x where x: "y = Subscription_obj x"
    using assms(2) s y by (cases y) (simp_all add: findSubscription_def get)
  have "subscription_type x = T" "lock (memory w1) r = Some c" "w' = w1"
    using assms(2) s y x by (auto simp: findSubscription_def get split: if_splits option.splits)
  note x = y [unfolded x] this
  then have "entity_id (Subscription_obj x :: 'a obj) = Some (Subscriptions, Some n, topic_key s)"
    using ok r unfolding world_ok_def entries_ok_def by blast
  with x show ?thesis by (auto simp: lock_Some)
qed


theorem find_subscription_correct_witness:
  "\<exists>x. locked_obj (memory (snd (findSubscription ''String'' 1 ''chat'' listener_world))) (Some 2) = Some (Subscription_obj x)
    \<and> subscription_type x = ''String'' \<and> subscription_node x = Some 1 \<and> subscription_topic x = ''/chat''"
proof -
  have "fst (findSubscription ''String'' 1 ''chat'' listener_world) = Inr (Some 2)" by code_simp
  then show ?thesis
    using find_subscription_correct [OF reachable_listener_world, of "''String''" 1 "''chat''" 2]
    by (simp add: prod_eq_iff topic_key_def)
qed

text \<open>C14: An action client becomes visible when it is owned. Right after construction, when no
  \<open>shared_ptr\<close> owns it yet, no lookup returns a mock for it; once one does, the lookup under its
  node and name attaches a mock, provided the node has no other client of that name.\<close>

theorem action_client_visible:
  assumes "reachable w" and "objs (memory w) a = None"
    and "\<forall>q x. at_ptr (memory w) q = Some x \<longrightarrow> entity_id x \<noteq> Some (Action_clients, Some n, k)"
    and "aclient_node ac = Some n" and "aclient_action_name ac = k"
    and "lock (memory w) (getMock a w) = None"
    and "w1 = new_action_client a ac fq w" and "fresh_ctrl c w1"
    and "w2 = w1\<lparr>memory := adopt c a (memory w1)\<rparr>"
  shows "(\<forall>c'. fst (findActionClient m b T n k w1) \<noteq> Inr (Some c')) \<and>
    fst (findActionClient m b T n k w2) = Inr (Some m)"
proof
  have ok1: "world_ok w1"
    unfolding assms(7) by (rule world_ok_new_action_client [OF reachable_world_ok [OF assms(1)] assms(2)])
  have mem1: "memory w1 = Smart_Ptr.construct a (Action_client_obj ac) (memory w)" by (simp add: assms(7) new_action_client_def)
  have only: "q = a" if "at_ptr (memory w1) q = Some x" "entity_id x = Some (Action_clients, Some n, k)" for q x
    using that assms(3) by (auto simp: mem1 at_ptr_def split: if_splits)
  have "owner (memory w1) d \<noteq> Some a" for d
    using ok1 by (auto simp: world_ok_def mem_ok_def mem1)
  then show "\<forall>c'. fst (findActionClient m b T n k w1) \<noteq> Inr (Some c')"
    using find_acli.find_needs_owner [OF ok1, of n k m b T] only by (metis lookup_key.simps(6))
  have cell: "objs (memory w1) a = Some \<lparr>payload = Action_client_obj ac, weak_this = None\<rparr>" by (simp add: mem1)
  have at2: "at_ptr (memory w2) q = at_ptr (memory w1) q" for q by (simp add: assms(9) adopt_def cell at_ptr_def)
  have own2: "owner (memory w2) = (owner (memory w))(c \<mapsto> a)" by (simp add: assms(9) adopt_def cell mem1)
  let ?e = "\<lparr>raw_ptr = a, node_name = fq, action_name = k, init_callback = Post_init_setup a\<rparr>"
  have reg: "registry w2 = registry w1" by (simp add: assms(9))
  have mocks: "getMock a w2 = getMock a w" "getMock a w1 = getMock a w"
    by (simp_all add: assms(7,9) new_action_client_def registerLazyInitClient_def getMock_def)
  have "getMock a w1 \<noteq> Some c"
    using assms(8) by (auto simp: fresh_ctrl_def unused_def unreferenced_def getMock_def split: option.split)
  then have no_mock: "lock (memory w2) (getMock a w2) = None"
    using assms(6) by (cases "getMock a w") (auto simp: mocks lock_def own2 split: option.splits)
  show "fst (findActionClient m b T n k w2) = Inr (Some m)"
  proof (rule owned_client_found)
    show "world_ok w2"
      unfolding assms(9) by (rule world_ok_adopt [OF ok1 fresh_unused [OF assms(8)] cell]) simp
    show "owned (memory w2) ?e"
      by (simp add: owned_def assms(9) adopt_def cell shared_from_this_def lock_def)
    show "?e \<in> set (lazy_init_action_clients (registry w2))"
      unfolding reg using assms(5) by (simp add: assms(7) new_action_client_def registerLazyInitClient_def)
    show "at_ptr (memory w2) (raw_ptr ?e) = Some (Action_client_obj ac)"
      unfolding at2 by (simp add: mem1 at_ptr_def)
    show "entity_id (Action_client_obj ac :: 'a obj) = Some (Action_clients, Some n, k)" using assms(4,5) by simp
    show "q = raw_ptr ?e" if "at_ptr (memory w2) q = Some x" "entity_id x = Some (Action_clients, Some n, k)" for q x
      using only that unfolding at2 by simp
    show "lock (memory w2) (getMock (raw_ptr ?e) w2) = None" using no_mock by simp
  qed
qed


theorem action_client_visible_witness:
  "(\<forall>c'. fst (findActionClient 7 70 ''Fib'' 1 ''fib'' fib_world) \<noteq> Inr (Some c')) \<and>
   fst (findActionClient 7 70 ''Fib'' 1 ''fib'' (fib_world\<lparr>memory := adopt 4 40 (memory fib_world)\<rparr>)) = Inr (Some 7)"
proof -
  have "lock (memory (node_world :: nat world)) (getMock 40 (node_world :: nat world)) = None" "objs (memory (node_world :: nat world)) 40 = None" by code_simp+
  moreover have "\<forall>q x. at_ptr (memory (node_world :: nat world)) q = Some x \<longrightarrow> entity_id x \<noteq> Some (Action_clients, Some 1, ''fib'')"
    by (auto simp: node_world_def init_world_def empty_mem_def at_ptr_def split: if_splits)
  ultimately show ?thesis
    using action_client_visible [OF reachable_node_world, of 40 1 "''fib''" fib_client fib_world "''/talker''" 4 _ 7 70 "''Fib''"]
      fresh_fib_world [of 4]
    by (simp add: fib_client_def fib_world_def)
qed

end
